(* ===== verification/Prelude.thy ===== *)
theory Prelude
  imports Main "HOL-Library.Word" "HOL-Library.State_Monad"
begin

text \<open>
  Shared vocabulary of the development: Go's fixed-width integers and time values, the
  strings the sources build with \<^verbatim>\<open>fmt.Sprintf\<close>, the namespace default every component
  applies to an object reference, and a weakest-precondition calculus for the state monad in
  which the effectful functions are written.  Nothing here is specific to one component.
\<close>

section \<open>Collections of facts\<close>

named_theorems wp_simps \<open>weakest preconditions of the monad's constructs and of the primitives\<close>
named_theorems go_time \<open>unfolding of Go's durations\<close>
named_theorems api_consts \<open>unfolding of the constants the sources declare\<close>

section \<open>Fixed-width integers\<close>

text \<open>
  \<open>int32\<close> is a replica count or a percentage, \<open>int64\<close> a number inside an unstructured object,
  \<open>duration\<close> Go's \<^verbatim>\<open>time.Duration\<close>: a signed 64-bit count of nanoseconds.  Comparison of
  such values is signed (\<open>\<le>s\<close>, \<open><s\<close>); addition and subtraction wrap.
\<close>

type_synonym int32 = "32 word"
type_synonym int64 = "64 word"
type_synonym duration = "64 word"

text \<open>An instant, in nanoseconds; \<open>gotime option\<close> is a nil-able \<^verbatim>\<open>*metav1.Time\<close>.\<close>

type_synonym gotime = int

definition Second :: duration where
  "Second = 1000000000"

definition Minute :: duration where
  "Minute = 60 * Second"

definition Hour :: duration where
  "Hour = 60 * Minute"

text \<open>
  \<^verbatim>\<open>Time.Sub\<close> saturates at the smallest and the largest duration, so that \<^verbatim>\<open>time.Since\<close> does.
\<close>

definition int64_min :: int where
  "int64_min = - (2 ^ 63)"

definition int64_max :: int where
  "int64_max = 2 ^ 63 - 1"

definition sub_time :: "gotime \<Rightarrow> gotime \<Rightarrow> duration" where
  "sub_time t u = word_of_int (max int64_min (min int64_max (t - u)))"

definition add_time :: "gotime \<Rightarrow> duration \<Rightarrow> gotime" where
  "add_time t d = t + sint d"

lemmas duration_defs [go_time] = Second_def Minute_def Hour_def
lemmas int64_bounds [go_time] = int64_min_def int64_max_def

lemma sint_word_of_int_64:
  assumes "- (2 ^ 63) \<le> i" and "i < 2 ^ 63"
  shows "sint (word_of_int i :: 64 word) = i"
  using assms by (simp add: sint_sbintrunc' signed_take_bit_int_eq_self)

lemma sint_word_of_int_32:
  assumes "- (2 ^ 31) \<le> i" and "i < 2 ^ 31"
  shows "sint (word_of_int i :: 32 word) = i"
  using assms by (simp add: sint_sbintrunc' signed_take_bit_int_eq_self)

lemma sint_range_64: "- (2 ^ 63) \<le> sint (d :: 64 word) \<and> sint d < 2 ^ 63"
  using sint_greater_eq [of d] sint_less [of d] by simp

lemma sint_range_32: "- (2 ^ 31) \<le> sint (n :: 32 word) \<and> sint n < 2 ^ 31"
  using sint_greater_eq [of n] sint_less [of n] by simp

lemma sint_eq_0_iff_32 [simp]: "sint (n :: 32 word) = 0 \<longleftrightarrow> n = 0"
  by (simp add: signed_eq_0_iff)

lemma sint_sub_time: "sint (sub_time t u) = max int64_min (min int64_max (t - u))"
  unfolding sub_time_def by (rule sint_word_of_int_64) (auto simp: int64_bounds)

text \<open>Signed addition does not wrap while the exact sum is in range.\<close>

lemma sint_add_no_wrap:
  assumes "- (2 ^ 63) \<le> sint a + sint b" and "sint a + sint b < 2 ^ 63"
  shows "sint (a + b :: 64 word) = sint a + sint b"
proof -
  have "a + b = word_of_int (sint a + sint b)" by simp
  then show ?thesis using sint_word_of_int_64 [OF assms] by simp
qed

lemma sint_diff_no_wrap:
  assumes "- (2 ^ 63) \<le> sint a - sint b" and "sint a - sint b < 2 ^ 63"
  shows "sint (a - b :: 64 word) = sint a - sint b"
proof -
  have "a - b = word_of_int (sint a - sint b)" by simp
  then show ?thesis using sint_word_of_int_64 [OF assms] by simp
qed

lemma sint_Second: "sint Second = 1000000000"
  by (simp add: Second_def)

section \<open>Strings\<close>

text \<open>
  A Go string is a sequence of bytes, so it is a \<open>char list\<close>.  The two non-ASCII runes of the
  messages are written as their UTF-8 bytes.
\<close>

definition em_dash :: string where
  "em_dash = [CHR 0xE2, CHR 0x80, CHR 0x94]"

definition right_arrow :: string where
  "right_arrow = [CHR 0xE2, CHR 0x86, CHR 0x92]"

definition digit :: "nat \<Rightarrow> char" where
  "digit n = char_of (48 + n)"

fun show_nat :: "nat \<Rightarrow> string" where
  "show_nat n = (if n < 10 then [digit n] else show_nat (n div 10) @ [digit (n mod 10)])"

declare show_nat.simps [simp del]

text \<open>The verb \<^verbatim>\<open>%d\<close>.\<close>

definition show_int :: "int \<Rightarrow> string" where
  "show_int i = (if i < 0 then ''-'' @ show_nat (nat (- i)) else show_nat (nat i))"

text \<open>\<^verbatim>\<open>strings.Join\<close>.\<close>

fun join :: "string list \<Rightarrow> string \<Rightarrow> string" where
  "join [] sep = []"
| "join [x] sep = x"
| "join (x # y # xs) sep = x @ sep @ join (y # xs) sep"

text \<open>
  The namespace of an object reference: the reference's own, or the one of the object that
  holds it when it is empty.  The sources repeat these three lines wherever a reference is
  resolved.
\<close>

definition namespace_or :: "string \<Rightarrow> string \<Rightarrow> string" where
  "namespace_or ns defaultNS = (if ns = [] then defaultNS else ns)"

lemma namespace_or_simps [simp]:
  "namespace_or [] d = d"
  "ns \<noteq> [] \<Longrightarrow> namespace_or ns d = ns"
  by (simp_all add: namespace_or_def)

text \<open>\<^verbatim>\<open>types.NamespacedName\<close>.\<close>

record NamespacedName =
  nn_Namespace :: string
  nn_Name :: string

section \<open>Weakest preconditions for the state monad\<close>

text \<open>
  The effectful functions of the sources are computations of \<open>('s, 'a) state\<close>.  \<open>wp m Q s\<close>
  says that running \<open>m\<close> from \<open>s\<close> ends in a result and a state that satisfy \<open>Q\<close>; every
  computation is total, so this is total correctness.
\<close>

abbreviation return :: "'a \<Rightarrow> ('s, 'a) state" where
  "return \<equiv> State_Monad.return"

definition wp :: "('s, 'a) state \<Rightarrow> ('a \<Rightarrow> 's \<Rightarrow> bool) \<Rightarrow> 's \<Rightarrow> bool" where
  "wp m Q s = (case run_state m s of (a, s') \<Rightarrow> Q a s')"

lemma wp_return [wp_simps]: "wp (State_Monad.return a) Q s = Q a s"
  by (simp add: wp_def)

lemma wp_bind [wp_simps]: "wp (State_Monad.bind m f) Q s = wp m (\<lambda>a. wp (f a) Q) s"
  by (simp add: wp_def split: prod.splits)

lemma wp_if [wp_simps]: "wp (if b then m else n) Q s = (if b then wp m Q s else wp n Q s)"
  by simp

lemma wp_case_sum [wp_simps]:
  "wp (case x of Inl e \<Rightarrow> f e | Inr a \<Rightarrow> g a) Q s =
     (case x of Inl e \<Rightarrow> wp (f e) Q s | Inr a \<Rightarrow> wp (g a) Q s)"
  by (simp split: sum.splits)

lemma wp_case_option [wp_simps]:
  "wp (case x of None \<Rightarrow> m | Some a \<Rightarrow> g a) Q s =
     (case x of None \<Rightarrow> wp m Q s | Some a \<Rightarrow> wp (g a) Q s)"
  by (simp split: option.splits)

lemma wp_case_prod [wp_simps]:
  "wp (case x of (a, b) \<Rightarrow> f a b) Q s = (case x of (a, b) \<Rightarrow> wp (f a b) Q s)"
  by (simp split: prod.splits)

lemma wp_Let [wp_simps]: "wp (let x = t in f x) Q s = (let x = t in wp (f x) Q s)"
  by simp

lemma wp_mono: "wp m Q s \<Longrightarrow> (\<And>a s'. Q a s' \<Longrightarrow> R a s') \<Longrightarrow> wp m R s"
  by (auto simp: wp_def split: prod.splits)

lemma wp_conj: "wp m Q s \<Longrightarrow> wp m R s \<Longrightarrow> wp m (\<lambda>a s'. Q a s' \<and> R a s') s"
  by (auto simp: wp_def split: prod.splits)

lemma wp_run: "wp m Q s \<longleftrightarrow> Q (fst (run_state m s)) (snd (run_state m s))"
  by (simp add: wp_def split: prod.splits)

end
