(* ===== verification/Float64.thy ===== *)
theory Float64
  imports Prelude "HOL-Library.Log_Nat"
begin

text \<open>
  The IEEE-754 binary64 arithmetic behind Go's \<^verbatim>\<open>int32(float64(ready) / float64(desired) * 100)\<close>,
  the readiness percentage that both the controller and the gate webhook compute.  A finite
  double is \<open>F64 m e\<close> with the value \<open>m * 2\<^sup>e\<close>; each operation returns the double nearest to the
  exact result, ties to even, with a 53-bit significand.  Exponents are unbounded: quotients and
  products of 32-bit integers stay far from the subnormal range and from overflow.
  The lemmas bound the error of one operation and then of the whole percentage.
\<close>

section \<open>Doubles\<close>

datatype float64 = F64 (mant: int) (expo: int)

text \<open>The nearest integer to \<open>num / den\<close>, ties to even, for \<open>0 < den\<close>.\<close>

definition rne :: "int \<Rightarrow> int \<Rightarrow> int" where
  "rne num den =
     (let q = num div den; r = num mod den in
      if 2 * r < den \<or> (2 * r = den \<and> even q) then q else q + 1)"

text \<open>\<open>num / den / 2\<^sup>e\<close> as a fraction of integers.\<close>

definition scaled :: "int \<Rightarrow> int \<Rightarrow> int \<Rightarrow> int \<times> int" where
  "scaled num den e =
     (if e \<le> 0 then (num * 2 ^ nat (- e), den) else (num, den * 2 ^ nat e))"

text \<open>The binary exponent of \<open>num / den\<close>, for positive arguments.\<close>

definition ilog2q :: "int \<Rightarrow> int \<Rightarrow> int" where
  "ilog2q num den =
     (let k = bitlen num - bitlen den in
      case scaled num den k of (n, d) \<Rightarrow> if d \<le> n then k else k - 1)"

definition fl_pos :: "int \<Rightarrow> int \<Rightarrow> float64" where
  "fl_pos num den =
     (let e = ilog2q num den - 52 in
      case scaled num den e of (n, d) \<Rightarrow> F64 (rne n d) e)"

text \<open>The double nearest to \<open>num / den\<close>.\<close>

definition fl :: "int \<Rightarrow> int \<Rightarrow> float64" where
  "fl num den =
     (if num = 0 then F64 0 0
      else case fl_pos \<bar>num\<bar> \<bar>den\<bar> of F64 m e \<Rightarrow> F64 (sgn num * sgn den * m) e)"

text \<open>The conversion of an \<open>int32\<close> to a double is exact.\<close>

definition float_of_int :: "int \<Rightarrow> float64" where
  "float_of_int n = F64 n 0"

definition fdiv :: "float64 \<Rightarrow> float64 \<Rightarrow> float64" where
  "fdiv x y = (case fl (mant x) (mant y) of F64 m e \<Rightarrow> F64 m (e + expo x - expo y))"

definition fmul :: "float64 \<Rightarrow> float64 \<Rightarrow> float64" where
  "fmul x y = (case fl (mant x * mant y) 1 of F64 m e \<Rightarrow> F64 m (e + expo x + expo y))"

text \<open>Truncation towards zero.\<close>

definition ftrunc :: "float64 \<Rightarrow> int" where
  "ftrunc x =
     (if 0 \<le> expo x then mant x * 2 ^ nat (expo x)
      else sgn (mant x) * (\<bar>mant x\<bar> div 2 ^ nat (- expo x)))"

text \<open>
  \<^verbatim>\<open>int32(f)\<close>.  Go leaves the result implementation-dependent when the truncated value does not
  fit; \<open>oor\<close> is that unspecified part.
\<close>

definition int32_of_float :: "(int \<Rightarrow> int32) \<Rightarrow> float64 \<Rightarrow> int32" where
  "int32_of_float oor x =
     (let z = ftrunc x in
      if - (2 ^ 31) \<le> z \<and> z < 2 ^ 31 then word_of_int z else oor z)"

text \<open>\<^verbatim>\<open>float64(ready) / float64(desired) * 100\<close>, and its conversion to \<open>int32\<close>.\<close>

definition percent_float :: "int \<Rightarrow> int \<Rightarrow> float64" where
  "percent_float r d = fmul (fdiv (float_of_int r) (float_of_int d)) (float_of_int 100)"

definition ready_percent :: "(int \<Rightarrow> int32) \<Rightarrow> int32 \<Rightarrow> int32 \<Rightarrow> int32" where
  "ready_percent oor ready desired = int32_of_float oor (percent_float (sint ready) (sint desired))"

section \<open>The value of a double, and the error of rounding\<close>

definition fval :: "float64 \<Rightarrow> real" where
  "fval x = of_int (mant x) * 2 powi expo x"

lemma rne_error:
  assumes "0 < den"
  shows "2 * \<bar>den * rne num den - num\<bar> \<le> den"
proof -
  define q r where "q = num div den" and "r = num mod den"
  have num: "num = den * q + r" and r: "0 \<le> r" "r < den"
    using assms by (simp_all add: q_def r_def)
  show ?thesis
  proof (cases "2 * r < den \<or> (2 * r = den \<and> even q)")
    case True
    then have "rne num den = q" by (simp add: rne_def q_def r_def Let_def)
    then show ?thesis using True num r by auto
  next
    case False
    then have "rne num den = q + 1" by (auto simp: rne_def q_def r_def Let_def)
    then have "den * rne num den - num = den - r" using num by (simp add: algebra_simps)
    then show ?thesis using False r by auto
  qed
qed

lemma scaled_ratio:
  assumes "0 < num" and "0 < den" and "scaled num den e = (n, d)"
  shows "0 < n" and "0 < d" and "real_of_int n / real_of_int d = num / den * 2 powi (- e)"
  using assms by (auto simp: scaled_def power_int_def field_simps split: if_splits)

lemma abs_diff_scale:
  fixes a b c s :: real
  assumes "\<bar>a - b\<bar> \<le> c" and "0 < s"
  shows "\<bar>a * s - b * s\<bar> \<le> c * s"
proof -
  have "\<bar>a * s - b * s\<bar> = \<bar>a - b\<bar> * s" using assms(2) by (simp add: left_diff_distrib [symmetric] abs_mult)
  then show ?thesis using assms by (simp add: mult_right_mono)
qed

lemma one_le_scale: "1 \<le> x * 2 powi (- k) \<longleftrightarrow> 2 powi k \<le> (x :: real)"
  by (simp add: power_int_minus field_simps)

lemma bitlen_real_bounds:
  assumes "0 < x"
  shows "2 powi (bitlen x - 1) \<le> real_of_int x" and "real_of_int x < 2 powi bitlen x"
proof -
  from bitlen_bounds [OF assms] have b: "2 ^ nat (bitlen x - 1) \<le> x" "x < 2 ^ nat (bitlen x)"
    by auto
  have pos: "1 \<le> bitlen x" using assms bitlen_nonneg [of x] bitlen_eq_zero_iff [of x] by linarith
  from b(1) have "real_of_int (2 ^ nat (bitlen x - 1)) \<le> real_of_int x" by (rule of_int_le_iff [THEN iffD2])
  then show "2 powi (bitlen x - 1) \<le> real_of_int x" using pos by (simp add: power_int_def)
  from b(2) have "real_of_int x < real_of_int (2 ^ nat (bitlen x))" by (rule of_int_less_iff [THEN iffD2])
  then show "real_of_int x < 2 powi bitlen x" using pos by (simp add: power_int_def)
qed

lemma ilog2q_bounds:
  assumes "0 < num" and "0 < den"
  shows "2 powi (ilog2q num den) \<le> real_of_int num / real_of_int den"
    and "real_of_int num / real_of_int den < 2 powi (ilog2q num den + 1)"
proof -
  define k where "k = bitlen num - bitlen den"
  obtain n d where nd: "scaled num den k = (n, d)" by force
  note sr = scaled_ratio [OF assms nd]
  let ?x = "real_of_int num / real_of_int den"
  have ge: "d \<le> n \<longleftrightarrow> 2 powi k \<le> ?x"
  proof -
    have "d \<le> n \<longleftrightarrow> 1 \<le> real_of_int n / real_of_int d" using sr(2) by (simp add: field_simps)
    also have "\<dots> \<longleftrightarrow> 1 \<le> ?x * 2 powi (- k)" using sr(3) by simp
    also have "\<dots> \<longleftrightarrow> 2 powi k \<le> ?x" by (rule one_le_scale)
    finally show ?thesis .
  qed
  note bn = bitlen_real_bounds [OF assms(1)] and bd = bitlen_real_bounds [OF assms(2)]
  have up: "?x < 2 powi (k + 1)"
  proof -
    have "real_of_int num < 2 powi bitlen num" by (rule bn)
    also have "(2 :: real) powi bitlen num = 2 powi (k + 1) * 2 powi (bitlen den - 1)"
      by (simp add: power_int_add [symmetric] k_def)
    also have "\<dots> \<le> 2 powi (k + 1) * real_of_int den" using bd(1) by (intro mult_left_mono) auto
    finally show ?thesis using assms(2) by (simp add: field_simps)
  qed
  have lo: "2 powi (k - 1) \<le> ?x"
  proof -
    have "2 powi (k - 1) * real_of_int den \<le> 2 powi (k - 1) * 2 powi bitlen den"
      using bd(2) by (intro mult_left_mono) auto
    also have "\<dots> = 2 powi (bitlen num - 1)" by (simp add: power_int_add [symmetric] k_def)
    also have "\<dots> \<le> real_of_int num" by (rule bn)
    finally show ?thesis using assms(2) by (simp add: field_simps)
  qed
  have il: "ilog2q num den = (if d \<le> n then k else k - 1)"
    using nd by (simp add: ilog2q_def k_def Let_def)
  show "2 powi (ilog2q num den) \<le> ?x" using ge lo by (auto simp: il)
  show "?x < 2 powi (ilog2q num den + 1)" using ge up by (auto simp: il)
qed

lemma fl_pos_error:
  assumes "0 < num" and "0 < den"
  shows "\<bar>fval (fl_pos num den) - real_of_int num / real_of_int den\<bar>
           \<le> real_of_int num / real_of_int den / 2 ^ 53"
proof -
  define e where "e = ilog2q num den - 52"
  obtain n d where nd: "scaled num den e = (n, d)" by force
  note sr = scaled_ratio [OF assms nd]
  let ?x = "real_of_int num / real_of_int den"
  have x: "?x = real_of_int n / real_of_int d * 2 powi e"
    using sr(3) by (simp add: power_int_minus field_simps)
  have v: "fval (fl_pos num den) = real_of_int (rne n d) * 2 powi e"
    using nd by (simp add: fl_pos_def e_def [symmetric] fval_def Let_def)
  have "real_of_int (2 * \<bar>d * rne n d - n\<bar>) \<le> real_of_int d"
    using rne_error [OF sr(2), of n] by (rule of_int_le_iff [THEN iffD2])
  then have "2 * \<bar>real_of_int d * real_of_int (rne n d) - real_of_int n\<bar> \<le> real_of_int d" by simp
  then have "\<bar>real_of_int d * (real_of_int (rne n d) - real_of_int n / real_of_int d)\<bar> \<le> real_of_int d / 2"
    using sr(2) by (simp add: right_diff_distrib)
  then have "real_of_int d * \<bar>real_of_int (rne n d) - real_of_int n / real_of_int d\<bar> \<le> real_of_int d * (1 / 2)"
    using sr(2) by (simp add: abs_mult)
  then have "\<bar>real_of_int (rne n d) - real_of_int n / real_of_int d\<bar> \<le> 1 / 2"
    using sr(2) by (subst (asm) mult_le_cancel_left_pos) auto
  then have "\<bar>fval (fl_pos num den) - ?x\<bar> \<le> 1 / 2 * 2 powi e"
    unfolding v x by (rule abs_diff_scale) simp
  then have "\<bar>fval (fl_pos num den) - ?x\<bar> \<le> 2 powi e / 2" by simp
  also have "2 powi e / 2 = (2 :: real) powi (ilog2q num den) / 2 ^ 53"
    by (simp add: e_def power_int_diff)
  also have "\<dots> \<le> ?x / 2 ^ 53" using ilog2q_bounds(1) [OF assms] by (intro divide_right_mono) auto
  finally show ?thesis .
qed

lemma rne_nonneg: "0 \<le> num \<Longrightarrow> 0 < den \<Longrightarrow> 0 \<le> rne num den"
  by (simp add: rne_def Let_def pos_imp_zdiv_nonneg_iff)

lemma fl_nonneg: "0 \<le> num \<Longrightarrow> 0 < den \<Longrightarrow> 0 \<le> mant (fl num den)"
  by (auto simp: fl_def fl_pos_def Let_def scaled_def rne_nonneg split: if_splits)

lemma fl_error:
  assumes "0 \<le> num" and "0 < den"
  shows "\<bar>fval (fl num den) - real_of_int num / real_of_int den\<bar>
           \<le> real_of_int num / real_of_int den / 2 ^ 53"
proof (cases "num = 0")
  case True
  then show ?thesis by (simp add: fl_def fval_def)
next
  case False
  with assms have "fl num den = fl_pos num den"
    by (cases "fl_pos num den") (simp add: fl_def)
  then show ?thesis using fl_pos_error [of num den] False assms by simp
qed

lemma fval_fdiv:
  assumes "0 \<le> mant x" and "0 < mant y"
  shows "\<bar>fval (fdiv x y) - fval x / fval y\<bar> \<le> fval x / fval y / 2 ^ 53"
proof -
  obtain m e where f: "fl (mant x) (mant y) = F64 m e" by (cases "fl (mant x) (mant y)")
  let ?s = "2 powi (expo x - expo y) :: real"
  let ?q = "real_of_int (mant x) / real_of_int (mant y)"
  have v: "fval (fdiv x y) = fval (F64 m e) * ?s"
    by (simp add: fdiv_def f fval_def power_int_add [symmetric] add_diff_eq)
  have q: "fval x / fval y = ?q * ?s"
    by (simp add: fval_def power_int_diff)
  have "\<bar>fval (F64 m e) * ?s - ?q * ?s\<bar> \<le> ?q / 2 ^ 53 * ?s"
    using fl_error [OF assms] unfolding f by (rule abs_diff_scale) simp
  then show ?thesis unfolding v q by simp
qed

lemma fval_fmul:
  assumes "0 \<le> mant x" and "0 \<le> mant y"
  shows "\<bar>fval (fmul x y) - fval x * fval y\<bar> \<le> fval x * fval y / 2 ^ 53"
proof -
  obtain m e where f: "fl (mant x * mant y) 1 = F64 m e" by (cases "fl (mant x * mant y) 1")
  let ?s = "2 powi (expo x + expo y) :: real"
  let ?q = "real_of_int (mant x * mant y)"
  have v: "fval (fmul x y) = fval (F64 m e) * ?s"
    by (simp add: fmul_def f fval_def power_int_add [symmetric] add.assoc)
  have q: "fval x * fval y = ?q * ?s"
    by (simp add: fval_def power_int_add)
  have "\<bar>fval (F64 m e) - ?q\<bar> \<le> ?q / 2 ^ 53"
    using fl_error [of "mant x * mant y" 1] assms unfolding f by simp
  then have "\<bar>fval (F64 m e) * ?s - ?q * ?s\<bar> \<le> ?q / 2 ^ 53 * ?s"
    by (rule abs_diff_scale) simp
  then show ?thesis unfolding v q by simp
qed

lemma ftrunc_floor:
  assumes "0 \<le> mant x"
  shows "ftrunc x = \<lfloor>fval x\<rfloor>"
proof (cases "0 \<le> expo x")
  case True
  then have "fval x = real_of_int (mant x * 2 ^ nat (expo x))" by (simp add: fval_def power_int_def)
  then show ?thesis using True by (simp only: floor_of_int) (simp add: ftrunc_def)
next
  case False
  then have "fval x = real_of_int (mant x) / real_of_int (2 ^ nat (- expo x))"
    by (simp add: fval_def power_int_def field_simps)
  then have "\<lfloor>fval x\<rfloor> = mant x div 2 ^ nat (- expo x)"
    by (simp only: floor_divide_of_int_eq)
  then show ?thesis using False assms by (cases "mant x = 0") (auto simp: ftrunc_def)
qed

section \<open>The error of the percentage\<close>

lemma percent_float_nonneg: "0 \<le> r \<Longrightarrow> 0 < d \<Longrightarrow> 0 \<le> mant (percent_float r d)"
proof -
  assume rd: "0 \<le> r" "0 < d"
  then have "0 \<le> mant (fdiv (float_of_int r) (float_of_int d))"
    using fl_nonneg [of r d] by (auto simp: fdiv_def float_of_int_def split: float64.splits)
  then have "0 \<le> mant (fl (mant (fdiv (float_of_int r) (float_of_int d)) * 100) 1)"
    by (intro fl_nonneg) auto
  then show ?thesis
    by (auto simp: percent_float_def fmul_def float_of_int_def split: float64.splits)
qed

lemma percent_float_error:
  assumes "0 \<le> r" and "0 < d"
  defines "x \<equiv> 100 * real_of_int r / real_of_int d"
  shows "\<bar>fval (percent_float r d) - x\<bar> \<le> x / 2 ^ 51"
proof -
  define q where "q = fval (fdiv (float_of_int r) (float_of_int d))"
  have m: "0 \<le> mant (fdiv (float_of_int r) (float_of_int d))"
    using fl_nonneg [of r d] assms by (auto simp: fdiv_def float_of_int_def split: float64.splits)
  have v: "fval (float_of_int n) = real_of_int n" for n by (simp add: fval_def float_of_int_def)
  have "\<bar>q - real_of_int r / real_of_int d\<bar> \<le> real_of_int r / real_of_int d / 2 ^ 53"
    unfolding q_def using fval_fdiv [of "float_of_int r" "float_of_int d"] assms(1,2)
    by (simp add: v) (simp add: float_of_int_def)
  then have q: "\<bar>q * 100 - x\<bar> \<le> x / 2 ^ 53" by (simp add: x_def abs_le_iff)
  have p: "\<bar>fval (percent_float r d) - q * 100\<bar> \<le> q * 100 / 2 ^ 53"
    unfolding percent_float_def q_def
    using fval_fmul [OF m, of "float_of_int 100"] by (simp add: v) (simp add: float_of_int_def)
  have x0: "0 \<le> x" using assms by (simp add: x_def)
  from p q x0 show ?thesis by (simp add: abs_if split: if_splits)
qed

text \<open>
  While no more replicas are ready than desired, the computed percentage never exceeds the exact
  one, is below it by at most one, and is the exact one unless the exact one is a whole number.
\<close>

lemma percent_trunc:
  assumes "0 \<le> r" and "r \<le> d" and "0 < d" and "d < 2 ^ 31"
  defines "n \<equiv> 100 * r div d"
  shows "ftrunc (percent_float r d) \<le> n" and "n - 1 \<le> ftrunc (percent_float r d)"
    and "\<not> d dvd 100 * r \<Longrightarrow> ftrunc (percent_float r d) = n"
proof -
  let ?x = "100 * real_of_int r / real_of_int d" and ?y = "fval (percent_float r d)"
  let ?i = "1 / real_of_int d"
  have tr: "ftrunc (percent_float r d) = \<lfloor>?y\<rfloor>"
    using assms by (intro ftrunc_floor percent_float_nonneg) auto
  have "?x \<le> 100" using assms by (simp add: field_simps)
  then have err: "\<bar>?y - ?x\<bar> \<le> 100 / 2 ^ 51"
    using percent_float_error [of r d] assms(1,3) by simp
  have i: "1 / 2 ^ 31 \<le> ?i" using assms(3,4) by (simp add: field_simps)
  have nd: "n * d \<le> 100 * r" "100 * r + 1 \<le> (n + 1) * d"
    using pos_mod_sign [OF assms(3), of "100 * r"] pos_mod_bound [OF assms(3), of "100 * r"]
      div_mult_mod_eq [of "100 * r" d] unfolding n_def [symmetric] by (simp_all add: distrib_right)
  have lo: "real_of_int n \<le> ?x"
    using nd(1) assms(3) by (simp add: field_simps flip: of_int_mult of_int_le_iff)
  have up: "?x + ?i \<le> real_of_int n + 1"
    using nd(2) assms(3) by (simp add: field_simps flip: of_int_mult of_int_le_iff)
  have eps: "(100 :: real) / 2 ^ 51 < 1 / 2 ^ 31" by simp
  have yup: "?y < real_of_int n + 1" using err i up eps by (simp only: abs_le_iff) linarith
  then show "ftrunc (percent_float r d) \<le> n" by (simp add: tr floor_le_iff)
  have "(100 :: real) / 2 ^ 51 \<le> 1" by simp
  then have "real_of_int n - 1 \<le> ?y" using err lo by (simp only: abs_le_iff) linarith
  then show "n - 1 \<le> ftrunc (percent_float r d)" by (simp add: tr le_floor_iff)
  show "ftrunc (percent_float r d) = n" if "\<not> d dvd 100 * r"
  proof -
    have "n * d \<noteq> 100 * r" using that by (metis dvd_triv_right)
    then have "n * d + 1 \<le> 100 * r" using nd(1) by simp
    then have "real_of_int (n * d + 1) \<le> real_of_int (100 * r)" by (rule of_int_le_iff [THEN iffD2])
    then have "(real_of_int n * real_of_int d + 1) / real_of_int d \<le> ?x"
      using assms(3) by (intro divide_right_mono) simp_all
    then have "real_of_int n + ?i \<le> ?x" using assms(3) by (simp add: add_divide_distrib)
    then have "real_of_int n \<le> ?y" using err i eps by (simp only: abs_le_iff) linarith
    then show ?thesis using yup by (simp add: tr floor_eq_iff)
  qed
qed


text \<open>All desired replicas ready gives at least one hundred percent, exactly.\<close>

lemma fdiv_self: "0 < d \<Longrightarrow> fdiv (float_of_int d) (float_of_int d) = F64 (2 ^ 52) (- 52)"
proof -
  assume d: "0 < d"
  then have "ilog2q d d = 0" by (simp add: ilog2q_def scaled_def)
  moreover have "rne (d * 2 ^ 52) d = 2 ^ 52" using d by (simp add: rne_def)
  ultimately have "fl_pos d d = F64 (2 ^ 52) (- 52)" by (simp add: fl_pos_def scaled_def)
  then show ?thesis using d by (simp add: fdiv_def float_of_int_def fl_def)
qed

lemma percent_full: "0 < d \<Longrightarrow> ftrunc (percent_float d d) = 100"
proof -
  assume d: "0 < d"
  have "ftrunc (fmul (F64 (2 ^ 52) (- 52)) (float_of_int 100)) = 100" by code_simp
  then show ?thesis using fdiv_self [OF d] by (simp add: percent_float_def)
qed

lemma percent_trunc_full:
  assumes "0 < d" and "d < 2 ^ 31" and "d \<le> r"
  shows "100 \<le> ftrunc (percent_float r d)"
proof (cases "r = d")
  case True
  then show ?thesis using percent_full assms by simp
next
  case False
  let ?x = "100 * real_of_int r / real_of_int d" and ?y = "fval (percent_float r d)"
  have "1 / 2 ^ 31 \<le> 1 / real_of_int d" using assms(1,2) by (simp add: field_simps)
  moreover have "100 * real_of_int d + 100 \<le> 100 * real_of_int r"
    using False assms(3) by (simp flip: of_int_mult of_int_le_iff)
  then have "(100 * real_of_int d + 100) / real_of_int d \<le> ?x"
    using assms(1) by (intro divide_right_mono) auto
  then have "100 + 100 * (1 / real_of_int d) \<le> ?x" using assms(1) by (simp add: add_divide_distrib)
  ultimately have x: "100 + 100 / 2 ^ 31 \<le> ?x" by simp
  have "\<bar>?y - ?x\<bar> \<le> ?x / 2 ^ 51" using percent_float_error [of r d] assms by simp
  then have "?x - ?x / 2 ^ 51 \<le> ?y" by (simp only: abs_le_iff) linarith
  moreover have "100 \<le> ?x - ?x / 2 ^ 51" using x by simp
  ultimately have "100 \<le> ?y" by linarith
  then show ?thesis
    using assms by (simp add: ftrunc_floor percent_float_nonneg le_floor_iff)
qed

text \<open>An upper bound that keeps the conversion to \<open>int32\<close> in range.\<close>

lemma percent_trunc_upper:
  assumes "0 \<le> r" and "0 < d"
  shows "ftrunc (percent_float r d) \<le> 100 * r + r"
proof -
  let ?x = "100 * real_of_int r / real_of_int d" and ?y = "fval (percent_float r d)"
  have "1 \<le> real_of_int d" using assms(2) by simp
  then have "100 * real_of_int r / real_of_int d \<le> 100 * real_of_int r"
    using assms by (intro divide_le_eq [THEN iffD2]) (auto simp: mult_left_mono intro: mult_le_cancel_left1 [THEN iffD2])
  moreover have "\<bar>?y - ?x\<bar> \<le> ?x / 2 ^ 51" using percent_float_error [of r d] assms by simp
  ultimately have "?y \<le> real_of_int (100 * r + r)"
    using assms(1) by (simp add: abs_le_iff)
  then show ?thesis
    using assms by (simp add: ftrunc_floor percent_float_nonneg floor_le_iff)
qed

lemma int_div_less:
  assumes "0 < (d :: int)" and "a < c * d"
  shows "a div d < c"
proof (rule ccontr)
  assume "\<not> a div d < c"
  then have "c * d \<le> a div d * d" using assms(1) by (simp add: mult_right_mono)
  also have "\<dots> \<le> a" using pos_mod_sign [OF assms(1), of a] div_mult_mod_eq [of a d] by linarith
  finally show False using assms(2) by simp
qed

lemma ready_percent_eq:
  assumes "0 \<le> sint ready" and "0 < sint desired"
    and "sint ready \<le> sint desired \<or> 101 * sint ready < 2 ^ 31"
  shows "sint (ready_percent oor ready desired) = ftrunc (percent_float (sint ready) (sint desired))"
proof -
  let ?z = "ftrunc (percent_float (sint ready) (sint desired))"
  have "0 \<le> ?z"
    using assms by (simp add: ftrunc_floor percent_float_nonneg fval_def)
  moreover have "?z < 2 ^ 31"
  proof (cases "sint ready \<le> sint desired")
    case True
    then have "100 * sint ready div sint desired \<le> 100 * sint desired div sint desired"
      using assms(2) by (intro zdiv_mono1) auto
    then have "100 * sint ready div sint desired \<le> 100" using assms(2) by (simp split: if_splits)
    then show ?thesis
      using percent_trunc(1) [OF assms(1) True assms(2)] sint_range_32 [of desired] by simp
  next
    case False
    then show ?thesis using percent_trunc_upper [of "sint ready" "sint desired"] assms by linarith
  qed
  ultimately show ?thesis
    by (simp add: ready_percent_def int32_of_float_def sint_word_of_int_32)
qed

section \<open>What the percentage promises\<close>


text \<open>
  C28.  At the default threshold of one hundred percent a dependency passes exactly
  when at least as many replicas are ready as desired: rounding errors cannot decide it either
  way, for every replica count below 21 million.
\<close>

theorem ready_percent_full_iff:
  assumes "0 \<le> sint ready" and "0 < sint desired" and "101 * sint ready < 2 ^ 31"
  shows "(100 :: int32) \<le>s ready_percent oor ready desired \<longleftrightarrow> sint desired \<le> sint ready"
proof -
  have eq: "sint (ready_percent oor ready desired) = ftrunc (percent_float (sint ready) (sint desired))"
    using assms by (intro ready_percent_eq) auto
  show ?thesis
  proof (cases "sint desired \<le> sint ready")
    case True
    then show ?thesis
      using percent_trunc_full [of "sint desired" "sint ready"] assms sint_range_32 [of desired] eq
      by (simp add: word_sle_eq)
  next
    case False
    then have "100 * sint ready < 100 * sint desired" by simp
    then have "100 * sint ready div sint desired < 100"
      using assms(2) by (intro int_div_less) auto
    moreover have "sint (ready_percent oor ready desired) \<le> 100 * sint ready div sint desired"
      using percent_trunc(1) [of "sint ready" "sint desired"] False assms sint_range_32 [of desired] eq
      by simp
    ultimately show ?thesis using False by (simp add: word_sle_eq)
  qed
qed


theorem ready_percent_full_iff_witness:
  "(100 :: int32) \<le>s ready_percent (\<lambda>_. 0) 5 5 \<and> \<not> (100 :: int32) \<le>s ready_percent (\<lambda>_. 0) 4 5"
  using ready_percent_full_iff [of 5 5 "\<lambda>_. 0"] ready_percent_full_iff [of 4 5 "\<lambda>_. 0"] by simp

text \<open>
  The threshold test is stricter than the documented
  \<open>readyReplicas / desiredReplicas * 100 >= minReadyPercent\<close>: 29 ready replicas of 100 are 29
  percent, and the quotient 0.29 times 100 truncates to 28, so a dependency that meets a
  threshold of 29 percent is reported unhealthy.
\<close>

theorem ready_percent_29_of_100: "ready_percent oor 29 100 = 28 \<and> 100 * 29 div 100 = (29 :: int)"
proof
  show "ready_percent oor 29 100 = 28" by code_simp
qed simp

end
