(* ===== verification/API_Types.thy ===== *)
theory API_Types
  imports Prelude
begin

text \<open>
  The data of \<^verbatim>\<open>api/v1alpha1/workloaddependency_types.go\<close>: the specification and the status of a
  \<open>WorkloadDependency\<close>, with one record per struct and one datatype per string enumeration.
  The enumerations carry one constructor more than the source's constants, the zero value \<open>""\<close>
  that a Go string field has before anything is written to it.  The parts of
  \<^verbatim>\<open>metav1.ObjectMeta\<close> and \<^verbatim>\<open>metav1.Condition\<close> the sources read or write are records too.
\<close>

section \<open>Object metadata and conditions (metav1)\<close>

record ObjectMeta =
  meta_Name :: string
  meta_Namespace :: string
  meta_Annotations :: "string \<rightharpoonup> string"
  meta_Finalizers :: "string list"
  meta_DeletionTimestamp :: "gotime option"
  meta_Generation :: int64
  meta_ResourceVersion :: string

datatype ConditionStatus = ConditionTrue | ConditionFalse | ConditionUnknown

record Condition =
  cond_Type :: string
  cond_Status :: ConditionStatus
  cond_Reason :: string
  cond_Message :: string
  cond_LastTransitionTime :: gotime
  cond_ObservedGeneration :: int64

section \<open>The specification\<close>

record WorkloadRef =
  ref_Kind :: string
  ref_Name :: string
  ref_Namespace :: string

record HealthCondition =
  MinReadyPercent :: int32
  Window :: duration
  RecoveryWindow :: duration

record DependsOnEntry =
  dep_Kind :: string
  dep_Name :: string
  dep_Namespace :: string
  dep_Condition :: HealthCondition

datatype DegradedAction = ActionScaleToZero | ActionUnset

record OnDegradedSpec =
  od_Action :: DegradedAction
  MaxSuspendDuration :: duration

datatype EnforcementMode = ModeStrict | ModeSoft | ModeGate | ModeObserve | ModeUnset

datatype DependencyPhase =
    PhaseHealthy
  | PhaseDegraded
  | PhaseSuspended
  | PhaseReleased
  | PhasePaused
  | PhaseObserved
  | PhaseUnknown
  | PhaseUnset

record SecretKeyRef =
  skr_Name :: string
  skr_Key :: string

record NotifySpec =
  Webhook :: string
  WebhookSecretRef :: "SecretKeyRef option"
  OnPhases :: "DependencyPhase list"

record WorkloadDependencySpec =
  Dependent :: WorkloadRef
  DependsOn :: "DependsOnEntry list"
  OnDegraded :: OnDegradedSpec
  Mode :: EnforcementMode
  Notify :: "NotifySpec option"

section \<open>The status\<close>

record WorkloadDependencyStatus =
  Phase :: DependencyPhase
  SavedReplicas :: "int32 option"
  DegradedSince :: "gotime option"
  SuspendedAt :: "gotime option"
  HealthySince :: "gotime option"
  st_Message :: string
  Conditions :: "Condition list"

record WorkloadDependency =
  wd_Meta :: ObjectMeta
  wd_Spec :: WorkloadDependencySpec
  wd_Status :: WorkloadDependencyStatus

section \<open>Constants\<close>

definition AnnotationPaused :: string where
  "AnnotationPaused = ''klink.dev/paused''"

definition FinalizerName :: string where
  "FinalizerName = ''klink.dev/finalizer''"

lemmas wd_consts [api_consts] = AnnotationPaused_def FinalizerName_def

text \<open>The strings behind the phases, as the metrics and the notifications carry them.\<close>

fun phase_string :: "DependencyPhase \<Rightarrow> string" where
  "phase_string PhaseHealthy = ''Healthy''"
| "phase_string PhaseDegraded = ''Degraded''"
| "phase_string PhaseSuspended = ''Suspended''"
| "phase_string PhaseReleased = ''Released''"
| "phase_string PhasePaused = ''Paused''"
| "phase_string PhaseObserved = ''Observed''"
| "phase_string PhaseUnknown = ''Unknown''"
| "phase_string PhaseUnset = ''''"

lemma phase_string_inject [simp]: "phase_string p = phase_string q \<longleftrightarrow> p = q"
  by (cases p; cases q) simp_all

text \<open>\<open>WorkloadDependency\<close> embeds its metadata, so \<^verbatim>\<open>wd.Name\<close> and \<^verbatim>\<open>wd.Namespace\<close> are read directly.\<close>

abbreviation wd_Name :: "WorkloadDependency \<Rightarrow> string" where
  "wd_Name wd \<equiv> meta_Name (wd_Meta wd)"

abbreviation wd_Namespace :: "WorkloadDependency \<Rightarrow> string" where
  "wd_Namespace wd \<equiv> meta_Namespace (wd_Meta wd)"

abbreviation wd_Phase :: "WorkloadDependency \<Rightarrow> DependencyPhase" where
  "wd_Phase wd \<equiv> Phase (wd_Status wd)"

abbreviation wd_key :: "WorkloadDependency \<Rightarrow> NamespacedName" where
  "wd_key wd \<equiv> \<lparr>nn_Namespace = wd_Namespace wd, nn_Name = wd_Name wd\<rparr>"

text \<open>An assignment to a status field of a \<open>WorkloadDependency\<close>.\<close>

definition upd_status ::
  "(WorkloadDependencyStatus \<Rightarrow> WorkloadDependencyStatus) \<Rightarrow> WorkloadDependency \<Rightarrow> WorkloadDependency" where
  "upd_status f wd = wd\<lparr>wd_Status := f (wd_Status wd)\<rparr>"

lemma upd_status_simps [simp]:
  "wd_Meta (upd_status f wd) = wd_Meta wd"
  "wd_Spec (upd_status f wd) = wd_Spec wd"
  "wd_Status (upd_status f wd) = f (wd_Status wd)"
  by (simp_all add: upd_status_def)

lemma upd_status_id [simp]: "upd_status id wd = wd" "upd_status (\<lambda>s. s) wd = wd"
  by (simp_all add: upd_status_def)

lemma upd_status_comp [simp]: "upd_status f (upd_status g wd) = upd_status (\<lambda>s. f (g s)) wd"
  by (simp add: upd_status_def)

text \<open>The namespace of the dependent and of a dependency.\<close>

definition dependentNS :: "WorkloadDependency \<Rightarrow> string" where
  "dependentNS wd = namespace_or (ref_Namespace (Dependent (wd_Spec wd))) (wd_Namespace wd)"

definition dependencyNS :: "WorkloadDependency \<Rightarrow> DependsOnEntry \<Rightarrow> string" where
  "dependencyNS wd dep = namespace_or (dep_Namespace dep) (wd_Namespace wd)"

end
