(* ===== verification/Workload.thy ===== *)
theory Workload
  imports Float64 API_Types
begin

text \<open>
  The workloads klink scales, behind the interface \<^verbatim>\<open>workloadAccessor\<close> of
  \<^verbatim>\<open>internal/controller/workloaddependency_controller.go\<close> and \<^verbatim>\<open>internal/controller/rollout.go\<close>.
  Deployments, stateful sets and cron jobs are typed objects; an Argo Rollout is an unstructured
  object, a JSON tree read and written through apimachinery's helpers.  Those helpers, the
  controller-runtime finalizer helpers and the part of a float-to-integer conversion that Go
  leaves open are not sources of this program: they are the fields of \<open>go_lib\<close>, an argument of
  the definitions that use them.
\<close>

section \<open>JSON values and the library functions\<close>

datatype json =
    JNull
  | JBool bool
  | JInt int64
  | JFloat float64
  | JString string
  | JArray "json list"
  | JObject "(string \<times> json) list"

text \<open>
  \<^verbatim>\<open>NestedInt64\<close> and \<^verbatim>\<open>NestedString\<close> return a value, whether the path was found, and whether there
  was an error; \<^verbatim>\<open>SetNestedField\<close> returns the object after the call (the error is dropped at
  the only call).
\<close>

record go_lib =
  float_to_int32 :: "int \<Rightarrow> int32"
  NestedInt64 :: "json \<Rightarrow> string list \<Rightarrow> int64 \<times> bool \<times> bool"
  NestedString :: "json \<Rightarrow> string list \<Rightarrow> string \<times> bool \<times> bool"
  SetNestedField :: "json \<Rightarrow> json \<Rightarrow> string list \<Rightarrow> json"
  ContainsFinalizer :: "string list \<Rightarrow> string \<Rightarrow> bool"
  AddFinalizer :: "string list \<Rightarrow> string \<Rightarrow> string list"
  RemoveFinalizer :: "string list \<Rightarrow> string \<Rightarrow> string list"

section \<open>The accessors\<close>

record Deployment =
  d_Name :: string
  d_Namespace :: string
  d_Replicas :: "int32 option"
  d_ReadyReplicas :: int32

record StatefulSet =
  s_Name :: string
  s_Namespace :: string
  s_Replicas :: "int32 option"
  s_ReadyReplicas :: int32

record CronJob =
  cj_Name :: string
  cj_Namespace :: string
  cj_Suspend :: "bool option"

record Unstructured =
  u_Name :: string
  u_Namespace :: string
  u_Object :: json

datatype workloadAccessor =
    DeploymentAccessor Deployment
  | StatefulSetAccessor StatefulSet
  | CronJobAccessor CronJob
  | RolloutAccessor Unstructured

text \<open>The promoted methods \<^verbatim>\<open>GetName\<close> and \<^verbatim>\<open>GetNamespace\<close> of the embedded object.\<close>

fun getName :: "workloadAccessor \<Rightarrow> string" where
  "getName (DeploymentAccessor d) = d_Name d"
| "getName (StatefulSetAccessor s) = s_Name s"
| "getName (CronJobAccessor c) = cj_Name c"
| "getName (RolloutAccessor u) = u_Name u"

fun getNamespace :: "workloadAccessor \<Rightarrow> string" where
  "getNamespace (DeploymentAccessor d) = d_Namespace d"
| "getNamespace (StatefulSetAccessor s) = s_Namespace s"
| "getNamespace (CronJobAccessor c) = cj_Namespace c"
| "getNamespace (RolloutAccessor u) = u_Namespace u"

subsection \<open>Deployments and stateful sets\<close>

definition deployment_getReplicas :: "Deployment \<Rightarrow> int32" where
  "deployment_getReplicas a = (case d_Replicas a of None \<Rightarrow> 1 | Some n \<Rightarrow> n)"

definition deployment_setReplicas :: "int32 \<Rightarrow> Deployment \<Rightarrow> Deployment" where
  "deployment_setReplicas n a = a\<lparr>d_Replicas := Some n\<rparr>"

definition deployment_isSuspended :: "Deployment \<Rightarrow> bool" where
  "deployment_isSuspended a = False"

definition deployment_setSuspend :: "bool \<Rightarrow> Deployment \<Rightarrow> Deployment" where
  "deployment_setSuspend v a = a"

definition statefulSet_getReplicas :: "StatefulSet \<Rightarrow> int32" where
  "statefulSet_getReplicas a = (case s_Replicas a of None \<Rightarrow> 1 | Some n \<Rightarrow> n)"

definition statefulSet_setReplicas :: "int32 \<Rightarrow> StatefulSet \<Rightarrow> StatefulSet" where
  "statefulSet_setReplicas n a = a\<lparr>s_Replicas := Some n\<rparr>"

definition statefulSet_isSuspended :: "StatefulSet \<Rightarrow> bool" where
  "statefulSet_isSuspended a = False"

definition statefulSet_setSuspend :: "bool \<Rightarrow> StatefulSet \<Rightarrow> StatefulSet" where
  "statefulSet_setSuspend v a = a"

subsection \<open>Cron jobs\<close>

definition cronJob_getReplicas :: "CronJob \<Rightarrow> int32" where
  "cronJob_getReplicas a = - 1"

definition cronJob_setReplicas :: "int32 \<Rightarrow> CronJob \<Rightarrow> CronJob" where
  "cronJob_setReplicas n a = a"

definition cronJob_isSuspended :: "CronJob \<Rightarrow> bool" where
  "cronJob_isSuspended a = (case cj_Suspend a of None \<Rightarrow> False | Some v \<Rightarrow> v)"

definition cronJob_setSuspend :: "bool \<Rightarrow> CronJob \<Rightarrow> CronJob" where
  "cronJob_setSuspend v a = a\<lparr>cj_Suspend := Some v\<rparr>"

subsection \<open>Argo Rollouts (rollout.go)\<close>

definition rolloutPhaseHealthy :: string where
  "rolloutPhaseHealthy = ''Healthy''"

definition rolloutPhaseDegraded :: string where
  "rolloutPhaseDegraded = ''Degraded''"

definition rolloutPhaseProgressing :: string where
  "rolloutPhaseProgressing = ''Progressing''"

definition rolloutPhasePaused :: string where
  "rolloutPhasePaused = ''Paused''"

lemmas rollout_consts [api_consts] =
  rolloutPhaseHealthy_def rolloutPhaseDegraded_def rolloutPhaseProgressing_def rolloutPhasePaused_def

definition replicas_path :: "string list" where
  "replicas_path = [''spec'', ''replicas'']"

definition rollout_getReplicas :: "('a go_lib_scheme) \<Rightarrow> Unstructured \<Rightarrow> int32" where
  "rollout_getReplicas lib a =
     (case NestedInt64 lib (u_Object a) replicas_path of (r, found, err) \<Rightarrow>
        if err \<or> \<not> found then 1 else ucast r)"

definition rollout_setReplicas :: "('a go_lib_scheme) \<Rightarrow> int32 \<Rightarrow> Unstructured \<Rightarrow> Unstructured" where
  "rollout_setReplicas lib n a =
     a\<lparr>u_Object := SetNestedField lib (u_Object a) (JInt (scast n)) replicas_path\<rparr>"

definition rollout_isSuspended :: "Unstructured \<Rightarrow> bool" where
  "rollout_isSuspended a = False"

definition rollout_setSuspend :: "bool \<Rightarrow> Unstructured \<Rightarrow> Unstructured" where
  "rollout_setSuspend v a = a"

definition rollout_phase :: "('a go_lib_scheme) \<Rightarrow> Unstructured \<Rightarrow> string" where
  "rollout_phase lib a =
     (case NestedString lib (u_Object a) [''status'', ''phase''] of (p, _, _) \<Rightarrow> p)"

definition rollout_isProgressing :: "('a go_lib_scheme) \<Rightarrow> Unstructured \<Rightarrow> bool" where
  "rollout_isProgressing lib a \<longleftrightarrow> rollout_phase lib a = rolloutPhaseProgressing"

definition rollout_isHealthyAsDependency :: "('a go_lib_scheme) \<Rightarrow> Unstructured \<Rightarrow> bool" where
  "rollout_isHealthyAsDependency lib a \<longleftrightarrow>
     rollout_phase lib a \<in> {rolloutPhaseHealthy, rolloutPhaseProgressing, rolloutPhasePaused}"

subsection \<open>Dynamic dispatch\<close>

text \<open>A call through the interface \<^verbatim>\<open>workloadAccessor\<close> runs the method of the accessor's type.\<close>

fun getReplicas :: "('a go_lib_scheme) \<Rightarrow> workloadAccessor \<Rightarrow> int32" where
  "getReplicas lib (DeploymentAccessor d) = deployment_getReplicas d"
| "getReplicas lib (StatefulSetAccessor s) = statefulSet_getReplicas s"
| "getReplicas lib (CronJobAccessor c) = cronJob_getReplicas c"
| "getReplicas lib (RolloutAccessor u) = rollout_getReplicas lib u"

fun setReplicas :: "('a go_lib_scheme) \<Rightarrow> int32 \<Rightarrow> workloadAccessor \<Rightarrow> workloadAccessor" where
  "setReplicas lib n (DeploymentAccessor d) = DeploymentAccessor (deployment_setReplicas n d)"
| "setReplicas lib n (StatefulSetAccessor s) = StatefulSetAccessor (statefulSet_setReplicas n s)"
| "setReplicas lib n (CronJobAccessor c) = CronJobAccessor (cronJob_setReplicas n c)"
| "setReplicas lib n (RolloutAccessor u) = RolloutAccessor (rollout_setReplicas lib n u)"

fun isSuspended :: "workloadAccessor \<Rightarrow> bool" where
  "isSuspended (DeploymentAccessor d) = deployment_isSuspended d"
| "isSuspended (StatefulSetAccessor s) = statefulSet_isSuspended s"
| "isSuspended (CronJobAccessor c) = cronJob_isSuspended c"
| "isSuspended (RolloutAccessor u) = rollout_isSuspended u"

fun setSuspend :: "bool \<Rightarrow> workloadAccessor \<Rightarrow> workloadAccessor" where
  "setSuspend v (DeploymentAccessor d) = DeploymentAccessor (deployment_setSuspend v d)"
| "setSuspend v (StatefulSetAccessor s) = StatefulSetAccessor (statefulSet_setSuspend v s)"
| "setSuspend v (CronJobAccessor c) = CronJobAccessor (cronJob_setSuspend v c)"
| "setSuspend v (RolloutAccessor u) = RolloutAccessor (rollout_setSuspend v u)"

lemmas no_suspend_field [simp] =
  deployment_isSuspended_def statefulSet_isSuspended_def rollout_isSuspended_def
  deployment_setSuspend_def statefulSet_setSuspend_def rollout_setSuspend_def

text \<open>The test \<^verbatim>\<open>dependent.(*rolloutAccessor)\<close> followed by \<^verbatim>\<open>isProgressing\<close>, as the controller uses it.\<close>

fun is_progressing_rollout :: "('a go_lib_scheme) \<Rightarrow> workloadAccessor \<Rightarrow> bool" where
  "is_progressing_rollout lib (RolloutAccessor u) = rollout_isProgressing lib u"
| "is_progressing_rollout lib _ = False"

section \<open>The contract of the interface\<close>

text \<open>
  What the controller relies on when it saves a replica count, writes zero and later writes the
  saved count back: a write is what the next read returns.  \<open>writable\<close> is the precondition
  under which an accessor keeps that promise.
\<close>

locale scalable =
  fixes get :: "'w \<Rightarrow> int32"
    and set :: "int32 \<Rightarrow> 'w \<Rightarrow> 'w"
    and writable :: "'w \<Rightarrow> bool"
  assumes get_set: "writable w \<Longrightarrow> get (set n w) = n"
    and writable_set: "writable w \<Longrightarrow> writable (set n w)"
begin

lemma scale_to_zero: "writable w \<Longrightarrow> get (set 0 w) = 0"
  by (rule get_set)

lemma scale_round_trip: "writable w \<Longrightarrow> get (set (get w) (set 0 w)) = get w"
  by (simp add: get_set writable_set)

lemma last_write_wins: "writable w \<Longrightarrow> get (set n (set m w)) = n"
  by (simp add: get_set writable_set)

end

locale suspendable =
  fixes suspended :: "'w \<Rightarrow> bool"
    and set_suspended :: "bool \<Rightarrow> 'w \<Rightarrow> 'w"
  assumes suspended_set: "suspended (set_suspended v w) = v"
begin

lemma suspend_round_trip: "\<not> suspended (set_suspended False (set_suspended True w))"
  by (simp add: suspended_set)

end

interpretation dep_acc: scalable deployment_getReplicas deployment_setReplicas "\<lambda>_. True"
  by unfold_locales (simp_all add: deployment_getReplicas_def deployment_setReplicas_def)

interpretation sts_acc: scalable statefulSet_getReplicas statefulSet_setReplicas "\<lambda>_. True"
  by unfold_locales (simp_all add: statefulSet_getReplicas_def statefulSet_setReplicas_def)

interpretation cj_acc: suspendable cronJob_isSuspended cronJob_setSuspend
  by unfold_locales (simp add: cronJob_isSuspended_def cronJob_setSuspend_def)

text \<open>
  An unstructured object is writable when the library's \<open>SetNestedField\<close> works on it at
  \<open>spec.replicas\<close>, after any number of earlier writes: the documented behaviour for an object
  whose \<open>spec\<close> is absent or a map.
\<close>

definition rollout_writable :: "('a go_lib_scheme) \<Rightarrow> Unstructured \<Rightarrow> bool" where
  "rollout_writable lib u \<longleftrightarrow>
     (\<forall>ns n. NestedInt64 lib
        (u_Object (rollout_setReplicas lib n (fold (rollout_setReplicas lib) ns u))) replicas_path
        = (scast n, True, False))"

lemma ucast_scast_int32 [simp]: "ucast (scast (n :: int32) :: int64) = n"
proof (rule bit_word_eqI)
  fix k
  assume "k < LENGTH(32)"
  then show "bit (ucast (scast n :: int64) :: int32) k = bit n k"
    by (cases "k = 31") (auto simp: bit_simps min_def)
qed

interpretation ro_acc: scalable "rollout_getReplicas lib" "rollout_setReplicas lib" "rollout_writable lib" for lib
proof unfold_locales
  fix w n
  assume w: "rollout_writable lib w"
  then have "NestedInt64 lib (u_Object (rollout_setReplicas lib n w)) replicas_path = (scast n, True, False)"
    unfolding rollout_writable_def by (metis fold_simps(1))
  then show "rollout_getReplicas lib (rollout_setReplicas lib n w) = n"
    by (simp add: rollout_getReplicas_def)
  from w show "rollout_writable lib (rollout_setReplicas lib n w)"
    unfolding rollout_writable_def by (metis fold_simps(2))
qed

text \<open>The accessors together: everything but a cron job is scalable through the interface.\<close>

fun writable :: "('a go_lib_scheme) \<Rightarrow> workloadAccessor \<Rightarrow> bool" where
  "writable lib (CronJobAccessor c) = False"
| "writable lib (RolloutAccessor u) = rollout_writable lib u"
| "writable lib _ = True"

interpretation acc: scalable "getReplicas lib" "setReplicas lib" "writable lib" for lib
proof unfold_locales
  fix w n
  assume "writable lib w"
  then show "getReplicas lib (setReplicas lib n w) = n"
    by (cases w) (simp_all add: dep_acc.get_set sts_acc.get_set ro_acc.get_set)
  from \<open>writable lib w\<close> show "writable lib (setReplicas lib n w)"
    by (cases w) (simp_all add: ro_acc.writable_set)
qed

lemma accessor_frame [simp]:
  "getName (setReplicas lib n w) = getName w"
  "getName (setSuspend v w) = getName w"
  "getNamespace (setReplicas lib n w) = getNamespace w"
  "getNamespace (setSuspend v w) = getNamespace w"
  by (cases w; simp add: deployment_setReplicas_def statefulSet_setReplicas_def
      cronJob_setReplicas_def cronJob_setSuspend_def rollout_setReplicas_def)+

end
