(* ===== verification/Kube.thy ===== *)
theory Kube
  imports Workload
begin

text \<open>
  The boundary of the program.  Everything the sources call and do not define (the Kubernetes
  client, the clock, the HTTP client) is a field of the record \<open>'e kube\<close>, over an opaque
  environment \<open>'e\<close>: the API server, the other actors of the cluster and the passing of time.
  Every call, also a read, may change the environment, so nothing is assumed to stand still
  between two calls.  A computation runs on a \<open>'e world\<close>: that environment, the Prometheus
  metrics of the process, and the sequence of externally visible actions the program has taken.
\<close>

section \<open>Results of API calls\<close>

datatype api_error = NotFound | Conflict | OtherError string

text \<open>\<^verbatim>\<open>client.IgnoreNotFound\<close>.\<close>

fun IgnoreNotFound :: "api_error \<Rightarrow> api_error option" where
  "IgnoreNotFound NotFound = None"
| "IgnoreNotFound e = Some e"

text \<open>The options of a list call that the sources use.\<close>

datatype list_option = InNamespace string | MatchingFields string string

text \<open>\<^verbatim>\<open>ctrl.Result\<close>, and the pair a reconciler returns.\<close>

record Result =
  Requeue :: bool
  RequeueAfter :: duration

definition emptyResult :: Result where
  "emptyResult = \<lparr>Requeue = False, RequeueAfter = 0\<rparr>"

definition requeueAfter :: "duration \<Rightarrow> Result" where
  "requeueAfter d = \<lparr>Requeue = False, RequeueAfter = d\<rparr>"

definition requeueNow :: Result where
  "requeueNow = \<lparr>Requeue = True, RequeueAfter = 0\<rparr>"

lemmas result_defs = emptyResult_def requeueAfter_def requeueNow_def

type_synonym reconcile_result = "Result \<times> api_error option"

section \<open>Visible actions\<close>

datatype EventType = EventTypeNormal | EventTypeWarning

text \<open>An argument of a formatted event.\<close>

datatype fmt_arg = FStr string | FInt int | FDur duration

text \<open>The JSON body of a notification (\<^verbatim>\<open>notify.go\<close>).\<close>

record notifyPayload =
  np_WorkloadDependency :: string
  np_Namespace :: string
  np_Phase :: string
  np_PreviousPhase :: string
  np_Message :: string
  np_Dependent :: string
  np_DependentKind :: string
  np_Timestamp :: string

text \<open>
  The parts of a \<^verbatim>\<open>corev1.Secret\<close> and of a \<^verbatim>\<open>ValidatingWebhookConfiguration\<close> the sources touch; byte
  slices are strings, a nil slice the empty one.
\<close>

record Secret =
  sec_Name :: string
  sec_Namespace :: string
  sec_Type :: string
  sec_Data :: "(string \<times> string) list"

record WebhookConfiguration =
  whc_Name :: string
  whc_CABundles :: "string list"

text \<open>
  Writes carry the object sent and the error the server answered with, if any; \<open>PatchWorkload\<close>
  carries the object the merge patch is computed from and the modified one.
\<close>

datatype effect =
    Eventf EventType string string "fmt_arg list"
  | UpdateWD WorkloadDependency "api_error option"
  | UpdateStatusWD WorkloadDependency "api_error option"
  | PatchWorkload workloadAccessor workloadAccessor "api_error option"
  | SpawnNotification string notifyPayload
  | PostNotification string string "int option"
  | Backoff duration
  | CreateSecret Secret "api_error option"
  | UpdateSecret Secret "api_error option"
  | PatchWebhookConfiguration WebhookConfiguration WebhookConfiguration "api_error option"

section \<open>Metrics\<close>

text \<open>
  A metric vector maps label values to a value; a series that was never touched is absent.
\<close>

record metrics =
  dependencyPhase :: "(string \<times> string \<times> string) \<rightharpoonup> int"
  scaleToZeroTotal :: "(string \<times> string \<times> string) \<rightharpoonup> nat"
  replicasRestoredTotal :: "(string \<times> string \<times> string) \<rightharpoonup> nat"
  reconcileErrorsTotal :: "(string \<times> string) \<rightharpoonup> nat"
  suspendedWorkloads :: "(string \<times> string) \<rightharpoonup> int"

section \<open>The outside and the world\<close>

record 'e kube = go_lib +
  k_Now :: "'e \<Rightarrow> gotime \<times> 'e"
  k_GetWD :: "NamespacedName \<Rightarrow> 'e \<Rightarrow> (api_error + WorkloadDependency) \<times> 'e"
  k_ListWD :: "list_option \<Rightarrow> 'e \<Rightarrow> (api_error + WorkloadDependency list) \<times> 'e"
  k_UpdateWD :: "WorkloadDependency \<Rightarrow> 'e \<Rightarrow> (api_error + WorkloadDependency) \<times> 'e"
  k_UpdateStatusWD :: "WorkloadDependency \<Rightarrow> 'e \<Rightarrow> (api_error + WorkloadDependency) \<times> 'e"
  k_GetDeployment :: "NamespacedName \<Rightarrow> 'e \<Rightarrow> (api_error + Deployment) \<times> 'e"
  k_GetStatefulSet :: "NamespacedName \<Rightarrow> 'e \<Rightarrow> (api_error + StatefulSet) \<times> 'e"
  k_GetCronJob :: "NamespacedName \<Rightarrow> 'e \<Rightarrow> (api_error + CronJob) \<times> 'e"
  k_GetRollout :: "NamespacedName \<Rightarrow> 'e \<Rightarrow> (api_error + Unstructured) \<times> 'e"
  k_Patch :: "workloadAccessor \<Rightarrow> workloadAccessor \<Rightarrow> 'e \<Rightarrow> (api_error + workloadAccessor) \<times> 'e"
  k_GetSecret :: "NamespacedName \<Rightarrow> 'e \<Rightarrow> (api_error + (string \<rightharpoonup> string)) \<times> 'e"
  k_Marshal :: "notifyPayload \<Rightarrow> string option"
  k_NewRequest :: "string \<Rightarrow> bool"
  k_Do :: "string \<Rightarrow> string \<Rightarrow> 'e \<Rightarrow> int option \<times> 'e"
  k_DoneWithin :: "duration \<Rightarrow> 'e \<Rightarrow> bool \<times> 'e"

record 'e world =
  env :: 'e
  trace :: "effect list"
  metrics_of :: metrics

type_synonym ('e, 'a) go = "('e world, 'a) state"

section \<open>Primitive computations\<close>

definition outside :: "('e \<Rightarrow> 'a \<times> 'e) \<Rightarrow> ('e, 'a) go" where
  "outside f = State (\<lambda>s. case f (env s) of (a, e) \<Rightarrow> (a, s\<lparr>env := e\<rparr>))"

definition emit :: "effect \<Rightarrow> ('e, unit) go" where
  "emit x = State (\<lambda>s. ((), s\<lparr>trace := trace s @ [x]\<rparr>))"

definition update_metrics :: "(metrics \<Rightarrow> metrics) \<Rightarrow> ('e, unit) go" where
  "update_metrics f = State (\<lambda>s. ((), s\<lparr>metrics_of := f (metrics_of s)\<rparr>))"

fun err_of :: "'x + 'a \<Rightarrow> 'x option" where
  "err_of (Inl x) = Some x"
| "err_of (Inr a) = None"

definition metav1_Now :: "'e kube \<Rightarrow> ('e, gotime) go" where
  "metav1_Now k = outside (k_Now k)"

definition time_Since :: "'e kube \<Rightarrow> gotime \<Rightarrow> ('e, duration) go" where
  "time_Since k t = do { now \<leftarrow> metav1_Now k; return (sub_time now t) }"

definition r_Update :: "'e kube \<Rightarrow> WorkloadDependency \<Rightarrow> ('e, api_error + WorkloadDependency) go" where
  "r_Update k wd = do {
     res \<leftarrow> outside (k_UpdateWD k wd);
     emit (UpdateWD wd (err_of res));
     return res }"

definition r_StatusUpdate :: "'e kube \<Rightarrow> WorkloadDependency \<Rightarrow> ('e, api_error + WorkloadDependency) go" where
  "r_StatusUpdate k wd = do {
     res \<leftarrow> outside (k_UpdateStatusWD k wd);
     emit (UpdateStatusWD wd (err_of res));
     return res }"

definition r_Patch ::
  "'e kube \<Rightarrow> workloadAccessor \<Rightarrow> workloadAccessor \<Rightarrow> ('e, api_error + workloadAccessor) go" where
  "r_Patch k base obj = do {
     res \<leftarrow> outside (k_Patch k base obj);
     emit (PatchWorkload base obj (err_of res));
     return res }"

lemma wp_outside [wp_simps]:
  "wp (outside f) Q s = (case f (env s) of (a, e) \<Rightarrow> Q a (s\<lparr>env := e\<rparr>))"
  by (simp add: wp_def outside_def split: prod.splits)

lemma wp_emit [wp_simps]: "wp (emit x) Q s = Q () (s\<lparr>trace := trace s @ [x]\<rparr>)"
  by (simp add: wp_def emit_def)

lemma wp_update_metrics [wp_simps]:
  "wp (update_metrics f) Q s = Q () (s\<lparr>metrics_of := f (metrics_of s)\<rparr>)"
  by (simp add: wp_def update_metrics_def)

text \<open>The same primitives as equations on runs.\<close>

named_theorems run_simps \<open>running the primitives\<close>

lemma run_outside [run_simps]:
  "run_state (outside f) s = (case f (env s) of (a, e) \<Rightarrow> (a, s\<lparr>env := e\<rparr>))"
  by (simp add: outside_def)

lemma run_emit [run_simps]: "run_state (emit x) s = ((), s\<lparr>trace := trace s @ [x]\<rparr>)"
  by (simp add: emit_def)

lemma run_update_metrics [run_simps]:
  "run_state (update_metrics f) s = ((), s\<lparr>metrics_of := f (metrics_of s)\<rparr>)"
  by (simp add: update_metrics_def)

lemma run_r_Patch [run_simps]:
  "run_state (r_Patch k b w) s =
     (case k_Patch k b w (env s) of (r, e) \<Rightarrow>
        (r, s\<lparr>env := e, trace := trace s @ [PatchWorkload b w (err_of r)]\<rparr>))"
  by (simp add: r_Patch_def run_simps split: prod.splits)

lemma run_r_Update [run_simps]:
  "run_state (r_Update k wd) s =
     (case k_UpdateWD k wd (env s) of (r, e) \<Rightarrow>
        (r, s\<lparr>env := e, trace := trace s @ [UpdateWD wd (err_of r)]\<rparr>))"
  by (simp add: r_Update_def run_simps split: prod.splits)

lemma run_metav1_Now [run_simps]:
  "run_state (metav1_Now k) s = (case k_Now k (env s) of (t, e) \<Rightarrow> (t, s\<lparr>env := e\<rparr>))"
  by (simp add: metav1_Now_def run_simps)

lemma run_time_Since [run_simps]:
  "run_state (time_Since k u) s = (case k_Now k (env s) of (t, e) \<Rightarrow> (sub_time t u, s\<lparr>env := e\<rparr>))"
  by (simp add: time_Since_def run_simps split: prod.splits)

section \<open>Traces\<close>

text \<open>
  \<open>emits P m\<close>: whatever the outside does, \<open>m\<close> only appends to the trace, and every action it
  appends satisfies \<open>P\<close>.
\<close>

definition emits :: "(effect \<Rightarrow> bool) \<Rightarrow> ('e, 'a) go \<Rightarrow> bool" where
  "emits P m \<longleftrightarrow>
     (\<forall>s. \<exists>xs. trace (snd (run_state m s)) = trace s @ xs \<and> list_all P xs)"

named_theorems emits_intros \<open>which actions a computation can take\<close>

lemma emits_return [emits_intros]: "emits P (State_Monad.return a)"
  by (simp add: emits_def)

lemma emits_bind [emits_intros]:
  assumes "emits P m" and "\<And>a. emits P (f a)"
  shows "emits P (State_Monad.bind m f)"
  unfolding emits_def
proof
  fix s
  obtain a s' where m: "run_state m s = (a, s')" by force
  with assms(1) obtain xs where xs: "trace s' = trace s @ xs" "list_all P xs"
    unfolding emits_def by (metis snd_conv)
  from assms(2) [of a] obtain ys where "trace (snd (run_state (f a) s')) = trace s' @ ys" "list_all P ys"
    unfolding emits_def by metis
  with m xs show "\<exists>xs. trace (snd (run_state (State_Monad.bind m f) s)) = trace s @ xs \<and> list_all P xs"
    by (intro exI [of _ "xs @ ys"]) simp
qed

lemma emits_if [emits_intros]: "(b \<Longrightarrow> emits P m) \<Longrightarrow> (\<not> b \<Longrightarrow> emits P n) \<Longrightarrow> emits P (if b then m else n)"
  by simp

lemma emits_case_sum [emits_intros]:
  "(\<And>e. x = Inl e \<Longrightarrow> emits P (f e)) \<Longrightarrow> (\<And>a. x = Inr a \<Longrightarrow> emits P (g a)) \<Longrightarrow>
   emits P (case x of Inl e \<Rightarrow> f e | Inr a \<Rightarrow> g a)"
  by (cases x) simp_all

lemma emits_case_option [emits_intros]:
  "(x = None \<Longrightarrow> emits P m) \<Longrightarrow> (\<And>a. x = Some a \<Longrightarrow> emits P (g a)) \<Longrightarrow>
   emits P (case x of None \<Rightarrow> m | Some a \<Rightarrow> g a)"
  by (cases x) simp_all

lemma emits_case_prod [emits_intros]:
  "(\<And>a b. x = (a, b) \<Longrightarrow> emits P (f a b)) \<Longrightarrow> emits P (case x of (a, b) \<Rightarrow> f a b)"
  by (cases x) simp

lemma emits_Let [emits_intros]: "emits P (f t) \<Longrightarrow> emits P (let x = t in f x)"
  by simp

lemma emits_outside [emits_intros]: "emits P (outside f)"
  by (simp add: emits_def outside_def split: prod.splits)

lemma emits_emit [emits_intros]: "P x \<Longrightarrow> emits P (emit x)"
  by (simp add: emits_def emit_def)

lemma emits_update_metrics [emits_intros]: "emits P (update_metrics f)"
  by (simp add: emits_def update_metrics_def)

lemma emits_mono: "emits P m \<Longrightarrow> (\<And>x. P x \<Longrightarrow> Q x) \<Longrightarrow> emits Q m"
  unfolding emits_def by (meson list.pred_mono_strong)

lemma emits_time_Since [emits_intros]: "emits P (time_Since k t)"
  unfolding time_Since_def metav1_Now_def by (intro emits_intros)

lemma emits_metav1_Now [emits_intros]: "emits P (metav1_Now k)"
  unfolding metav1_Now_def by (intro emits_intros)

lemma emits_r_Update [emits_intros]: "(\<And>r. P (UpdateWD wd r)) \<Longrightarrow> emits P (r_Update k wd)"
  unfolding r_Update_def by (intro emits_intros)

lemma emits_r_StatusUpdate [emits_intros]:
  "(\<And>r. P (UpdateStatusWD wd r)) \<Longrightarrow> emits P (r_StatusUpdate k wd)"
  unfolding r_StatusUpdate_def by (intro emits_intros)

lemma emits_r_Patch [emits_intros]: "(\<And>r. P (PatchWorkload b w r)) \<Longrightarrow> emits P (r_Patch k b w)"
  unfolding r_Patch_def by (intro emits_intros)

text \<open>\<open>yields m Q\<close>: whatever the outside does, the result of \<open>m\<close> satisfies \<open>Q\<close>.\<close>

definition yields :: "('s, 'a) state \<Rightarrow> ('a \<Rightarrow> bool) \<Rightarrow> bool" where
  "yields m Q \<longleftrightarrow> (\<forall>s. Q (fst (run_state m s)))"

lemma yields_return: "Q a \<Longrightarrow> yields (State_Monad.return a) Q"
  by (simp add: yields_def)

lemma yields_bind:
  "yields m R \<Longrightarrow> (\<And>a. R a \<Longrightarrow> yields (f a) Q) \<Longrightarrow> yields (State_Monad.bind m f) Q"
  by (simp add: yields_def split: prod.splits) (metis fst_conv)

lemma yields_any: "yields m (\<lambda>_. True)"
  by (simp add: yields_def)

lemma yields_mono: "yields m R \<Longrightarrow> (\<And>a. R a \<Longrightarrow> Q a) \<Longrightarrow> yields m Q"
  by (auto simp: yields_def)

lemma yields_read:
  assumes "\<And>e. R (fst (f e))" and "\<And>a. R a \<Longrightarrow> yields (g a) Q"
  shows "yields (State_Monad.bind (outside f) g) Q"
proof (rule yields_bind [of _ R])
  show "yields (outside f) R"
    using assms(1) by (simp add: yields_def outside_def split: prod.splits) (metis fst_conv)
qed (rule assms(2))

lemma emits_bind_yields:
  assumes "emits P m" and "yields m R" and "\<And>a. R a \<Longrightarrow> emits P (f a)"
  shows "emits P (State_Monad.bind m f)"
  unfolding emits_def
proof
  fix s
  obtain a s' where m: "run_state m s = (a, s')" by force
  with assms(1) obtain xs where xs: "trace s' = trace s @ xs" "list_all P xs"
    unfolding emits_def by (metis snd_conv)
  from assms(2) m have "R a" unfolding yields_def by (metis fst_conv)
  then obtain ys where "trace (snd (run_state (f a) s')) = trace s' @ ys" "list_all P ys"
    using assms(3) unfolding emits_def by metis
  with m xs show "\<exists>xs. trace (snd (run_state (State_Monad.bind m f) s)) = trace s @ xs \<and> list_all P xs"
    by (intro exI [of _ "xs @ ys"]) simp
qed

text \<open>The actions a run adds to the trace.\<close>

definition new_effects :: "('e, 'a) go \<Rightarrow> 'e world \<Rightarrow> effect list" where
  "new_effects m s = drop (length (trace s)) (trace (snd (run_state m s)))"

lemma emits_new_effects: "emits P m \<Longrightarrow> list_all P (new_effects m s)"
  unfolding emits_def new_effects_def by (metis append_eq_conv_conj)

text \<open>The workload patches in a trace: the object before and after.\<close>

fun patch_of :: "effect \<Rightarrow> (workloadAccessor \<times> workloadAccessor) list" where
  "patch_of (PatchWorkload b w r) = [(b, w)]"
| "patch_of _ = []"

definition patches :: "effect list \<Rightarrow> (workloadAccessor \<times> workloadAccessor) list" where
  "patches xs = concat (map patch_of xs)"

lemma patches_simps [simp]:
  "patches [] = []"
  "patches (x # xs) = patch_of x @ patches xs"
  "patches (xs @ ys) = patches xs @ patches ys"
  by (simp_all add: patches_def)

text \<open>A computation that takes no action leaves the trace as it is.\<close>

lemma silent_trace: "emits (\<lambda>_. False) m \<Longrightarrow> run_state m s = (a, s') \<Longrightarrow> trace s' = trace s"
  unfolding emits_def by (metis append_Nil2 list.pred_inject(2) neq_Nil_conv snd_conv)

text \<open>The status writes in a trace.\<close>

fun status_of :: "effect \<Rightarrow> WorkloadDependency list" where
  "status_of (UpdateStatusWD wd r) = [wd]"
| "status_of _ = []"

definition status_writes :: "effect list \<Rightarrow> WorkloadDependency list" where
  "status_writes xs = concat (map status_of xs)"

lemma status_writes_simps [simp]:
  "status_writes [] = []"
  "status_writes (x # xs) = status_of x @ status_writes xs"
  "status_writes (xs @ ys) = status_writes xs @ status_writes ys"
  by (simp_all add: status_writes_def)

section \<open>Reads that disturb nothing\<close>

text \<open>
  A moment of the environment in which reads have no effect on what later reads return: nobody
  else writes while the program looks.
\<close>

definition quiet :: "'e kube \<Rightarrow> 'e \<Rightarrow> bool" where
  "quiet k e \<longleftrightarrow>
     (\<forall>nn. snd (k_GetDeployment k nn e) = e \<and> snd (k_GetStatefulSet k nn e) = e \<and>
           snd (k_GetCronJob k nn e) = e \<and> snd (k_GetRollout k nn e) = e) \<and>
     (\<forall>opt. snd (k_ListWD k opt e) = e)"

lemma world_env_same [simp]: "s\<lparr>env := env s\<rparr> = s"
  by simp

lemma run_quiet_read:
  "snd (f (env s)) = env s \<Longrightarrow> run_state (outside f) s = (fst (f (env s)), s)"
  by (cases "f (env s)") (auto simp: run_outside)

lemma run_quiet_reads:
  assumes "quiet k (env s)"
  shows "run_state (outside (k_GetDeployment k nn)) s = (fst (k_GetDeployment k nn (env s)), s)"
    and "run_state (outside (k_GetStatefulSet k nn)) s = (fst (k_GetStatefulSet k nn (env s)), s)"
    and "run_state (outside (k_GetCronJob k nn)) s = (fst (k_GetCronJob k nn (env s)), s)"
    and "run_state (outside (k_GetRollout k nn)) s = (fst (k_GetRollout k nn (env s)), s)"
    and "run_state (outside (k_ListWD k opt)) s = (fst (k_ListWD k opt (env s)), s)"
  using assms by (auto simp: quiet_def intro!: run_quiet_read)

end
