(* ===== verification/Index.thy ===== *)
theory Index
  imports Kube
begin

text \<open>
  The two field indexes \<^verbatim>\<open>SetupWithManager\<close> registers on \<open>WorkloadDependency\<close>
  (\<^verbatim>\<open>internal/controller/workloaddependency_controller.go\<close>), and what a list call that matches a
  field returns: the objects whose index values contain the key.
\<close>

definition indexDependentName :: string where
  "indexDependentName = ''.spec.dependent.namespacedName''"

definition indexDependsOnName :: string where
  "indexDependsOnName = ''.spec.dependsOn.namespacedNames''"

lemmas index_consts [api_consts] = indexDependentName_def indexDependsOnName_def

definition index_key :: "string \<Rightarrow> string \<Rightarrow> string" where
  "index_key ns name = ns @ ''/'' @ name"

definition dependent_index :: "WorkloadDependency \<Rightarrow> string list" where
  "dependent_index wd = [index_key (dependentNS wd) (ref_Name (Dependent (wd_Spec wd)))]"

definition dependsOn_index :: "WorkloadDependency \<Rightarrow> string list" where
  "dependsOn_index wd = map (\<lambda>dep. index_key (dependencyNS wd dep) (dep_Name dep)) (DependsOn (wd_Spec wd))"

text \<open>The extractor registered under a field name.\<close>

definition index_values :: "string \<Rightarrow> WorkloadDependency \<Rightarrow> string list" where
  "index_values field wd =
     (if field = indexDependentName then dependent_index wd
      else if field = indexDependsOnName then dependsOn_index wd
      else [])"

fun list_matches :: "list_option \<Rightarrow> WorkloadDependency \<Rightarrow> bool" where
  "list_matches (InNamespace ns) wd = (wd_Namespace wd = ns)"
| "list_matches (MatchingFields field key) wd = (key \<in> set (index_values field wd))"

lemma indexes_differ [simp]: "indexDependsOnName \<noteq> indexDependentName"
  by (simp add: api_consts)

text \<open>
  A key joins a namespace and a name with a slash, which neither contains, so distinct
  references have distinct keys.
\<close>

lemma index_key_inject:
  assumes "CHR ''/'' \<notin> set ns" and "CHR ''/'' \<notin> set ns'" and "index_key ns name = index_key ns' name'"
  shows "ns = ns' \<and> name = name'"
  using assms
proof (induction ns arbitrary: ns')
  case Nil
  then show ?case by (cases ns') (auto simp: index_key_def)
next
  case (Cons c ns)
  then show ?case by (cases ns') (auto simp: index_key_def)
qed

end
