(* ===== verification/Memory_Cluster.thy ===== *)
theory Memory_Cluster
  imports Index
begin

text \<open>
  An in-memory cluster: one concrete instance of the interface \<open>'e kube\<close>, on which hypotheses
  about the outside can be discharged and the model evaluated.  It stores objects in lists, never
  fails a call for a reason other than a missing object, and its clock stands still during a
  reconciliation.  It models no source of the program.
\<close>

record cluster =
  cl_now :: gotime
  cl_wds :: "WorkloadDependency list"
  cl_workloads :: "workloadAccessor list"
  cl_secrets :: "(NamespacedName \<times> (string \<rightharpoonup> string)) list"

fun json_get :: "json \<Rightarrow> string list \<Rightarrow> json option" where
  "json_get j [] = Some j"
| "json_get (JObject fs) (p # ps) = (case map_of fs p of None \<Rightarrow> None | Some j \<Rightarrow> json_get j ps)"
| "json_get _ (p # ps) = None"

fun alist_put :: "'k \<Rightarrow> 'v \<Rightarrow> ('k \<times> 'v) list \<Rightarrow> ('k \<times> 'v) list" where
  "alist_put k v [] = [(k, v)]"
| "alist_put k v ((k', v') # xs) = (if k = k' then (k, v) # xs else (k', v') # alist_put k v xs)"

fun json_set :: "json \<Rightarrow> json \<Rightarrow> string list \<Rightarrow> json" where
  "json_set j v [] = v"
| "json_set (JObject fs) v (p # ps) =
     JObject (alist_put p
       (json_set (case map_of fs p of None \<Rightarrow> JObject [] | Some j \<Rightarrow> j) v ps) fs)"
| "json_set j v (p # ps) = j"

definition mem_NestedInt64 :: "json \<Rightarrow> string list \<Rightarrow> int64 \<times> bool \<times> bool" where
  "mem_NestedInt64 j p =
     (case json_get j p of None \<Rightarrow> (0, False, False)
      | Some v \<Rightarrow> (case v of JInt n \<Rightarrow> (n, True, False) | _ \<Rightarrow> (0, False, True)))"

definition mem_NestedString :: "json \<Rightarrow> string list \<Rightarrow> string \<times> bool \<times> bool" where
  "mem_NestedString j p =
     (case json_get j p of None \<Rightarrow> ('''', False, False)
      | Some v \<Rightarrow> (case v of JString t \<Rightarrow> (t, True, False) | _ \<Rightarrow> ('''', False, True)))"

definition same_workload :: "workloadAccessor \<Rightarrow> workloadAccessor \<Rightarrow> bool" where
  "same_workload v w \<longleftrightarrow>
     getName v = getName w \<and> getNamespace v = getNamespace w \<and>
     (case (v, w) of
        (DeploymentAccessor _, DeploymentAccessor _) \<Rightarrow> True
      | (StatefulSetAccessor _, StatefulSetAccessor _) \<Rightarrow> True
      | (CronJobAccessor _, CronJobAccessor _) \<Rightarrow> True
      | (RolloutAccessor _, RolloutAccessor _) \<Rightarrow> True
      | _ \<Rightarrow> False)"

fun first_some :: "('a \<Rightarrow> 'b option) \<Rightarrow> 'a list \<Rightarrow> 'b option" where
  "first_some f [] = None"
| "first_some f (x # xs) = (case f x of None \<Rightarrow> first_some f xs | Some y \<Rightarrow> Some y)"

definition found :: "'b option \<Rightarrow> api_error + 'b" where
  "found r = (case r of None \<Rightarrow> Inl NotFound | Some y \<Rightarrow> Inr y)"

definition at_name :: "NamespacedName \<Rightarrow> workloadAccessor \<Rightarrow> bool" where
  "at_name nn w \<longleftrightarrow> getName w = nn_Name nn \<and> getNamespace w = nn_Namespace nn"

text \<open>
  An update with a stale resource version is a conflict; an accepted one gets a new version.
\<close>

definition bump :: "WorkloadDependency \<Rightarrow> WorkloadDependency" where
  "bump wd = wd\<lparr>wd_Meta := (wd_Meta wd)\<lparr>meta_ResourceVersion := meta_ResourceVersion (wd_Meta wd) @ ''+''\<rparr>\<rparr>"

definition put_wd :: "WorkloadDependency \<Rightarrow> cluster \<Rightarrow> (api_error + WorkloadDependency) \<times> cluster" where
  "put_wd wd c =
     (case find (\<lambda>w. wd_key w = wd_key wd) (cl_wds c) of
        None \<Rightarrow> (Inl NotFound, c)
      | Some w \<Rightarrow>
          if meta_ResourceVersion (wd_Meta w) \<noteq> meta_ResourceVersion (wd_Meta wd) then (Inl Conflict, c)
          else (Inr (bump wd),
                c\<lparr>cl_wds := map (\<lambda>w. if wd_key w = wd_key wd then bump wd else w) (cl_wds c)\<rparr>))"

definition mem_kube :: "cluster kube" where
  "mem_kube =
    \<lparr>float_to_int32 = (\<lambda>_. 0),
     NestedInt64 = mem_NestedInt64,
     NestedString = mem_NestedString,
     SetNestedField = json_set,
     ContainsFinalizer = (\<lambda>fs f. f \<in> set fs),
     AddFinalizer = (\<lambda>fs f. if f \<in> set fs then fs else fs @ [f]),
     RemoveFinalizer = (\<lambda>fs f. removeAll f fs),
     k_Now = (\<lambda>c. (cl_now c, c)),
     k_GetWD = (\<lambda>nn c. (found (find (\<lambda>w. wd_key w = nn) (cl_wds c)), c)),
     k_ListWD = (\<lambda>opt c. (Inr (filter (list_matches opt) (cl_wds c)), c)),
     k_UpdateWD = put_wd,
     k_UpdateStatusWD = put_wd,
     k_GetDeployment = (\<lambda>nn c. (found (first_some
        (\<lambda>w. case w of DeploymentAccessor d \<Rightarrow> if at_name nn w then Some d else None | _ \<Rightarrow> None) (cl_workloads c)), c)),
     k_GetStatefulSet = (\<lambda>nn c. (found (first_some
        (\<lambda>w. case w of StatefulSetAccessor d \<Rightarrow> if at_name nn w then Some d else None | _ \<Rightarrow> None) (cl_workloads c)), c)),
     k_GetCronJob = (\<lambda>nn c. (found (first_some
        (\<lambda>w. case w of CronJobAccessor d \<Rightarrow> if at_name nn w then Some d else None | _ \<Rightarrow> None) (cl_workloads c)), c)),
     k_GetRollout = (\<lambda>nn c. (found (first_some
        (\<lambda>w. case w of RolloutAccessor d \<Rightarrow> if at_name nn w then Some d else None | _ \<Rightarrow> None) (cl_workloads c)), c)),
     k_Patch = (\<lambda>base w c. (Inr w,
        c\<lparr>cl_workloads := map (\<lambda>v. if same_workload v w then w else v) (cl_workloads c)\<rparr>)),
     k_GetSecret = (\<lambda>nn c. (found (map_of (cl_secrets c) nn), c)),
     k_Marshal = (\<lambda>p. Some (np_WorkloadDependency p @ '':'' @ np_Phase p)),
     k_NewRequest = (\<lambda>url. url \<noteq> []),
     k_Do = (\<lambda>url body c. (Some 200, c)),
     k_DoneWithin = (\<lambda>d c. (False, c))\<rparr>"

text \<open>The same cluster with a clock that stands still and a server that accepts every status.\<close>

definition yes_kube :: "gotime \<Rightarrow> cluster kube" where
  "yes_kube now = mem_kube\<lparr>k_Now := (\<lambda>c. (now, c)), k_UpdateStatusWD := (\<lambda>wd c. (Inr wd, c))\<rparr>"

text \<open>The same cluster with a fixed set of dependency objects.\<close>

definition listing_kube :: "WorkloadDependency list \<Rightarrow> cluster kube" where
  "listing_kube all = mem_kube\<lparr>k_ListWD := (\<lambda>opt c. (Inr (filter (list_matches opt) all), c))\<rparr>"

section \<open>Sample objects\<close>

definition no_metrics :: metrics where
  "no_metrics =
    \<lparr>dependencyPhase = Map.empty, scaleToZeroTotal = Map.empty, replicasRestoredTotal = Map.empty,
     reconcileErrorsTotal = Map.empty, suspendedWorkloads = Map.empty\<rparr>"

definition start :: "'e \<Rightarrow> 'e world" where
  "start e = \<lparr>env = e, trace = [], metrics_of = no_metrics\<rparr>"

definition sample_meta :: "string \<Rightarrow> ObjectMeta" where
  "sample_meta name =
    \<lparr>meta_Name = name, meta_Namespace = ''ns'', meta_Annotations = Map.empty,
     meta_Finalizers = [FinalizerName], meta_DeletionTimestamp = None, meta_Generation = 1,
     meta_ResourceVersion = ''7''\<rparr>"

definition sample_dep :: "string \<Rightarrow> DependsOnEntry" where
  "sample_dep name =
    \<lparr>dep_Kind = ''Deployment'', dep_Name = name, dep_Namespace = '''',
     dep_Condition = \<lparr>MinReadyPercent = 0, Window = 0, RecoveryWindow = 0\<rparr>\<rparr>"

definition sample_spec :: "string \<Rightarrow> string \<Rightarrow> string list \<Rightarrow> EnforcementMode \<Rightarrow> WorkloadDependencySpec" where
  "sample_spec kind target deps mode =
    \<lparr>Dependent = \<lparr>ref_Kind = kind, ref_Name = target, ref_Namespace = ''''\<rparr>,
     DependsOn = map sample_dep deps,
     OnDegraded = \<lparr>od_Action = ActionScaleToZero, MaxSuspendDuration = 0\<rparr>,
     Mode = mode, Notify = None\<rparr>"

definition fresh_status :: WorkloadDependencyStatus where
  "fresh_status =
    \<lparr>Phase = PhaseUnset, SavedReplicas = None, DegradedSince = None, SuspendedAt = None,
     HealthySince = None, st_Message = '''', Conditions = []\<rparr>"

definition sample_wd :: "string \<Rightarrow> string \<Rightarrow> string list \<Rightarrow> EnforcementMode \<Rightarrow> WorkloadDependency" where
  "sample_wd name target deps mode =
    \<lparr>wd_Meta = sample_meta name, wd_Spec = sample_spec ''Deployment'' target deps mode,
     wd_Status = fresh_status\<rparr>"

definition sample_deployment :: "string \<Rightarrow> int32 \<Rightarrow> int32 \<Rightarrow> Deployment" where
  "sample_deployment name desired ready =
    \<lparr>d_Name = name, d_Namespace = ''ns'', d_Replicas = Some desired, d_ReadyReplicas = ready\<rparr>"

definition sample_cluster :: "WorkloadDependency list \<Rightarrow> workloadAccessor list \<Rightarrow> cluster" where
  "sample_cluster wds ws = \<lparr>cl_now = 100000000000, cl_wds = wds, cl_workloads = ws, cl_secrets = []\<rparr>"

text \<open>A dependency of \<open>a\<close> on \<open>b\<close> that was seen degraded at time 0, and clusters with both.\<close>

definition degraded_wd :: WorkloadDependency where
  "degraded_wd = upd_status (\<lambda>s. s\<lparr>Phase := PhaseDegraded, DegradedSince := Some 0\<rparr>)
     (sample_wd ''w'' ''a'' [''b''] ModeStrict)"

definition suspended_wd :: WorkloadDependency where
  "suspended_wd = upd_status (\<lambda>s. s\<lparr>Phase := PhaseSuspended, SavedReplicas := Some 3,
       DegradedSince := Some 0, SuspendedAt := Some 1000000000\<rparr>)
     (sample_wd ''w'' ''a'' [''b''] ModeStrict)"

definition running3 :: workloadAccessor where
  "running3 = DeploymentAccessor (sample_deployment ''a'' 3 3)"

definition stopped :: workloadAccessor where
  "stopped = DeploymentAccessor (sample_deployment ''a'' 0 0)"

definition pair_cluster :: "WorkloadDependency \<Rightarrow> int32 \<Rightarrow> int32 \<Rightarrow> cluster" where
  "pair_cluster wd replicas ready = sample_cluster [wd]
     [DeploymentAccessor (sample_deployment ''a'' replicas replicas),
      DeploymentAccessor (sample_deployment ''b'' 4 ready)]"

named_theorems sample_defs \<open>unfolding of the sample objects\<close>

lemmas sample_unfold [sample_defs] =
  start_def sample_meta_def sample_dep_def sample_spec_def fresh_status_def sample_wd_def
  sample_deployment_def sample_cluster_def no_metrics_def degraded_wd_def suspended_wd_def
  pair_cluster_def

lemma mem_kube_sel [simp]:
  "float_to_int32 mem_kube = (\<lambda>_. 0)"
  "NestedInt64 mem_kube = mem_NestedInt64"
  "NestedString mem_kube = mem_NestedString"
  "SetNestedField mem_kube = json_set"
  "ContainsFinalizer mem_kube = (\<lambda>fs f. f \<in> set fs)"
  "RemoveFinalizer mem_kube = (\<lambda>fs f. removeAll f fs)"
  "k_Now mem_kube c = (cl_now c, c)"
  "k_GetWD mem_kube nn c = (found (find (\<lambda>w. wd_key w = nn) (cl_wds c)), c)"
  "k_ListWD mem_kube opt c = (Inr (filter (list_matches opt) (cl_wds c)), c)"
  "k_UpdateWD mem_kube = put_wd"
  "k_UpdateStatusWD mem_kube = put_wd"
  by (simp_all add: mem_kube_def)

lemma mem_read [simp]: "k_GetWD mem_kube (wd_key wd) (env (start (pair_cluster wd n m))) = (Inr wd, pair_cluster wd n m)"
  by (simp add: sample_defs found_def)

end
