(* ===== verification/Cycles.thy ===== *)
theory Cycles
  imports Memory_Cluster "HOL-Library.AList"
begin

text \<open>
  \<^verbatim>\<open>internal/controller/cycles.go\<close>: the check, on first admission of a \<open>WorkloadDependency\<close>, that
  its edges close no cycle in the dependency graph of its namespace.  Mutual dependencies, cycles
  of two workloads, are allowed; a cycle of three or more is reported.  The search is a
  depth-first search whose visited set survives the return of a recursive call and is shared by
  all branches from one start node, and the correctness theorem says that it nevertheless finds
  a cycle through a new edge exactly when there is one.
\<close>

section \<open>The graph\<close>

record workloadKey =
  key_kind :: string
  key_namespace :: string
  key_name :: string

definition key_String :: "workloadKey \<Rightarrow> string" where
  "key_String k = key_kind k @ ''/'' @ key_namespace k @ ''/'' @ key_name k"

text \<open>\<^verbatim>\<open>map[workloadKey][]workloadKey\<close>; a missing key reads as the empty slice.\<close>

type_synonym graph = "(workloadKey \<times> workloadKey list) list"

definition neighbors :: "graph \<Rightarrow> workloadKey \<Rightarrow> workloadKey list" where
  "neighbors g k = (case map_of g k of None \<Rightarrow> [] | Some ks \<Rightarrow> ks)"

definition add_edge :: "workloadKey \<Rightarrow> workloadKey \<Rightarrow> graph \<Rightarrow> graph" where
  "add_edge a b g = AList.update a (neighbors g a @ [b]) g"

definition resolveKey :: "WorkloadRef \<Rightarrow> string \<Rightarrow> workloadKey" where
  "resolveKey ref defaultNS =
     \<lparr>key_kind = ref_Kind ref, key_namespace = namespace_or (ref_Namespace ref) defaultNS,
      key_name = ref_Name ref\<rparr>"

definition resolveDependsOnKey :: "DependsOnEntry \<Rightarrow> string \<Rightarrow> workloadKey" where
  "resolveDependsOnKey dep defaultNS =
     \<lparr>key_kind = dep_Kind dep, key_namespace = namespace_or (dep_Namespace dep) defaultNS,
      key_name = dep_Name dep\<rparr>"

definition dependent_key :: "WorkloadDependency \<Rightarrow> workloadKey" where
  "dependent_key wd = resolveKey (Dependent (wd_Spec wd)) (wd_Namespace wd)"

definition dependency_keys :: "WorkloadDependency \<Rightarrow> workloadKey list" where
  "dependency_keys wd = map (\<lambda>dep. resolveDependsOnKey dep (wd_Namespace wd)) (DependsOn (wd_Spec wd))"

text \<open>The edges one \<open>WorkloadDependency\<close> adds: from its dependent to each dependency, in order.\<close>

definition wd_edges :: "WorkloadDependency \<Rightarrow> graph \<Rightarrow> graph" where
  "wd_edges wd g = fold (add_edge (dependent_key wd)) (dependency_keys wd) g"

definition same_object :: "WorkloadDependency \<Rightarrow> WorkloadDependency \<Rightarrow> bool" where
  "same_object wd newWD \<longleftrightarrow> wd_Name wd = wd_Name newWD \<and> wd_Namespace wd = wd_Namespace newWD"

definition build_graph :: "WorkloadDependency list \<Rightarrow> WorkloadDependency \<Rightarrow> graph" where
  "build_graph items newWD =
     wd_edges newWD
       (fold (\<lambda>wd g. if same_object wd newWD then g
                      else wd_edges wd g) items [])"

section \<open>The search\<close>

text \<open>
  \<open>dfs\<close> returns the cycle, if it finds one, and the visited set the caller goes on with; the
  loop over the neighbours of a node is \<open>dfs_loop\<close>.
\<close>

function (sequential) dfs ::
    "graph \<Rightarrow> workloadKey \<Rightarrow> workloadKey \<Rightarrow> workloadKey set \<Rightarrow> workloadKey list
       \<Rightarrow> workloadKey list option \<times> workloadKey set"
  and dfs_loop ::
    "graph \<Rightarrow> workloadKey list \<Rightarrow> workloadKey \<Rightarrow> workloadKey set \<Rightarrow> workloadKey list
       \<Rightarrow> workloadKey list option \<times> workloadKey set" where
  "dfs g node target visited path =
     (if node \<in> visited then (None, visited)
      else dfs_loop g (neighbors g node) target (insert node visited) path)"
| "dfs_loop g [] target visited path = (None, visited)"
| "dfs_loop g (neighbor # rest) target visited path =
     (let newPath = path @ [neighbor] in
      if neighbor = target then (Some newPath, visited)
      else case dfs g neighbor target visited newPath of
             (Some cycle, visited') \<Rightarrow> (Some cycle, visited')
           | (None, visited') \<Rightarrow> dfs_loop g rest target visited' path)"
  by pat_completeness auto

text \<open>
  Termination: a call that is not cut off by the visited set marks one more node.  The later
  iterations of the loop run with the set the recursive call returned, so the argument needs
  that a call never forgets a node.
\<close>

lemma dfs_grows_dom:
  "dfs_dfs_loop_dom (Inl (g, node, target, visited, path)) \<Longrightarrow>
     visited \<subseteq> snd (dfs g node target visited path)"
  and dfs_loop_grows_dom:
  "dfs_dfs_loop_dom (Inr (g, ns, target, visited, path)) \<Longrightarrow>
     visited \<subseteq> snd (dfs_loop g ns target visited path)"
proof (induction g node target visited path and g ns target visited path rule: dfs_dfs_loop.pinduct)
  case (1 g node target visited path)
  then show ?case by (auto simp: dfs.psimps)
next
  case (2 g target visited path)
  then show ?case by (simp add: dfs_loop.psimps)
next
  case (3 g neighbor rest target visited path)
  then show ?case
    by (fastforce simp: dfs_loop.psimps Let_def split: prod.splits option.splits)
qed

termination dfs
proof (relation "inv_image (less_than <*lex*> less_than)
    (\<lambda>x. case x of
       Inl (g, node, target, visited, path) \<Rightarrow> (card (set (map fst g) - visited), 1)
     | Inr (g, ns, target, visited, path) \<Rightarrow> (card (set (map fst g) - visited), 2 * length ns))",
    goal_cases)
  case 1
  show ?case by auto
next
  case (2 g node target visited path)
  show ?case
  proof (cases "node \<in> set (map fst g)")
    case True
    with 2 have "card (set (map fst g) - insert node visited) < card (set (map fst g) - visited)"
      by (intro psubset_card_mono) auto
    then show ?thesis by simp
  next
    case False
    then have "map_of g node = None" by (simp add: map_of_eq_None_iff)
    then have "neighbors g node = []" by (simp add: neighbors_def)
    moreover have "set (map fst g) - insert node visited = set (map fst g) - visited" using False by auto
    ultimately show ?thesis by simp
  qed
next
  case (3 g neighbor rest target visited path newPath)
  then show ?case by simp
next
  case (4 g neighbor rest target visited path newPath r visited')
  then have "visited \<subseteq> visited'" using dfs_grows_dom [of g neighbor target visited newPath]
    by (metis snd_conv)
  then have "card (set (map fst g) - visited') \<le> card (set (map fst g) - visited)"
    by (intro card_mono) auto
  then show ?case by (auto simp: less_le)
qed

declare dfs.simps [simp del]

lemma dfs_grows: "visited \<subseteq> snd (dfs g node target visited path)"
  and dfs_loop_grows: "visited \<subseteq> snd (dfs_loop g ns target visited path)"
proof (induction g node target visited path and g ns target visited path rule: dfs_dfs_loop.induct)
  case (3 g neighbor rest target visited path)
  then show ?case by (fastforce simp: Let_def split: prod.splits option.splits)
qed (auto simp: dfs.simps)

text \<open>
  The loop over the neighbours of one start node, with the visited set it shares, and the loop
  over the dependencies of the new object.
\<close>

fun try_neighbors ::
  "graph \<Rightarrow> workloadKey \<Rightarrow> workloadKey \<Rightarrow> workloadKey list \<Rightarrow> workloadKey set \<Rightarrow> workloadKey list option" where
  "try_neighbors g newDepKey startKey [] visited = None"
| "try_neighbors g newDepKey startKey (neighbor # rest) visited =
     (if neighbor = newDepKey then try_neighbors g newDepKey startKey rest visited
      else case dfs g neighbor newDepKey visited [newDepKey, startKey, neighbor] of
             (Some cycle, _) \<Rightarrow> Some cycle
           | (None, visited') \<Rightarrow> try_neighbors g newDepKey startKey rest visited')"

fun try_starts :: "graph \<Rightarrow> workloadKey \<Rightarrow> workloadKey list \<Rightarrow> workloadKey list option" where
  "try_starts g newDepKey [] = None"
| "try_starts g newDepKey (startKey # rest) =
     (if startKey = newDepKey then try_starts g newDepKey rest
      else case try_neighbors g newDepKey startKey (neighbors g startKey) {startKey} of
             Some cycle \<Rightarrow> Some cycle
           | None \<Rightarrow> try_starts g newDepKey rest)"

definition detect_cycle_keys :: "WorkloadDependency list \<Rightarrow> WorkloadDependency \<Rightarrow> workloadKey list option" where
  "detect_cycle_keys items newWD =
     try_starts (build_graph items newWD) (dependent_key newWD) (dependency_keys newWD)"

definition DetectCycle ::
  "'e kube \<Rightarrow> WorkloadDependency \<Rightarrow> ('e, api_error + string list option) go" where
  "DetectCycle k newWD = do {
     r \<leftarrow> outside (k_ListWD k (InNamespace (wd_Namespace newWD)));
     case r of
       Inl err \<Rightarrow> return (Inl err)
     | Inr items \<Rightarrow> return (Inr (map_option (map key_String) (detect_cycle_keys items newWD))) }"

definition FormatCycle :: "string list \<Rightarrow> string" where
  "FormatCycle cycle = join cycle ('' '' @ right_arrow @ '' '')"

section \<open>Walks and cycles\<close>

text \<open>A walk follows edges of the graph; a reported cycle is one that returns to its start.\<close>

fun walk :: "graph \<Rightarrow> workloadKey list \<Rightarrow> bool" where
  "walk g (a # b # xs) = (b \<in> set (neighbors g a) \<and> walk g (b # xs))"
| "walk g _ = True"

text \<open>
  A simple cycle through \<open>t\<close>: a walk from \<open>t\<close> to \<open>t\<close> that meets no other workload twice, over at
  least three edges.
\<close>

definition long_cycle :: "graph \<Rightarrow> workloadKey \<Rightarrow> workloadKey list \<Rightarrow> bool" where
  "long_cycle g t c \<longleftrightarrow>
     4 \<le> length c \<and> walk g c \<and> hd c = t \<and> last c = t \<and> distinct (butlast c)"

lemma walk_snoc: "walk g path \<Longrightarrow> path \<noteq> [] \<Longrightarrow> b \<in> set (neighbors g (last path)) \<Longrightarrow> walk g (path @ [b])"
  by (induction g path rule: walk.induct) auto

lemma set_last_butlast: "xs \<noteq> [] \<Longrightarrow> set xs = insert (last xs) (set (butlast xs))"
  by (cases xs rule: rev_cases) auto

subsection \<open>Soundness of the search\<close>

text \<open>
  The path handed down is a simple walk from the target whose workloads, the target apart, are
  marked visited; so the cycle it is extended to is simple as well.
\<close>

definition path_ok :: "graph \<Rightarrow> workloadKey \<Rightarrow> workloadKey list \<Rightarrow> bool" where
  "path_ok g t path \<longleftrightarrow> 3 \<le> length path \<and> walk g path \<and> hd path = t \<and> distinct path"

lemma path_ok_cycle:
  assumes "path_ok g t path" and "t \<in> set (neighbors g (last path))"
  shows "long_cycle g t (path @ [t])"
proof -
  have "path \<noteq> []" using assms(1) by (auto simp: path_ok_def)
  then show ?thesis
    using assms walk_snoc [of g path t] by (auto simp: path_ok_def long_cycle_def hd_append)
qed

lemma path_ok_extend:
  assumes "path_ok g t path" and "b \<in> set (neighbors g (last path))" and "b \<notin> set path"
  shows "path_ok g t (path @ [b])"
proof -
  have "path \<noteq> []" using assms(1) by (auto simp: path_ok_def)
  then show ?thesis
    using assms walk_snoc [of g path b] by (auto simp: path_ok_def hd_append)
qed

lemma dfs_sound:
  "\<lbrakk>dfs g node t visited path = (Some c, v); node \<noteq> t; node = last path;
     node \<notin> visited \<Longrightarrow> path_ok g t path; set (butlast path) \<subseteq> insert t visited\<rbrakk>
   \<Longrightarrow> long_cycle g t c \<and> take (length path) c = path"
  and dfs_loop_sound:
  "\<lbrakk>dfs_loop g ns t visited path = (Some c, v); path_ok g t path;
     set ns \<subseteq> set (neighbors g (last path)); set path \<subseteq> insert t visited\<rbrakk>
   \<Longrightarrow> long_cycle g t c \<and> take (length path) c = path"
proof (induction g node t visited path and g ns t visited path arbitrary: c v and c v
    rule: dfs_dfs_loop.induct)
  case (1 g node t visited path)
  then have new: "node \<notin> visited" by (auto simp: dfs.simps)
  with 1 have ok: "path_ok g t path" by blast
  then have "path \<noteq> []" by (auto simp: path_ok_def)
  then have "set path \<subseteq> insert t (insert node visited)"
    using set_last_butlast [of path] "1.prems"(3,5) by auto
  moreover have "dfs_loop g (neighbors g node) t (insert node visited) path = (Some c, v)"
    using new "1.prems"(1) by (simp add: dfs.simps)
  ultimately show ?case using "1.IH" [OF new] ok "1.prems"(3) by simp
next
  case (2 g t visited path)
  then show ?case by simp
next
  case (3 g neighbor rest t visited path)
  show ?case
  proof (cases "neighbor = t")
    case True
    then show ?thesis using 3 path_ok_cycle by auto
  next
    case False
    obtain r v' where d: "dfs g neighbor t visited (path @ [neighbor]) = (r, v')" by force
    have ext: "path_ok g t (path @ [neighbor])" if "neighbor \<notin> visited"
      using that False 3 by (intro path_ok_extend) auto
    show ?thesis
    proof (cases r)
      case None
      have "visited \<subseteq> v'" using d dfs_grows by (metis snd_conv)
      then have "set path \<subseteq> insert t v'" using "3.prems"(4) by auto
      moreover have "dfs_loop g rest t v' path = (Some c, v)"
        using "3.prems"(1) False d None by (simp add: Let_def)
      moreover have "set rest \<subseteq> set (neighbors g (last path))" using "3.prems"(3) by simp
      ultimately show ?thesis using "3.IH"(2) [OF refl False d [symmetric] None] "3.prems"(2) by blast
    next
      case (Some c')
      then have d': "dfs g neighbor t visited (path @ [neighbor]) = (Some c', v')" using d by simp
      have "long_cycle g t c' \<and> take (length (path @ [neighbor])) c' = path @ [neighbor]"
        using "3.IH"(1) [OF refl False d' False _ ext] "3.prems"(4) by simp
      moreover have "c = c'" using "3.prems"(1) False d' by (simp add: Let_def)
      moreover have "take (length path) (take (length (path @ [neighbor])) c') = take (length path) c'"
        by simp
      ultimately show ?thesis by simp
    qed
  qed
qed

lemma try_neighbors_sound:
  assumes "try_neighbors g t s ns visited = Some c"
    and "s \<noteq> t" and "s \<in> set (neighbors g t)" and "set ns \<subseteq> set (neighbors g s)" and "s \<in> visited"
  shows "long_cycle g t c \<and> c ! 1 = s"
  using assms
proof (induction ns arbitrary: visited)
  case Nil
  then show ?case by simp
next
  case (Cons n ns)
  show ?case
  proof (cases "n = t")
    case True
    then show ?thesis using Cons by simp
  next
    case False
    obtain r v where d: "dfs g n t visited [t, s, n] = (r, v)" by force
    have "visited \<subseteq> v" using d dfs_grows by (metis snd_conv)
    show ?thesis
    proof (cases r)
      case None
      then show ?thesis using Cons False d \<open>visited \<subseteq> v\<close> by auto
    next
      case (Some c')
      have "path_ok g t [t, s, n]" if "n \<notin> visited"
        using that Cons.prems False by (auto simp: path_ok_def)
      then have "long_cycle g t c' \<and> take 3 c' = [t, s, n]"
        using dfs_sound [of g n t visited "[t, s, n]" c' v] d Some False Cons.prems
        by (simp add: numeral_3_eq_3)
      moreover have "c = c'" using Cons.prems(1) False d Some by simp
      ultimately show ?thesis using nth_take [of 1 3 c'] by simp
    qed
  qed
qed

lemma try_starts_sound:
  assumes "try_starts g t ss = Some c" and "set ss \<subseteq> set (neighbors g t)"
  shows "long_cycle g t c \<and> c ! 1 \<in> set ss"
  using assms
proof (induction ss)
  case (Cons s ss)
  then show ?case
    by (auto split: if_splits option.splits dest: try_neighbors_sound)
qed simp

subsection \<open>Completeness of the search\<close>

text \<open>
  A search that finds nothing leaves behind a set of nodes from which the target cannot be
  reached without passing a node that was marked before it started.
\<close>

definition closed_above :: "graph \<Rightarrow> workloadKey \<Rightarrow> workloadKey set \<Rightarrow> workloadKey set \<Rightarrow> bool" where
  "closed_above g t old new \<longleftrightarrow>
     old \<subseteq> new \<and> (\<forall>x \<in> new - old. \<forall>y \<in> set (neighbors g x). y \<noteq> t \<and> y \<in> new)"

lemma closed_above_trans:
  "closed_above g t a b \<Longrightarrow> closed_above g t b c \<Longrightarrow> closed_above g t a c"
  unfolding closed_above_def by blast

lemma closed_above_subset: "closed_above g t a b \<Longrightarrow> x \<in> a \<Longrightarrow> x \<in> b"
  unfolding closed_above_def by blast

lemma closed_above_refl: "closed_above g t a a"
  by (simp add: closed_above_def)

lemma dfs_closed:
  "dfs g node t visited path = (None, v) \<Longrightarrow> closed_above g t visited v \<and> node \<in> v"
  and dfs_loop_closed:
  "dfs_loop g ns t visited path = (None, v) \<Longrightarrow>
     closed_above g t visited v \<and> (\<forall>n \<in> set ns. n \<noteq> t \<and> n \<in> v)"
proof (induction g node t visited path and g ns t visited path arbitrary: v and v
    rule: dfs_dfs_loop.induct)
  case (1 g node t visited path)
  show ?case
  proof (cases "node \<in> visited")
    case True
    then show ?thesis using 1 by (simp add: dfs.simps closed_above_refl)
  next
    case False
    then have "closed_above g t (insert node visited) v \<and> (\<forall>n \<in> set (neighbors g node). n \<noteq> t \<and> n \<in> v)"
      using 1 by (simp add: dfs.simps)
    then show ?thesis unfolding closed_above_def by blast
  qed
next
  case (2 g t visited path)
  then show ?case by (simp add: closed_above_refl)
next
  case (3 g neighbor rest t visited path)
  obtain r v' where d: "dfs g neighbor t visited (path @ [neighbor]) = (r, v')" by force
  have ne: "neighbor \<noteq> t" using "3.prems" by (auto simp: Let_def)
  then have r: "r = None" and l: "dfs_loop g rest t v' path = (None, v)"
    using "3.prems" d by (auto simp: Let_def split: option.splits)
  have "closed_above g t visited v' \<and> neighbor \<in> v'" using "3.IH"(1) ne d r by simp
  moreover have "closed_above g t v' v \<and> (\<forall>n \<in> set rest. n \<noteq> t \<and> n \<in> v)"
    using "3.IH"(2) ne d r l by simp
  ultimately show ?case
    using ne by (auto intro: closed_above_trans [of g t visited v' v] closed_above_subset [of g t v' v])
qed

lemma try_neighbors_closed:
  assumes "try_neighbors g t s ns visited = None"
  shows "\<exists>v. closed_above g t visited v \<and> (\<forall>n \<in> set ns. n \<noteq> t \<longrightarrow> n \<in> v)"
  using assms
proof (induction ns arbitrary: visited)
  case Nil
  then show ?case using closed_above_refl by auto
next
  case (Cons n ns)
  show ?case
  proof (cases "n = t")
    case True
    then show ?thesis using Cons by simp
  next
    case False
    obtain r v where d: "dfs g n t visited [t, s, n] = (r, v)" by force
    then have r: "r = None" using Cons.prems False by (auto split: option.splits)
    then have v: "closed_above g t visited v" "n \<in> v" using dfs_closed d by blast+
    from Cons.IH [of v] Cons.prems False d r obtain w where
      w: "closed_above g t v w" "\<forall>n \<in> set ns. n \<noteq> t \<longrightarrow> n \<in> w" by auto
    have "closed_above g t visited w" using v(1) w(1) by (rule closed_above_trans)
    moreover have "n \<in> w" using w(1) v(2) by (rule closed_above_subset)
    ultimately show ?thesis using w(2) by auto
  qed
qed

text \<open>So no walk that stays away from the marked nodes reaches the target.\<close>

lemma closed_above_walk:
  assumes "closed_above g t old new" and "walk g (x # xs)" and "x \<in> new"
    and "set (x # butlast xs) \<inter> old = {}" and "xs \<noteq> []"
  shows "last xs \<noteq> t"
  using assms
proof (induction xs arbitrary: x)
  case (Cons y ys)
  then have "y \<noteq> t" and "y \<in> new" unfolding closed_above_def by auto
  then show ?case using Cons by (cases ys) auto
qed simp

lemma try_starts_complete:
  assumes "try_starts g t ss = None" and "long_cycle g t c"
  shows "c ! 1 \<notin> set ss"
proof
  assume "c ! 1 \<in> set ss"
  define s where "s = c ! 1"
  from assms(2) obtain n xs where c: "c = t # s # n # xs" and xs: "xs \<noteq> []" "last xs = t"
    unfolding long_cycle_def s_def
    by (cases c; cases "tl c"; cases "tl (tl c)"; cases "tl (tl (tl c))") auto
  have di: "distinct (t # s # n # butlast xs)" and w: "walk g (s # n # xs)"
    using assms(2) xs unfolding long_cycle_def c by auto
  have "s \<noteq> t" using di by auto
  then have "try_neighbors g t s (neighbors g s) {s} = None"
    using assms(1) \<open>c ! 1 \<in> set ss\<close> unfolding s_def [symmetric]
    by (induction ss) (auto split: if_splits option.splits)
  from try_neighbors_closed [OF this] obtain v where
    v: "closed_above g t {s} v" "\<forall>n \<in> set (neighbors g s). n \<noteq> t \<longrightarrow> n \<in> v" by blast
  have "n \<in> v" using v(2) w di by auto
  moreover have "set (n # butlast xs) \<inter> {s} = {}" using di by auto
  ultimately have "last xs \<noteq> t" using closed_above_walk [OF v(1)] w xs(1) by auto
  then show False using xs(2) by simp
qed

section \<open>The graph that is searched\<close>

text \<open>
  The dependency relation the check is about: what the listed objects, the one being admitted
  replaced by its new version, declare.
\<close>

definition depends_on ::
  "WorkloadDependency list \<Rightarrow> WorkloadDependency \<Rightarrow> workloadKey \<Rightarrow> workloadKey \<Rightarrow> bool" where
  "depends_on items newWD x y \<longleftrightarrow>
     x = dependent_key newWD \<and> y \<in> set (dependency_keys newWD) \<or>
     (\<exists>wd \<in> set items. \<not> same_object wd newWD \<and>
        x = dependent_key wd \<and> y \<in> set (dependency_keys wd))"

lemma neighbors_add_edge:
  "neighbors (add_edge a b g) x = (if x = a then neighbors g a @ [b] else neighbors g x)"
  by (simp add: neighbors_def add_edge_def update_conv')

lemma neighbors_wd_edges:
  "neighbors (wd_edges wd g) x =
     neighbors g x @ (if x = dependent_key wd then dependency_keys wd else [])"
proof -
  have "neighbors (fold (add_edge a) bs g) x = neighbors g x @ (if x = a then bs else [])" for a bs
    by (induction bs arbitrary: g) (auto simp: neighbors_add_edge)
  then show ?thesis by (simp add: wd_edges_def)
qed

lemma neighbors_build_graph:
  "y \<in> set (neighbors (build_graph items newWD) x) \<longleftrightarrow> depends_on items newWD x y"
proof -
  let ?f = "\<lambda>wd g. if same_object wd newWD then g
                   else wd_edges wd g"
  have "y \<in> set (neighbors (fold ?f items g) x) \<longleftrightarrow>
          y \<in> set (neighbors g x) \<or>
          (\<exists>wd \<in> set items. \<not> same_object wd newWD \<and> x = dependent_key wd \<and> y \<in> set (dependency_keys wd))" for g
  proof (induction items arbitrary: g)
    case (Cons w ws)
    then show ?case by (cases "same_object w newWD"; cases "x = dependent_key w")
        (simp_all add: neighbors_wd_edges disj_assoc)
  qed simp
  note listed = this [of "[]"]
  have "neighbors [] x = []" by (simp add: neighbors_def)
  then show ?thesis
    unfolding build_graph_def depends_on_def neighbors_wd_edges set_append Un_iff listed
    by (cases "x = dependent_key newWD") (simp_all only: list.set if_True if_False empty_iff simp_thms disj_commute)
qed

lemma walk_build_graph:
  "walk (build_graph items newWD) c \<longleftrightarrow> successively (depends_on items newWD) c"
  by (induction c rule: induct_list012) (auto simp: neighbors_build_graph)

text \<open>
  A cycle that admitting \<open>newWD\<close> closes: it starts with one of the new edges, returns to the
  dependent, meets no other workload twice and has at least three edges.
\<close>

definition closes_cycle ::
  "WorkloadDependency list \<Rightarrow> WorkloadDependency \<Rightarrow> workloadKey list \<Rightarrow> bool" where
  "closes_cycle items newWD c \<longleftrightarrow>
     4 \<le> length c \<and> successively (depends_on items newWD) c \<and> distinct (butlast c) \<and>
     hd c = dependent_key newWD \<and> last c = dependent_key newWD \<and> c ! 1 \<in> set (dependency_keys newWD)"

lemma detect_cycle_keys_spec:
  "case detect_cycle_keys items newWD of
     None \<Rightarrow> \<nexists>c. closes_cycle items newWD c
   | Some c \<Rightarrow> closes_cycle items newWD c"
proof -
  let ?g = "build_graph items newWD" and ?t = "dependent_key newWD" and ?ss = "dependency_keys newWD"
  have ss: "set ?ss \<subseteq> set (neighbors ?g ?t)"
    unfolding subset_iff neighbors_build_graph by (auto simp: depends_on_def)
  have cc: "closes_cycle items newWD c \<longleftrightarrow> long_cycle ?g ?t c \<and> c ! 1 \<in> set ?ss" for c
    by (auto simp: closes_cycle_def long_cycle_def walk_build_graph)
  show ?thesis
    unfolding detect_cycle_keys_def
    using try_starts_sound [OF _ ss] try_starts_complete [of ?g ?t ?ss]
    by (auto simp: cc split: option.splits)
qed

section \<open>Correctness of the check\<close>

lemma run_DetectCycle:
  assumes "k_ListWD k (InNamespace (wd_Namespace newWD)) (env s) = (Inr items, e)"
  shows "fst (run_state (DetectCycle k newWD) s) =
           Inr (map_option (map key_String) (detect_cycle_keys items newWD))"
  using assms by (simp add: DetectCycle_def outside_def)

text \<open>
  C8.  Once the list call has returned the objects of the namespace, \<open>DetectCycle\<close> reports
  no cycle exactly when admitting the new object closes none, and otherwise the rendering of a
  cycle that starts with one of the new edges.  The visited set shared by the branches of the
  search loses no cycle, and a mutual dependency of two workloads is never reported.
\<close>

theorem DetectCycle_correct:
  assumes "k_ListWD k (InNamespace (wd_Namespace newWD)) (env s) = (Inr items, e)"
  shows "case fst (run_state (DetectCycle k newWD) s) of
           Inl err \<Rightarrow> False
         | Inr None \<Rightarrow> \<nexists>c. closes_cycle items newWD c
         | Inr (Some strs) \<Rightarrow> \<exists>c. closes_cycle items newWD c \<and> strs = map key_String c"
  using detect_cycle_keys_spec [of items newWD]
  by (auto simp: run_DetectCycle [OF assms] split: option.splits)

definition abc_items :: "WorkloadDependency list" where
  "abc_items = [sample_wd ''w1'' ''a'' [''b''] ModeStrict, sample_wd ''w2'' ''b'' [''c''] ModeStrict]"

text \<open>
  With \<open>a\<close> needing \<open>b\<close> and \<open>b\<close> needing \<open>c\<close>, letting \<open>c\<close> need \<open>a\<close> closes a cycle; letting \<open>b\<close> need \<open>a\<close>
  only makes the two mutually dependent.
\<close>

theorem DetectCycle_correct_witness:
  "(\<exists>c. closes_cycle abc_items (sample_wd ''w3'' ''c'' [''a''] ModeStrict) c) \<and>
   (\<nexists>c. closes_cycle abc_items (sample_wd ''w3'' ''b'' [''a''] ModeStrict) c)"
proof -
  let ?s = "start (sample_cluster abc_items [])"
  let ?x = "sample_wd ''w3'' ''c'' [''a''] ModeStrict" and ?y = "sample_wd ''w3'' ''b'' [''a''] ModeStrict"
  have l: "k_ListWD mem_kube (InNamespace (wd_Namespace w)) (env ?s) = (Inr abc_items, env ?s)"
    if "w = ?x \<or> w = ?y" for w
    using that by (auto simp: abc_items_def sample_defs)
  have x: "detect_cycle_keys abc_items ?x \<noteq> None" by code_simp
  have y: "detect_cycle_keys abc_items ?y = None" by code_simp
  have "\<exists>c. closes_cycle abc_items ?x c"
    using DetectCycle_correct [OF l, of ?x] x by (auto simp: run_DetectCycle [OF l] split: option.splits)
  moreover have "\<nexists>c. closes_cycle abc_items ?y c"
    using DetectCycle_correct [OF l, of ?y] y by (simp add: run_DetectCycle [OF l])
  ultimately show ?thesis by blast
qed

end
