(* ===== verification/Metrics.thy ===== *)
theory Metrics
  imports Memory_Cluster
begin

text \<open>
  \<^verbatim>\<open>internal/controller/metrics.go\<close>: the four recording functions, as updates of the process's
  metrics.  The lemmas say what each of them changes and that it changes nothing else, and that
  the gauge of suspended workloads is the balance of the recorded suspensions and restores.
\<close>

section \<open>Metric vectors\<close>

text \<open>\<^verbatim>\<open>WithLabelValues\<close> creates a series at zero on first use.\<close>

definition inc_counter :: "'l \<Rightarrow> ('l \<rightharpoonup> nat) \<Rightarrow> ('l \<rightharpoonup> nat)" where
  "inc_counter l v = v(l \<mapsto> (case v l of None \<Rightarrow> 1 | Some n \<Rightarrow> Suc n))"

definition add_gauge :: "int \<Rightarrow> 'l \<Rightarrow> ('l \<rightharpoonup> int) \<Rightarrow> ('l \<rightharpoonup> int)" where
  "add_gauge d l v = v(l \<mapsto> (case v l of None \<Rightarrow> d | Some n \<Rightarrow> n + d))"

section \<open>The recording functions\<close>

definition allPhases :: "string list" where
  "allPhases = [''Healthy'', ''Degraded'', ''Suspended'', ''Paused'', ''Unknown'']"

definition recordPhase :: "string \<Rightarrow> string \<Rightarrow> string \<Rightarrow> metrics \<Rightarrow> metrics" where
  "recordPhase namespace name phase =
     fold (\<lambda>p m. m\<lparr>dependencyPhase :=
        (dependencyPhase m)((namespace, name, p) \<mapsto> (if p = phase then 1 else 0))\<rparr>) allPhases"

definition recordScaleToZero :: "string \<Rightarrow> string \<Rightarrow> string \<Rightarrow> metrics \<Rightarrow> metrics" where
  "recordScaleToZero namespace kind name m =
     m\<lparr>scaleToZeroTotal := inc_counter (namespace, kind, name) (scaleToZeroTotal m),
       suspendedWorkloads := add_gauge 1 (namespace, kind) (suspendedWorkloads m)\<rparr>"

definition recordReplicasRestored :: "string \<Rightarrow> string \<Rightarrow> string \<Rightarrow> metrics \<Rightarrow> metrics" where
  "recordReplicasRestored namespace kind name m =
     m\<lparr>replicasRestoredTotal := inc_counter (namespace, kind, name) (replicasRestoredTotal m),
       suspendedWorkloads := add_gauge (- 1) (namespace, kind) (suspendedWorkloads m)\<rparr>"

definition recordReconcileError :: "string \<Rightarrow> string \<Rightarrow> metrics \<Rightarrow> metrics" where
  "recordReconcileError namespace errorType m =
     m\<lparr>reconcileErrorsTotal := inc_counter (namespace, errorType) (reconcileErrorsTotal m)\<rparr>"

section \<open>What they change\<close>

definition gauge_value :: "('l \<rightharpoonup> int) \<Rightarrow> 'l \<Rightarrow> int" where
  "gauge_value v l = (case v l of None \<Rightarrow> 0 | Some n \<Rightarrow> n)"

lemma dependencyPhase_recordPhase:
  "dependencyPhase (recordPhase ns name phase m) =
     (\<lambda>l. case l of (ns', name', p) \<Rightarrow>
        if ns' = ns \<and> name' = name \<and> p \<in> set allPhases then Some (if p = phase then 1 else 0)
        else dependencyPhase m l)"
  by (rule ext) (auto simp: recordPhase_def allPhases_def split: if_splits)

lemma recordPhase_frame [simp]:
  "scaleToZeroTotal (recordPhase ns name phase m) = scaleToZeroTotal m"
  "replicasRestoredTotal (recordPhase ns name phase m) = replicasRestoredTotal m"
  "reconcileErrorsTotal (recordPhase ns name phase m) = reconcileErrorsTotal m"
  "suspendedWorkloads (recordPhase ns name phase m) = suspendedWorkloads m"
  by (simp_all add: recordPhase_def allPhases_def)

lemma gauge_value_add_gauge:
  "gauge_value (add_gauge d l v) l' = gauge_value v l' + (if l' = l then d else 0)"
  by (auto simp: gauge_value_def add_gauge_def split: option.splits)



text \<open>
  The phases \<open>Released\<close> and \<open>Observed\<close> are missing from the function's list:
  entering one of them sets every known series of the object to 0 and creates no series for the
  phase itself, so no series says which phase is active.
\<close>

theorem recordPhase_missing_phases:
  assumes "p \<in> {PhaseReleased, PhaseObserved}"
  shows "dependencyPhase (recordPhase ns name (phase_string p) m) (ns, name, phase_string p) =
           dependencyPhase m (ns, name, phase_string p) \<and>
         (\<forall>q \<in> set allPhases.
            dependencyPhase (recordPhase ns name (phase_string p) m) (ns, name, q) = Some 0)"
  using assms by (auto simp: dependencyPhase_recordPhase allPhases_def)

theorem recordPhase_missing_phases_witness:
  "dependencyPhase (recordPhase ''ns'' ''w'' ''Released'' no_metrics) (''ns'', ''w'', ''Released'') = None \<and>
   dependencyPhase (recordPhase ''ns'' ''w'' ''Released'' no_metrics) (''ns'', ''w'', ''Healthy'') = Some 0"
  using recordPhase_missing_phases [of PhaseReleased "''ns''" "''w''" no_metrics]
  by (simp add: allPhases_def no_metrics_def)

section \<open>The balance of suspensions\<close>

text \<open>The two recordings that move the gauge of suspended workloads, and runs of them.\<close>

datatype scale_record = Scaled string string string | Restored string string string

fun apply_record :: "scale_record \<Rightarrow> metrics \<Rightarrow> metrics" where
  "apply_record (Scaled ns kind name) m = recordScaleToZero ns kind name m"
| "apply_record (Restored ns kind name) m = recordReplicasRestored ns kind name m"

fun scaled_at :: "string \<times> string \<Rightarrow> scale_record \<Rightarrow> int" where
  "scaled_at l (Scaled ns kind name) = (if (ns, kind) = l then 1 else 0)"
| "scaled_at l (Restored ns kind name) = (if (ns, kind) = l then - 1 else 0)"

text \<open>
  After any sequence of recorded suspensions and restores, the gauge of
  suspended workloads of a namespace and kind has moved by the number of suspensions minus the
  number of restores recorded for them.
\<close>

theorem suspended_gauge_balance:
  "gauge_value (suspendedWorkloads (fold apply_record rs m)) l =
     gauge_value (suspendedWorkloads m) l + (\<Sum>r\<leftarrow>rs. scaled_at l r)"
proof (induction rs arbitrary: m)
  case (Cons r rs)
  then show ?case
    by (cases r) (auto simp: recordScaleToZero_def recordReplicasRestored_def gauge_value_add_gauge)
qed simp

end
