(* ===== verification/Notify.thy ===== *)
theory Notify
  imports Metrics
begin

text \<open>
  \<^verbatim>\<open>internal/controller/notify.go\<close>: the decision whether a phase transition is notified, the
  resolution of the webhook URL, and the delivery with its retries.  \<open>maybeNotify\<close> starts the
  delivery in a goroutine, which the model records as the action \<open>SpawnNotification\<close>; the
  goroutine's body is \<open>sendNotification\<close>, whose requests and pauses are actions of its own.
  Encoding the payload, parsing the URL and performing a request belong to the interface
  \<open>'e kube\<close>.
\<close>

section \<open>Timestamps\<close>

text \<open>\<^verbatim>\<open>time.RFC3339\<close> in UTC: the proleptic Gregorian date of a day number, then the time of day.\<close>

definition civil_from_days :: "int \<Rightarrow> int \<times> int \<times> int" where
  "civil_from_days days =
     (let z = days + 719468;
          era = z div 146097;
          doe = z - era * 146097;
          yoe = (doe - doe div 1460 + doe div 36524 - doe div 146096) div 365;
          doy = doe - (365 * yoe + yoe div 4 - yoe div 100);
          mp = (5 * doy + 2) div 153;
          d = doy - (153 * mp + 2) div 5 + 1;
          m = (if mp < 10 then mp + 3 else mp - 9)
      in (yoe + era * 400 + (if m \<le> 2 then 1 else 0), m, d))"

definition pad :: "nat \<Rightarrow> int \<Rightarrow> string" where
  "pad w i = (let t = show_int i in replicate (w - length t) (CHR ''0'') @ t)"

definition rfc3339_utc :: "gotime \<Rightarrow> string" where
  "rfc3339_utc t =
     (let secs = t div 1000000000; tod = secs mod 86400 in
      case civil_from_days (secs div 86400) of (y, m, d) \<Rightarrow>
        pad 4 y @ ''-'' @ pad 2 m @ ''-'' @ pad 2 d @ ''T'' @
        pad 2 (tod div 3600) @ '':'' @ pad 2 (tod mod 3600 div 60) @ '':'' @ pad 2 (tod mod 60) @ ''Z'')"

section \<open>Deciding and addressing a notification\<close>

datatype notify_error = SecretGetFailed string api_error | SecretKeyMissing string string

definition shouldNotify :: "DependencyPhase list \<Rightarrow> DependencyPhase \<Rightarrow> bool" where
  "shouldNotify onPhases phase =
     (if onPhases = [] then phase = PhaseSuspended \<or> phase = PhaseHealthy
      else \<exists>p \<in> set onPhases. p = phase)"

definition resolveWebhookURL ::
  "'e kube \<Rightarrow> WorkloadDependency \<Rightarrow> NotifySpec \<Rightarrow> ('e, notify_error + string) go" where
  "resolveWebhookURL k wd n =
     (case WebhookSecretRef n of
        Some ref \<Rightarrow> do {
          r \<leftarrow> outside (k_GetSecret k \<lparr>nn_Namespace = wd_Namespace wd, nn_Name = skr_Name ref\<rparr>);
          case r of
            Inl err \<Rightarrow> return (Inl (SecretGetFailed (skr_Name ref) err))
          | Inr data \<Rightarrow>
              (let key = (if skr_Key ref = '''' then ''url'' else skr_Key ref) in
               case data key of
                 None \<Rightarrow> return (Inl (SecretKeyMissing (skr_Name ref) key))
               | Some url \<Rightarrow> return (Inr url)) }
      | None \<Rightarrow> return (Inr (Webhook n)))"

definition notify_payload ::
  "WorkloadDependency \<Rightarrow> DependencyPhase \<Rightarrow> DependencyPhase \<Rightarrow> gotime \<Rightarrow> notifyPayload" where
  "notify_payload wd prevPhase newPhase now =
    \<lparr>np_WorkloadDependency = wd_Name wd,
     np_Namespace = wd_Namespace wd,
     np_Phase = phase_string newPhase,
     np_PreviousPhase = phase_string prevPhase,
     np_Message = st_Message (wd_Status wd),
     np_Dependent = ref_Name (Dependent (wd_Spec wd)),
     np_DependentKind = ref_Kind (Dependent (wd_Spec wd)),
     np_Timestamp = rfc3339_utc now\<rparr>"

definition maybeNotify ::
  "'e kube \<Rightarrow> WorkloadDependency \<Rightarrow> DependencyPhase \<Rightarrow> DependencyPhase \<Rightarrow> ('e, unit) go" where
  "maybeNotify k wd prevPhase newPhase =
     (case Notify (wd_Spec wd) of
        None \<Rightarrow> return ()
      | Some n \<Rightarrow>
          if \<not> shouldNotify (OnPhases n) newPhase then return ()
          else do {
            u \<leftarrow> resolveWebhookURL k wd n;
            case u of
              Inl err \<Rightarrow> return ()
            | Inr url \<Rightarrow>
                if url = '''' then return ()
                else do {
                  now \<leftarrow> metav1_Now k;
                  emit (SpawnNotification url (notify_payload wd prevPhase newPhase now)) } })"

section \<open>Delivery\<close>

definition notifyMaxRetries :: nat where
  "notifyMaxRetries = 3"

text \<open>How \<open>sendNotification\<close> ended; the source returns nothing and logs.\<close>

datatype delivery = MarshalFailed | Cancelled | BadRequest | Rejected int | Sent int | GaveUp

text \<open>\<^verbatim>\<open>time.Duration(1<<(attempt-1)) * time.Second\<close>.\<close>

definition backoff :: "nat \<Rightarrow> duration" where
  "backoff attempt = push_bit (attempt - 1) 1 * Second"

text \<open>The pause before every attempt but the first; \<open>True\<close> when the context ended meanwhile.\<close>

definition wait_backoff :: "'e kube \<Rightarrow> nat \<Rightarrow> ('e, bool) go" where
  "wait_backoff k attempt =
     (if 0 < attempt then do {
        cancelled \<leftarrow> outside (k_DoneWithin k (backoff attempt));
        if cancelled then return True
        else do { emit (Backoff (backoff attempt)); return False } }
      else return False)"

text \<open>The loop over the attempts; the last argument counts the attempts that are left.\<close>

fun send_attempts :: "'e kube \<Rightarrow> string \<Rightarrow> string \<Rightarrow> nat \<Rightarrow> ('e, delivery) go" where
  "send_attempts k url body 0 = return GaveUp"
| "send_attempts k url body (Suc left) = do {
     cancelled \<leftarrow> wait_backoff k (notifyMaxRetries - Suc left);
     if cancelled then return Cancelled
     else if \<not> k_NewRequest k url then return BadRequest
     else do {
       resp \<leftarrow> outside (k_Do k url body);
       emit (PostNotification url body resp);
       case resp of
         None \<Rightarrow> send_attempts k url body left
       | Some code \<Rightarrow>
           if 500 \<le> code then send_attempts k url body left
           else if 400 \<le> code then return (Rejected code)
           else return (Sent code) } }"

definition sendNotification :: "'e kube \<Rightarrow> string \<Rightarrow> notifyPayload \<Rightarrow> ('e, delivery) go" where
  "sendNotification k url payload =
     (case k_Marshal k payload of
        None \<Rightarrow> return MarshalFailed
      | Some body \<Rightarrow> send_attempts k url body notifyMaxRetries)"

definition version :: string where
  "version = ''0.2.0''"

section \<open>What is notified\<close>

lemma emits_maybeNotify [emits_intros]:
  "(\<And>url p. P (SpawnNotification url p)) \<Longrightarrow> emits P (maybeNotify k wd prev new)"
  unfolding maybeNotify_def resolveWebhookURL_def by (intro emits_intros)

text \<open>
  Without a list of phases exactly the transitions into \<open>Suspended\<close> and
  \<open>Healthy\<close> are notified; with a list, exactly those into its members.
\<close>

theorem shouldNotify_iff:
  "shouldNotify onPhases phase \<longleftrightarrow>
     phase \<in> set (if onPhases = [] then [PhaseSuspended, PhaseHealthy] else onPhases)"
  by (auto simp: shouldNotify_def)

section \<open>The retries\<close>

fun post_result :: "effect \<Rightarrow> int option option" where
  "post_result (PostNotification url body r) = Some r"
| "post_result _ = None"

definition posts :: "effect list \<Rightarrow> int option list" where
  "posts xs = List.map_filter post_result xs"

lemma posts_simps [simp]:
  "posts [] = []"
  "posts (PostNotification url body r # xs) = r # posts xs"
  "posts (Backoff d # xs) = posts xs"
  "posts (xs @ ys) = posts xs @ posts ys"
  by (simp_all add: posts_def List.map_filter_def)

definition retryable :: "int option \<Rightarrow> bool" where
  "retryable r = (case r of None \<Rightarrow> True | Some code \<Rightarrow> 500 \<le> code)"

text \<open>What one run of the loop may have done, given its outcome.\<close>

definition attempts_ok :: "nat \<Rightarrow> delivery \<Rightarrow> int option list \<Rightarrow> bool" where
  "attempts_ok n out ps \<longleftrightarrow>
     length ps \<le> n \<and>
     (case out of
        Sent code \<Rightarrow> ps \<noteq> [] \<and> last ps = Some code \<and> list_all retryable (butlast ps) \<and> code < 400
      | Rejected code \<Rightarrow>
          ps \<noteq> [] \<and> last ps = Some code \<and> list_all retryable (butlast ps) \<and> 400 \<le> code \<and> code < 500
      | GaveUp \<Rightarrow> length ps = n \<and> list_all retryable ps
      | _ \<Rightarrow> list_all retryable ps)"

lemma attempts_ok_step:
  "attempts_ok n out ps \<Longrightarrow> retryable r \<Longrightarrow> attempts_ok (Suc n) out (r # ps)"
  by (cases out) (auto simp: attempts_ok_def)

lemma attempts_ok_zero:
  "attempts_ok n Cancelled []" "attempts_ok n BadRequest []" "attempts_ok n MarshalFailed []"
  "attempts_ok 0 GaveUp []"
  by (simp_all add: attempts_ok_def)

lemma send_attempts_ok:
  "wp (send_attempts k url body n)
     (\<lambda>out s'. \<exists>xs. trace s' = trace s @ xs \<and> attempts_ok n out (posts xs)) s"
proof (induction n arbitrary: s)
  case 0
  then show ?case by (simp add: wp_simps attempts_ok_zero)
next
  case (Suc n)
  have step: "wp (send_attempts k url body n)
      (\<lambda>out s'. \<exists>xs. trace s' = trace s @ xs \<and> attempts_ok (Suc n) out (posts xs)) s0"
    if "trace s0 = trace s @ ys @ [PostNotification url body r]" "posts ys = []" "retryable r" for s0 ys r
    by (rule wp_mono [OF Suc.IH]) (use that attempts_ok_step in force)
  have one: "attempts_ok (Suc n) (Rejected code) [Some code]" if "400 \<le> code" "code < 500" for code
    using that by (auto simp: attempts_ok_def)
  have two: "attempts_ok (Suc n) (Sent code) [Some code]" if "code < 400" for code
    using that by (auto simp: attempts_ok_def)
  show ?case
    by (auto simp: wp_simps wait_backoff_def retryable_def attempts_ok_zero one two
        intro: step [of _ "[]"] step [of _ "[Backoff (backoff (notifyMaxRetries - Suc n))]"]
        split: prod.splits option.splits)
qed

text \<open>
  C30.  However the endpoint and the context behave, a delivery makes at most three
  requests; it goes on after a transport error or a server error only, so every request but the
  last was answered that way; it gives up exactly after three such failures; and a client error
  or a success ends it at once.
\<close>

theorem sendNotification_retries:
  "case run_state (sendNotification k url payload) s of (out, s') \<Rightarrow>
     \<exists>xs. trace s' = trace s @ xs \<and> attempts_ok 3 out (posts xs)"
proof -
  have "wp (sendNotification k url payload)
      (\<lambda>out s'. \<exists>xs. trace s' = trace s @ xs \<and> attempts_ok 3 out (posts xs)) s"
    using send_attempts_ok [of k url _ 3 s]
    by (auto simp: sendNotification_def notifyMaxRetries_def wp_simps attempts_ok_zero split: option.splits)
  then show ?thesis by (simp add: wp_def)
qed

fun short_pause :: "effect \<Rightarrow> bool" where
  "short_pause (Backoff d) = (d = Second \<or> d = 2 * Second)"
| "short_pause _ = True"

lemma emits_send_attempts: "n \<le> 3 \<Longrightarrow> emits short_pause (send_attempts k url body n)"
proof (induction n)
  case (Suc n)
  have b: "backoff (Suc 0) = Second" "backoff (Suc (Suc 0)) = 2 * Second" by (simp_all add: backoff_def)
  from Suc have "n = 0 \<or> n = 1 \<or> n = 2" by auto
  with Suc show ?case
    by (auto simp: wait_backoff_def notifyMaxRetries_def b numeral_2_eq_2 intro!: emits_intros)
qed (simp add: emits_intros)

text \<open>
  The pauses of a delivery are one second before the second attempt and two
  seconds before the third; the pause of four seconds that the comment and the changelog name
  never happens, because the third failure ends the loop.
\<close>

theorem sendNotification_pauses: "emits short_pause (sendNotification k url payload)"
  by (auto simp: sendNotification_def notifyMaxRetries_def
      intro!: emits_intros emits_send_attempts)

end
