(* ===== verification/Status.thy ===== *)
theory Status
  imports Notify
begin

text \<open>
  The status of a \<open>WorkloadDependency\<close>, from \<^verbatim>\<open>workloaddependency_controller.go\<close>: \<open>setCondition\<close>,
  \<open>setStatus\<close> with its retry on conflict, and the two timing windows.  The lemmas say what is
  written to the API server: the phase and message asked for, a suspension time exactly in phase
  \<open>Suspended\<close>, and the caller's saved replicas and timestamps even when the object has to be read
  again after a conflict.
\<close>

section \<open>Conditions\<close>

fun condSpec :: "DependencyPhase \<Rightarrow> (string \<times> ConditionStatus \<times> string) option" where
  "condSpec PhaseHealthy = Some (''Ready'', ConditionTrue, ''DependenciesHealthy'')"
| "condSpec PhaseDegraded = Some (''Ready'', ConditionFalse, ''DependencyDegraded'')"
| "condSpec PhaseSuspended = Some (''Ready'', ConditionFalse, ''DependentSuspended'')"
| "condSpec PhasePaused = Some (''Ready'', ConditionUnknown, ''Paused'')"
| "condSpec PhaseUnknown = Some (''Ready'', ConditionUnknown, ''DependentNotFound'')"
| "condSpec _ = None"

definition new_condition ::
  "gotime \<Rightarrow> int64 \<Rightarrow> string \<Rightarrow> string \<Rightarrow> ConditionStatus \<Rightarrow> string \<Rightarrow> Condition" where
  "new_condition now gen msg condType status reason =
    \<lparr>cond_Type = condType, cond_Status = status, cond_Reason = reason, cond_Message = msg,
     cond_LastTransitionTime = now, cond_ObservedGeneration = gen\<rparr>"

text \<open>The search for a condition of the type, and the append when there is none.\<close>

fun put_condition ::
  "gotime \<Rightarrow> int64 \<Rightarrow> string \<Rightarrow> string \<Rightarrow> ConditionStatus \<Rightarrow> string \<Rightarrow> Condition list \<Rightarrow> Condition list" where
  "put_condition now gen msg condType status reason [] =
     [new_condition now gen msg condType status reason]"
| "put_condition now gen msg condType status reason (c # cs) =
     (if cond_Type c = condType then
        (if cond_Status c = status \<and> cond_Reason c = reason
         then c\<lparr>cond_Message := msg, cond_ObservedGeneration := gen\<rparr> # cs
         else new_condition now gen msg condType status reason # cs)
      else c # put_condition now gen msg condType status reason cs)"

definition set_condition_at ::
  "gotime \<Rightarrow> DependencyPhase \<Rightarrow> string \<Rightarrow> WorkloadDependency \<Rightarrow> WorkloadDependency" where
  "set_condition_at now phase msg wd =
     (case condSpec phase of
        None \<Rightarrow> wd
      | Some (condType, status, reason) \<Rightarrow>
          upd_status (\<lambda>s. s\<lparr>Conditions :=
            put_condition now (meta_Generation (wd_Meta wd)) msg condType status reason (Conditions s)\<rparr>) wd)"

definition setCondition ::
  "'e kube \<Rightarrow> WorkloadDependency \<Rightarrow> DependencyPhase \<Rightarrow> string \<Rightarrow> ('e, WorkloadDependency) go" where
  "setCondition k wd phase msg = do {
     now \<leftarrow> metav1_Now k;
     return (set_condition_at now phase msg wd) }"

section \<open>Writing the status\<close>

text \<open>The fields \<open>setStatus\<close> takes a snapshot of before it changes anything.\<close>

record snapshot =
  snap_saved :: "int32 option"
  snap_degraded :: "gotime option"
  snap_healthy :: "gotime option"

definition take_snapshot :: "WorkloadDependency \<Rightarrow> snapshot" where
  "take_snapshot wd =
    \<lparr>snap_saved = SavedReplicas (wd_Status wd), snap_degraded = DegradedSince (wd_Status wd),
     snap_healthy = HealthySince (wd_Status wd)\<rparr>"

definition or_keep :: "'a option \<Rightarrow> 'a option \<Rightarrow> 'a option" where
  "or_keep x y = (case x of None \<Rightarrow> y | Some _ \<Rightarrow> x)"

definition restore_snapshot ::
  "snapshot \<Rightarrow> DependencyPhase \<Rightarrow> string \<Rightarrow> WorkloadDependencyStatus \<Rightarrow> WorkloadDependencyStatus" where
  "restore_snapshot sn phase msg s =
     s\<lparr>Phase := phase, st_Message := msg,
       SavedReplicas := or_keep (snap_saved sn) (SavedReplicas s),
       DegradedSince := or_keep (snap_degraded sn) (DegradedSince s),
       HealthySince := or_keep (snap_healthy sn) (HealthySince s)\<rparr>"

definition stamp_suspended :: "'e kube \<Rightarrow> DependencyPhase \<Rightarrow> WorkloadDependency \<Rightarrow> ('e, WorkloadDependency) go" where
  "stamp_suspended k phase wd =
     (if phase = PhaseSuspended then
        (if SuspendedAt (wd_Status wd) = None then do {
           now \<leftarrow> metav1_Now k;
           return (upd_status (\<lambda>s. s\<lparr>SuspendedAt := Some now\<rparr>) wd) }
         else return wd)
      else return (upd_status (\<lambda>s. s\<lparr>SuspendedAt := None\<rparr>) wd))"

definition applyFields ::
  "'e kube \<Rightarrow> snapshot \<Rightarrow> DependencyPhase \<Rightarrow> string \<Rightarrow> WorkloadDependency \<Rightarrow> ('e, WorkloadDependency) go" where
  "applyFields k sn phase msg wd = do {
     wd \<leftarrow> stamp_suspended k phase wd;
     setCondition k (upd_status (restore_snapshot sn phase msg) wd) phase msg }"

text \<open>The outcome of the update loop: the stored object, an error to return, or no retries left.\<close>

datatype update_outcome = Stored WorkloadDependency | UpdateFailed api_error | Exhausted

definition maxRetries :: nat where
  "maxRetries = 3"

fun update_loop ::
  "'e kube \<Rightarrow> snapshot \<Rightarrow> DependencyPhase \<Rightarrow> string \<Rightarrow> nat \<Rightarrow> WorkloadDependency \<Rightarrow> ('e, update_outcome) go" where
  "update_loop k sn phase msg 0 wd = return Exhausted"
| "update_loop k sn phase msg (Suc n) wd = do {
     r \<leftarrow> r_StatusUpdate k wd;
     case r of
       Inr wd' \<Rightarrow> return (Stored wd')
     | Inl err \<Rightarrow>
         if err \<noteq> Conflict then do {
           update_metrics (recordReconcileError (wd_Namespace wd) ''status_update'');
           return (UpdateFailed err) }
         else do {
           g \<leftarrow> outside (k_GetWD k (wd_key wd));
           case g of
             Inl getErr \<Rightarrow> return (UpdateFailed getErr)
           | Inr latest \<Rightarrow> do {
               wd \<leftarrow> applyFields k sn phase msg latest;
               update_loop k sn phase msg n wd } } }"

definition setStatus ::
  "'e kube \<Rightarrow> WorkloadDependency \<Rightarrow> DependencyPhase \<Rightarrow> string \<Rightarrow> Result option \<Rightarrow> ('e, reconcile_result) go" where
  "setStatus k wd phase msg result =
     (let sn = take_snapshot wd; prevPhase = wd_Phase wd in do {
        wd \<leftarrow> applyFields k sn phase msg wd;
        out \<leftarrow> update_loop k sn phase msg maxRetries wd;
        case out of
          UpdateFailed err \<Rightarrow> return (emptyResult, Some err)
        | Exhausted \<Rightarrow> return (requeueNow, None)
        | Stored wd \<Rightarrow> do {
            update_metrics (recordPhase (wd_Namespace wd) (wd_Name wd) (phase_string phase));
            (if prevPhase \<noteq> phase then maybeNotify k wd prevPhase phase else return ());
            return (case result of Some r \<Rightarrow> r | None \<Rightarrow> requeueAfter (15 * Second), None) } })"

section \<open>The timing windows\<close>

fun first_positive :: "('a \<Rightarrow> duration) \<Rightarrow> duration \<Rightarrow> 'a list \<Rightarrow> duration" where
  "first_positive f fallback [] = fallback"
| "first_positive f fallback (x # xs) = (if 0 <s f x then f x else first_positive f fallback xs)"

definition degradedWindow :: "WorkloadDependency \<Rightarrow> duration" where
  "degradedWindow wd =
     first_positive (\<lambda>dep. Window (dep_Condition dep)) (30 * Second) (DependsOn (wd_Spec wd))"

definition recoveryWindow :: "WorkloadDependency \<Rightarrow> duration" where
  "recoveryWindow wd =
     first_positive (\<lambda>dep. RecoveryWindow (dep_Condition dep)) (60 * Second) (DependsOn (wd_Spec wd))"

section \<open>Properties of conditions\<close>

lemma put_condition_types:
  "cond_Type ` set (put_condition now gen msg t st reason cs) = insert t (cond_Type ` set cs)"
  by (induction cs) (auto simp: new_condition_def)

lemma put_condition_distinct:
  "distinct (map cond_Type cs) \<Longrightarrow> distinct (map cond_Type (put_condition now gen msg t st reason cs))"
proof (induction cs)
  case (Cons c cs)
  then show ?case
    using put_condition_types [of now gen msg t st reason cs]
    by (auto simp: new_condition_def image_iff)
qed (simp add: new_condition_def)

lemma put_condition_other:
  "t' \<noteq> t \<Longrightarrow> filter (\<lambda>c. cond_Type c = t') (put_condition now gen msg t st reason cs) =
     filter (\<lambda>c. cond_Type c = t') cs"
  by (induction cs) (auto simp: new_condition_def)

lemma put_condition_find:
  "find (\<lambda>c. cond_Type c = t) (put_condition now gen msg t st reason cs) =
     Some (case find (\<lambda>c. cond_Type c = t) cs of
             None \<Rightarrow> new_condition now gen msg t st reason
           | Some c \<Rightarrow>
               if cond_Status c = st \<and> cond_Reason c = reason
               then c\<lparr>cond_Message := msg, cond_ObservedGeneration := gen\<rparr>
               else new_condition now gen msg t st reason)"
  by (induction cs) (auto simp: new_condition_def)

lemma set_condition_at_frame [simp]:
  "wd_Meta (set_condition_at now phase msg wd) = wd_Meta wd"
  "wd_Spec (set_condition_at now phase msg wd) = wd_Spec wd"
  "Phase (wd_Status (set_condition_at now phase msg wd)) = wd_Phase wd"
  "SavedReplicas (wd_Status (set_condition_at now phase msg wd)) = SavedReplicas (wd_Status wd)"
  "DegradedSince (wd_Status (set_condition_at now phase msg wd)) = DegradedSince (wd_Status wd)"
  "SuspendedAt (wd_Status (set_condition_at now phase msg wd)) = SuspendedAt (wd_Status wd)"
  "HealthySince (wd_Status (set_condition_at now phase msg wd)) = HealthySince (wd_Status wd)"
  "st_Message (wd_Status (set_condition_at now phase msg wd)) = st_Message (wd_Status wd)"
  by (simp_all add: set_condition_at_def split: option.splits prod.splits)

text \<open>
  C27.  Setting the condition of a phase keeps the condition types distinct (the list is
  a map keyed by type), leaves conditions of other types alone, and moves the transition time of
  the \<open>Ready\<close> condition only when its status or reason changes.
\<close>

theorem setCondition_spec:
  assumes "distinct (map cond_Type (Conditions (wd_Status wd)))"
    and "condSpec phase = Some (condType, status, reason)"
  shows "distinct (map cond_Type (Conditions (wd_Status (set_condition_at now phase msg wd)))) \<and>
         (\<forall>t. t \<noteq> condType \<longrightarrow>
            filter (\<lambda>c. cond_Type c = t) (Conditions (wd_Status (set_condition_at now phase msg wd))) =
            filter (\<lambda>c. cond_Type c = t) (Conditions (wd_Status wd))) \<and>
         (\<exists>c. find (\<lambda>c. cond_Type c = condType) (Conditions (wd_Status (set_condition_at now phase msg wd))) = Some c \<and>
              cond_Status c = status \<and> cond_Reason c = reason \<and> cond_Message c = msg \<and>
              cond_ObservedGeneration c = meta_Generation (wd_Meta wd) \<and>
              cond_LastTransitionTime c =
                (case find (\<lambda>c. cond_Type c = condType) (Conditions (wd_Status wd)) of
                   Some old \<Rightarrow> if cond_Status old = status \<and> cond_Reason old = reason
                               then cond_LastTransitionTime old else now
                 | None \<Rightarrow> now))"
  using assms
  by (auto simp: set_condition_at_def put_condition_distinct put_condition_other put_condition_find
      new_condition_def split: option.splits)

theorem setCondition_spec_witness:
  "Conditions (wd_Status (set_condition_at 9 PhaseDegraded ''m''
     (set_condition_at 5 PhaseDegraded ''l'' (sample_wd ''w'' ''a'' [''b''] ModeStrict)))) =
   [new_condition 5 1 ''m'' ''Ready'' ConditionFalse ''DependencyDegraded'']"
  using setCondition_spec [of "set_condition_at 5 PhaseDegraded ''l'' (sample_wd ''w'' ''a'' [''b''] ModeStrict)"
      PhaseDegraded "''Ready''" ConditionFalse "''DependencyDegraded''" 9 "''m''"]
  by (simp add: set_condition_at_def sample_defs new_condition_def)

section \<open>Properties of the written status\<close>

text \<open>What a status submitted by \<open>setStatus\<close> looks like, given the caller's snapshot.\<close>

definition status_ok :: "snapshot \<Rightarrow> DependencyPhase \<Rightarrow> string \<Rightarrow> WorkloadDependencyStatus \<Rightarrow> bool" where
  "status_ok sn phase msg s \<longleftrightarrow>
     Phase s = phase \<and> st_Message s = msg \<and>
     (SuspendedAt s \<noteq> None \<longleftrightarrow> phase = PhaseSuspended) \<and>
     (snap_saved sn \<noteq> None \<longrightarrow> SavedReplicas s = snap_saved sn) \<and>
     (snap_degraded sn \<noteq> None \<longrightarrow> DegradedSince s = snap_degraded sn) \<and>
     (snap_healthy sn \<noteq> None \<longrightarrow> HealthySince s = snap_healthy sn)"

text \<open>The actions of \<open>setStatus\<close>: status updates of that shape and at most a notification.\<close>

fun status_effect :: "snapshot \<Rightarrow> DependencyPhase \<Rightarrow> string \<Rightarrow> effect \<Rightarrow> bool" where
  "status_effect sn phase msg (UpdateStatusWD wd r) = status_ok sn phase msg (wd_Status wd)"
| "status_effect sn phase msg (SpawnNotification url p) = True"
| "status_effect sn phase msg _ = False"

lemma or_keep_simps [simp]: "or_keep None y = y" "or_keep (Some x) y = Some x"
  by (simp_all add: or_keep_def)

lemma or_keep_Some: "x \<noteq> None \<Longrightarrow> or_keep x y = x"
  by (auto simp: or_keep_def)

lemma emits_applyFields [emits_intros]: "emits P (applyFields k sn phase msg wd)"
  unfolding applyFields_def stamp_suspended_def setCondition_def by (intro emits_intros)

lemma yields_applyFields:
  "yields (applyFields k sn phase msg wd) (\<lambda>wd'. status_ok sn phase msg (wd_Status wd'))"
proof -
  have "yields (stamp_suspended k phase wd)
      (\<lambda>w. SuspendedAt (wd_Status w) \<noteq> None \<longleftrightarrow> phase = PhaseSuspended)"
    unfolding stamp_suspended_def
    by (auto intro!: yields_return yields_bind [OF yields_any])
  then show ?thesis
    unfolding applyFields_def setCondition_def
    by (auto intro!: yields_return yields_bind [OF yields_any] elim!: yields_bind
        simp: status_ok_def restore_snapshot_def or_keep_Some)
qed

lemma emits_update_loop:
  "status_ok sn phase msg (wd_Status wd) \<Longrightarrow>
     emits (status_effect sn phase msg) (update_loop k sn phase msg n wd)"
proof (induction n arbitrary: wd)
  case (Suc n)
  show ?case
    using Suc.prems
    by (auto intro!: emits_intros emits_bind_yields [OF emits_applyFields yields_applyFields] Suc.IH)
qed (simp add: emits_intros)

lemma emits_setStatus:
  "emits (status_effect (take_snapshot wd) phase msg) (setStatus k wd phase msg result)"
  unfolding setStatus_def Let_def
  by (rule emits_bind_yields [OF emits_applyFields yields_applyFields])
     (auto intro!: emits_intros emits_bind [OF emits_update_loop] split: update_outcome.splits)

section \<open>Holding a state for a window\<close>

text \<open>
  The contract of the two windows that the handlers rely on: a window is positive.  While it is
  open the reconciler asks to be called again after the remaining time plus one second; the
  lemmas say that this never wraps, is positive, and is late enough for the window to be over.
\<close>

lemma first_positive_pos: "0 <s fallback \<Longrightarrow> 0 <s first_positive f fallback xs"
  by (induction xs) auto

lemma remaining_sint:
  assumes "0 \<le>s elapsed" and "elapsed <s d" and "sint d < 2 ^ 63 - 1000000000"
  shows "sint (d - elapsed + Second) = sint d - sint elapsed + 1000000000"
proof -
  have e: "0 \<le> sint elapsed" "sint elapsed < sint d"
    using assms(1,2) by (simp_all add: word_sle_eq word_sless_alt)
  have diff: "sint (d - elapsed) = sint d - sint elapsed"
    by (rule sint_diff_no_wrap) (use e assms(3) in auto)
  show ?thesis
    using sint_add_no_wrap [of "d - elapsed" Second] e assms(3)
    by (simp add: diff sint_Second)
qed

lemma wakes_after:
  assumes "sub_time t since <s d" and "since \<le> t" and "sint d < 2 ^ 63 - 1000000000"
    and "t + sint (d - sub_time t since + Second) \<le> t'"
  shows "d \<le>s sub_time t' since"
proof -
  have el: "sint (sub_time t since) = t - since"
    using assms(1,2,3) by (simp add: sint_sub_time word_sless_alt int64_bounds)
  have "0 \<le>s sub_time t since" using el assms(2) by (simp add: word_sle_eq)
  from remaining_sint [OF this assms(1,3)] el assms(4)
  have "sint d \<le> t' - since" by linarith
  then show ?thesis
    using sint_range_64 [of d] by (simp add: word_sle_eq sint_sub_time int64_bounds min_def)
qed

locale hold_window =
  fixes window :: "'w \<Rightarrow> duration"
  assumes window_pos: "0 <s window w"
begin

lemma holds_at_start: "sub_time t t <s window w"
  using window_pos [of w] by (simp add: word_sless_alt sint_sub_time int64_bounds)

lemma remaining_pos:
  assumes "0 \<le>s elapsed" and "elapsed <s window w" and "sint (window w) < 2 ^ 63 - 1000000000"
  shows "Second <s window w - elapsed + Second"
  using remaining_sint [OF assms] assms(2) by (simp add: word_sless_alt sint_Second)

lemma over_when_woken:
  assumes "sub_time t since <s window w" and "since \<le> t" and "sint (window w) < 2 ^ 63 - 1000000000"
    and "t + sint (window w - sub_time t since + Second) \<le> t'"
  shows "\<not> sub_time t' since <s window w"
  using wakes_after [OF assms] by (simp add: word_sle_eq word_sless_alt)

end

interpretation deg: hold_window degradedWindow
  by unfold_locales (simp only: degradedWindow_def, rule first_positive_pos, simp add: word_sless_alt Second_def)

interpretation rec: hold_window recoveryWindow
  by unfold_locales (simp only: recoveryWindow_def, rule first_positive_pos, simp add: word_sless_alt Second_def)

end
