(* ===== verification/Controller.thy ===== *)
theory Controller
  imports Cycles Status
begin

text \<open>
  \<^verbatim>\<open>internal/controller/workloaddependency_controller.go\<close>: the reconciler.  One definition per
  method, in the order of the file, each with all its branches, API calls, events and metric
  updates; logging is left out.  A method that mutates the object it is given returns the new
  value beside its result.
\<close>

section \<open>Reading workloads and their health\<close>

definition getRollout :: "'e kube \<Rightarrow> string \<Rightarrow> string \<Rightarrow> ('e, api_error + workloadAccessor) go" where
  "getRollout k name ns = do {
     r \<leftarrow> outside (k_GetRollout k \<lparr>nn_Namespace = ns, nn_Name = name\<rparr>);
     return (map_sum id RolloutAccessor r) }"

definition getWorkload ::
  "'e kube \<Rightarrow> string \<Rightarrow> string \<Rightarrow> string \<Rightarrow> ('e, api_error + workloadAccessor) go" where
  "getWorkload k kind name ns =
     (let key = \<lparr>nn_Namespace = ns, nn_Name = name\<rparr> in
      if kind = ''StatefulSet'' then do {
        r \<leftarrow> outside (k_GetStatefulSet k key);
        return (map_sum id StatefulSetAccessor r) }
      else if kind = ''CronJob'' then do {
        r \<leftarrow> outside (k_GetCronJob k key);
        return (map_sum id CronJobAccessor r) }
      else if kind = ''Rollout'' then getRollout k name ns
      else do {
        r \<leftarrow> outside (k_GetDeployment k key);
        return (map_sum id DeploymentAccessor r) })"

definition isSuspendedByKlink :: "'e kube \<Rightarrow> string \<Rightarrow> string \<Rightarrow> ('e, api_error + bool) go" where
  "isSuspendedByKlink k name ns = do {
     r \<leftarrow> outside (k_ListWD k (MatchingFields indexDependentName (index_key ns name)));
     case r of
       Inl err \<Rightarrow> return (Inl err)
     | Inr items \<Rightarrow> return (Inr (\<exists>wd \<in> set items. wd_Phase wd = PhaseSuspended)) }"

datatype depHealthStatus = depHealthy | depCoSuspended | depUnhealthy

text \<open>The answer for a workload that is down: suspended by klink, or unhealthy.\<close>

definition suspended_or_unhealthy ::
  "'e kube \<Rightarrow> string \<Rightarrow> string \<Rightarrow> ('e, api_error + depHealthStatus) go" where
  "suspended_or_unhealthy k name ns = do {
     r \<leftarrow> isSuspendedByKlink k name ns;
     case r of
       Inl err \<Rightarrow> return (Inl err)
     | Inr suspended \<Rightarrow> return (Inr (if suspended then depCoSuspended else depUnhealthy)) }"

definition min_percent :: "HealthCondition \<Rightarrow> int32" where
  "min_percent cond = (if MinReadyPercent cond = 0 then 100 else MinReadyPercent cond)"

fun ready_replicas :: "workloadAccessor \<Rightarrow> int32" where
  "ready_replicas (DeploymentAccessor d) = d_ReadyReplicas d"
| "ready_replicas (StatefulSetAccessor s) = s_ReadyReplicas s"
| "ready_replicas _ = 0"

definition depStatus ::
  "'e kube \<Rightarrow> workloadAccessor \<Rightarrow> HealthCondition \<Rightarrow> string \<Rightarrow> ('e, api_error + depHealthStatus) go" where
  "depStatus k w cond ns =
     (case w of
        RolloutAccessor ro \<Rightarrow>
          if rollout_isHealthyAsDependency k ro then return (Inr depHealthy)
          else suspended_or_unhealthy k (getName w) ns
      | CronJobAccessor cj \<Rightarrow>
          if cronJob_isSuspended cj then suspended_or_unhealthy k (getName w) ns
          else return (Inr depHealthy)
      | _ \<Rightarrow>
          if getReplicas k w = 0 then suspended_or_unhealthy k (getName w) ns
          else if min_percent cond \<le>s ready_percent (float_to_int32 k) (ready_replicas w) (getReplicas k w)
          then return (Inr depHealthy)
          else return (Inr depUnhealthy))"

section \<open>Suspending and restoring a workload\<close>

text \<open>
  The branches for deployments, stateful sets and rollouts differ in the label of the metric and
  in the event's text only.
\<close>

definition scale_down ::
  "'e kube \<Rightarrow> WorkloadDependency \<Rightarrow> workloadAccessor \<Rightarrow> string \<Rightarrow> string \<Rightarrow> (string \<Rightarrow> int32 \<Rightarrow> fmt_arg list)
     \<Rightarrow> ('e, api_error option \<times> WorkloadDependency \<times> workloadAccessor) go" where
  "scale_down k wd w label fmt args =
     (let replicas = getReplicas k w in
      if replicas = 0 then return (None, wd, w)
      else let wd = upd_status (\<lambda>s. s\<lparr>SavedReplicas := Some replicas\<rparr>) wd;
               obj = setReplicas k 0 w
      in do {
        r \<leftarrow> r_Patch k w obj;
        case r of
          Inl err \<Rightarrow> return (Some err, wd, obj)
        | Inr obj \<Rightarrow> do {
            emit (Eventf EventTypeWarning ''ScaledToZero'' fmt (args (getName obj) replicas));
            update_metrics (recordScaleToZero (wd_Namespace wd) label (getName obj));
            return (None, wd, obj) } })"

definition suspendWorkload ::
  "'e kube \<Rightarrow> WorkloadDependency \<Rightarrow> workloadAccessor \<Rightarrow> string
     \<Rightarrow> ('e, api_error option \<times> WorkloadDependency \<times> workloadAccessor) go" where
  "suspendWorkload k wd w msg =
     (let kind = ref_Kind (Dependent (wd_Spec wd));
          fmt = ''Scaled %s %s to 0 (saved %d replicas): %s'';
          args = (\<lambda>name saved. [FStr kind, FStr name, FInt (sint saved), FStr msg]) in
      case w of
        CronJobAccessor cj \<Rightarrow>
          if cronJob_isSuspended cj then return (None, wd, w)
          else let obj = setSuspend True w in do {
            r \<leftarrow> r_Patch k w obj;
            case r of
              Inl err \<Rightarrow> return (Some err, wd, obj)
            | Inr obj \<Rightarrow> do {
                emit (Eventf EventTypeWarning ''CronJobSuspended'' ''Suspended CronJob %s: %s''
                  [FStr (getName obj), FStr msg]);
                update_metrics (recordScaleToZero (wd_Namespace wd) ''CronJob'' (getName obj));
                return (None, wd, obj) } }
      | DeploymentAccessor _ \<Rightarrow> scale_down k wd w ''Deployment'' fmt args
      | StatefulSetAccessor _ \<Rightarrow> scale_down k wd w ''StatefulSet'' fmt args
      | RolloutAccessor _ \<Rightarrow>
          scale_down k wd w ''Rollout'' ''Scaled Rollout %s to 0 (saved %d replicas): %s''
            (\<lambda>name saved. [FStr name, FInt (sint saved), FStr msg]))"

definition scale_up ::
  "'e kube \<Rightarrow> WorkloadDependency \<Rightarrow> workloadAccessor \<Rightarrow> string \<Rightarrow> string \<Rightarrow> (string \<Rightarrow> int32 \<Rightarrow> fmt_arg list)
     \<Rightarrow> ('e, api_error option) go" where
  "scale_up k wd w label fmt args =
     (case SavedReplicas (wd_Status wd) of
        None \<Rightarrow> return None
      | Some replicas \<Rightarrow>
          if replicas = 0 then return None
          else let obj = setReplicas k replicas w in do {
            r \<leftarrow> r_Patch k w obj;
            case r of
              Inl err \<Rightarrow> return (Some err)
            | Inr obj \<Rightarrow> do {
                emit (Eventf EventTypeNormal ''ReplicasRestored'' fmt (args (getName obj) replicas));
                update_metrics (recordReplicasRestored (wd_Namespace wd) label (getName obj));
                return None } })"

definition restoreWorkload ::
  "'e kube \<Rightarrow> WorkloadDependency \<Rightarrow> workloadAccessor \<Rightarrow> ('e, api_error option) go" where
  "restoreWorkload k wd w =
     (let kind = ref_Kind (Dependent (wd_Spec wd));
          fmt = ''Restored %s %s to %d replicas after dependency recovery'';
          args = (\<lambda>name replicas. [FStr kind, FStr name, FInt (sint replicas)]) in
      case w of
        CronJobAccessor cj \<Rightarrow>
          if \<not> cronJob_isSuspended cj then return None
          else let obj = setSuspend False w in do {
            r \<leftarrow> r_Patch k w obj;
            case r of
              Inl err \<Rightarrow> return (Some err)
            | Inr obj \<Rightarrow> do {
                emit (Eventf EventTypeNormal ''CronJobResumed''
                  ''Resumed CronJob %s after dependency recovery'' [FStr (getName obj)]);
                update_metrics (recordReplicasRestored (wd_Namespace wd) ''CronJob'' (getName obj));
                return None } }
      | DeploymentAccessor _ \<Rightarrow> scale_up k wd w ''Deployment'' fmt args
      | StatefulSetAccessor _ \<Rightarrow> scale_up k wd w ''StatefulSet'' fmt args
      | RolloutAccessor _ \<Rightarrow>
          scale_up k wd w ''Rollout'' ''Restored Rollout %s to %d replicas after dependency recovery''
            (\<lambda>name replicas. [FStr name, FInt (sint replicas)]))"

section \<open>The handlers\<close>

definition handleDegraded ::
  "'e kube \<Rightarrow> WorkloadDependency \<Rightarrow> workloadAccessor \<Rightarrow> string \<Rightarrow> gotime \<Rightarrow> ('e, reconcile_result) go" where
  "handleDegraded k wd target msg now =
     (case DegradedSince (wd_Status wd) of
        None \<Rightarrow>
          let wd = upd_status (\<lambda>s. s\<lparr>DegradedSince := Some now, HealthySince := None\<rparr>) wd
          in setStatus k wd PhaseDegraded msg (Some (requeueAfter (degradedWindow wd)))
      | Some since \<Rightarrow>
          let window = degradedWindow wd in do {
            elapsed \<leftarrow> time_Since k since;
            if elapsed <s window then do {
              elapsed \<leftarrow> time_Since k since;
              let remaining = window - elapsed;
              return (requeueAfter (remaining + Second), None) }
            else do {
              (err, wd, _) \<leftarrow> suspendWorkload k wd target msg;
              case err of
                Some err \<Rightarrow> return (emptyResult, Some err)
              | None \<Rightarrow> setStatus k wd PhaseSuspended msg (Some (requeueAfter (15 * Second))) } })"

definition needsEnforce :: "'e kube \<Rightarrow> workloadAccessor \<Rightarrow> bool" where
  "needsEnforce k target =
     (case target of
        CronJobAccessor cj \<Rightarrow> \<not> cronJob_isSuspended cj
      | _ \<Rightarrow> 0 <s getReplicas k target)"

definition handleSuspended ::
  "'e kube \<Rightarrow> WorkloadDependency \<Rightarrow> workloadAccessor \<Rightarrow> string \<Rightarrow> ('e, reconcile_result) go" where
  "handleSuspended k wd target msg =
     (if Mode (wd_Spec wd) = ModeStrict then
        if is_progressing_rollout k target
        then setStatus k wd PhaseSuspended msg (Some (requeueAfter (15 * Second)))
        else if needsEnforce k target then do {
          (err, wd, target) \<leftarrow> suspendWorkload k wd target msg;
          case err of
            Some err \<Rightarrow> return (emptyResult, Some err)
          | None \<Rightarrow> do {
              emit (Eventf EventTypeWarning ''StrictEnforced''
                ''Re-enforced suspension on %s %s (strict mode): dependency still unhealthy''
                [FStr (ref_Kind (Dependent (wd_Spec wd))), FStr (getName target)]);
              setStatus k wd PhaseSuspended msg (Some (requeueAfter (15 * Second))) } }
        else setStatus k wd PhaseSuspended msg (Some (requeueAfter (15 * Second)))
      else setStatus k wd PhaseSuspended msg (Some (requeueAfter (15 * Second))))"

definition handleHealthy ::
  "'e kube \<Rightarrow> WorkloadDependency \<Rightarrow> workloadAccessor \<Rightarrow> gotime \<Rightarrow> ('e, reconcile_result) go" where
  "handleHealthy k wd target now =
     (let wd = upd_status (\<lambda>s. s\<lparr>DegradedSince := None\<rparr>) wd in
      if wd_Phase wd \<noteq> PhaseSuspended then
        setStatus k (upd_status (\<lambda>s. s\<lparr>HealthySince := None\<rparr>) wd)
          PhaseHealthy ''all dependencies healthy'' None
      else case HealthySince (wd_Status wd) of
        None \<Rightarrow>
          let wd = upd_status (\<lambda>s. s\<lparr>HealthySince := Some now\<rparr>) wd
          in setStatus k wd PhaseSuspended ''dependencies recovered, waiting recovery window''
               (Some (requeueAfter (recoveryWindow wd)))
      | Some since \<Rightarrow>
          let window = recoveryWindow wd in do {
            elapsed \<leftarrow> time_Since k since;
            if elapsed <s window then do {
              elapsed \<leftarrow> time_Since k since;
              let remaining = window - elapsed;
              return (requeueAfter (remaining + Second), None) }
            else do {
              err \<leftarrow> restoreWorkload k wd target;
              case err of
                Some err \<Rightarrow> return (emptyResult, Some err)
              | None \<Rightarrow>
                  setStatus k (upd_status (\<lambda>s. s\<lparr>SavedReplicas := None, HealthySince := None\<rparr>) wd)
                    PhaseHealthy ''all dependencies healthy'' None } })"

text \<open>\<^verbatim>\<open>handleDeletion\<close>: the part that decides whether the finalizer may go, then the removal.\<close>

definition restore_on_deletion :: "'e kube \<Rightarrow> WorkloadDependency \<Rightarrow> ('e, bool) go" where
  "restore_on_deletion k wd =
     (if wd_Phase wd = PhaseSuspended \<and>
         (case SavedReplicas (wd_Status wd) of None \<Rightarrow> False | Some n \<Rightarrow> 0 <s n) then do {
        r \<leftarrow> getWorkload k (ref_Kind (Dependent (wd_Spec wd))) (ref_Name (Dependent (wd_Spec wd))) (dependentNS wd);
        case r of
          Inl err \<Rightarrow> return (err = NotFound)
        | Inr target \<Rightarrow> do {
            err \<leftarrow> restoreWorkload k wd target;
            return (err = None) } }
      else return True)"

definition handleDeletion :: "'e kube \<Rightarrow> WorkloadDependency \<Rightarrow> ('e, reconcile_result) go" where
  "handleDeletion k wd = do {
     proceed \<leftarrow> restore_on_deletion k wd;
     if \<not> proceed then return (requeueAfter (5 * Second), None)
     else do {
       r \<leftarrow> r_Update k (wd\<lparr>wd_Meta := (wd_Meta wd)\<lparr>meta_Finalizers :=
              RemoveFinalizer k (meta_Finalizers (wd_Meta wd)) FinalizerName\<rparr>\<rparr>);
       case r of
         Inl err \<Rightarrow> return (emptyResult, Some err)
       | Inr _ \<Rightarrow> return (emptyResult, None) } }"

section \<open>The reconciliation loop\<close>

text \<open>
  The loop over \<^verbatim>\<open>wd.Spec.DependsOn\<close>: whether all are in order and the message of the last one
  that is not.  A missing workload ends the loop; another error ends the reconciliation.
\<close>

fun evalDependencies ::
  "'e kube \<Rightarrow> WorkloadDependency \<Rightarrow> DependsOnEntry list \<Rightarrow> bool \<Rightarrow> string \<Rightarrow> ('e, api_error + bool \<times> string) go" where
  "evalDependencies k wd [] allOk unhealthyMsg = return (Inr (allOk, unhealthyMsg))"
| "evalDependencies k wd (dep # deps) allOk unhealthyMsg =
     (let ns = namespace_or (dep_Namespace dep) (wd_Namespace wd) in do {
        r \<leftarrow> getWorkload k (dep_Kind dep) (dep_Name dep) ns;
        case r of
          Inl err \<Rightarrow>
            if err = NotFound
            then return (Inr (False, ''dependency '' @ dep_Kind dep @ ''/'' @ dep_Name dep @ '' not found''))
            else return (Inl err)
        | Inr w \<Rightarrow> do {
            st \<leftarrow> depStatus k w (dep_Condition dep) ns;
            case st of
              Inl err \<Rightarrow> return (Inl err)
            | Inr status \<Rightarrow>
                if status = depUnhealthy
                then evalDependencies k wd deps False
                       (''dependency '' @ dep_Kind dep @ '' '' @ dep_Name dep @ '' is not healthy'')
                else evalDependencies k wd deps allOk unhealthyMsg } })"

definition releasedMsg :: string where
  "releasedMsg = ''force-restored after maxSuspendDuration; waiting for dependency to recover''"

text \<open>The branch for a suspended dependent whose dependencies are still unhealthy.\<close>

definition stillSuspended ::
  "'e kube \<Rightarrow> WorkloadDependency \<Rightarrow> workloadAccessor \<Rightarrow> string \<Rightarrow> ('e, reconcile_result) go" where
  "stillSuspended k wd target unhealthyMsg =
     (let maxDur = MaxSuspendDuration (OnDegraded (wd_Spec wd)) in
      case (if 0 <s maxDur then SuspendedAt (wd_Status wd) else None) of
        Some suspendedAt \<Rightarrow> do {
          elapsed \<leftarrow> time_Since k suspendedAt;
          if maxDur \<le>s elapsed then do {
            emit (Eventf EventTypeWarning ''MaxSuspendDurationExceeded''
              (''Restoring %s after %s (maxSuspendDuration exceeded) '' @ em_dash @ '' dependency still unhealthy'')
              [FStr (ref_Name (Dependent (wd_Spec wd))), FDur maxDur]);
            err \<leftarrow> restoreWorkload k wd target;
            case err of
              Some err \<Rightarrow> return (emptyResult, Some err)
            | None \<Rightarrow>
                setStatus k (upd_status (\<lambda>s. s\<lparr>SavedReplicas := None, HealthySince := None\<rparr>) wd)
                  PhaseReleased releasedMsg None }
          else do {
            let remaining = maxDur - elapsed;
            return (requeueAfter (remaining + Second), None) } }
      | None \<Rightarrow> handleSuspended k wd target unhealthyMsg)"

text \<open>What \<open>Reconcile\<close> does once the health of the dependencies is known.\<close>

definition act ::
  "'e kube \<Rightarrow> WorkloadDependency \<Rightarrow> workloadAccessor \<Rightarrow> bool \<Rightarrow> string \<Rightarrow> gotime \<Rightarrow> ('e, reconcile_result) go" where
  "act k wd target allOk unhealthyMsg now =
     (if \<not> allOk \<and> is_progressing_rollout k target then
        setStatus k wd PhaseDegraded
          (''dependency unhealthy, action deferred '' @ em_dash @ '' rollout '' @ getName target @ '' is progressing'')
          (Some (requeueAfter (15 * Second)))
      else if Mode (wd_Spec wd) = ModeObserve then
        if allOk then setStatus k wd PhaseHealthy ''all dependencies healthy (observe mode)'' None
        else setStatus k wd PhaseObserved
          (''observe mode: would scale '' @ ref_Kind (Dependent (wd_Spec wd)) @ ''/'' @
             ref_Name (Dependent (wd_Spec wd)) @ '' to 0 '' @ em_dash @ '' '' @ unhealthyMsg) None
      else if Mode (wd_Spec wd) = ModeGate then
        if allOk then setStatus k wd PhaseHealthy ''all dependencies healthy'' None
        else setStatus k wd PhaseDegraded unhealthyMsg None
      else if wd_Phase wd = PhaseReleased then
        if allOk then handleHealthy k wd target now
        else setStatus k wd PhaseReleased releasedMsg (Some (requeueAfter (30 * Second)))
      else if \<not> allOk \<and> wd_Phase wd = PhaseSuspended then stillSuspended k wd target unhealthyMsg
      else if allOk then handleHealthy k wd target now
      else handleDegraded k wd target unhealthyMsg now)"

text \<open>The first reconciliation of an object: the check for cycles and the finalizer.\<close>

definition ensureFinalizer :: "'e kube \<Rightarrow> WorkloadDependency \<Rightarrow> ('e, reconcile_result) go" where
  "ensureFinalizer k wd = do {
     r \<leftarrow> DetectCycle k wd;
     case r of
       Inr (Some cycle) \<Rightarrow>
         let msg = ''dependency cycle detected: '' @ FormatCycle cycle in do {
           emit (Eventf EventTypeWarning ''CycleDetected'' msg []);
           setStatus k wd PhaseUnknown msg (Some emptyResult) }
     | _ \<Rightarrow> do {
         r \<leftarrow> r_Update k (wd\<lparr>wd_Meta := (wd_Meta wd)\<lparr>meta_Finalizers :=
                AddFinalizer k (meta_Finalizers (wd_Meta wd)) FinalizerName\<rparr>\<rparr>);
         case r of
           Inl err \<Rightarrow> return (emptyResult, Some err)
         | Inr _ \<Rightarrow> return (requeueNow, None) } }"

definition reconcileWorkloads :: "'e kube \<Rightarrow> WorkloadDependency \<Rightarrow> ('e, reconcile_result) go" where
  "reconcileWorkloads k wd =
     (let ref = Dependent (wd_Spec wd) in do {
        r \<leftarrow> getWorkload k (ref_Kind ref) (ref_Name ref) (dependentNS wd);
        case r of
          Inl err \<Rightarrow>
            if err = NotFound
            then setStatus k wd PhaseUnknown
                   (''dependent '' @ ref_Kind ref @ ''/'' @ ref_Name ref @ '' not found'') None
            else return (emptyResult, Some err)
        | Inr target \<Rightarrow> do {
            ev \<leftarrow> evalDependencies k wd (DependsOn (wd_Spec wd)) True [];
            case ev of
              Inl err \<Rightarrow> return (emptyResult, Some err)
            | Inr (allOk, unhealthyMsg) \<Rightarrow> do {
                now \<leftarrow> metav1_Now k;
                act k wd target allOk unhealthyMsg now } } })"

definition reconcileObject :: "'e kube \<Rightarrow> WorkloadDependency \<Rightarrow> ('e, reconcile_result) go" where
  "reconcileObject k wd =
     (if meta_DeletionTimestamp (wd_Meta wd) \<noteq> None then handleDeletion k wd
      else if \<not> ContainsFinalizer k (meta_Finalizers (wd_Meta wd)) FinalizerName then ensureFinalizer k wd
      else if meta_Annotations (wd_Meta wd) AnnotationPaused = Some ''true''
      then setStatus k wd PhasePaused ''manually paused via klink.dev/paused annotation'' None
      else reconcileWorkloads k wd)"

definition Reconcile :: "'e kube \<Rightarrow> NamespacedName \<Rightarrow> ('e, reconcile_result) go" where
  "Reconcile k req = do {
     r \<leftarrow> outside (k_GetWD k req);
     case r of
       Inl err \<Rightarrow> return (emptyResult, IgnoreNotFound err)
     | Inr wd \<Rightarrow> reconcileObject k wd }"

section \<open>Which actions the parts can take\<close>

lemma emits_case_accessor [emits_intros]:
  assumes "\<And>d. w = DeploymentAccessor d \<Longrightarrow> emits P (f d)"
    and "\<And>s. w = StatefulSetAccessor s \<Longrightarrow> emits P (g s)"
    and "\<And>c. w = CronJobAccessor c \<Longrightarrow> emits P (h c)"
    and "\<And>u. w = RolloutAccessor u \<Longrightarrow> emits P (i u)"
  shows "emits P (case w of DeploymentAccessor d \<Rightarrow> f d | StatefulSetAccessor s \<Rightarrow> g s
                  | CronJobAccessor c \<Rightarrow> h c | RolloutAccessor u \<Rightarrow> i u)"
  using assms by (cases w) simp_all

text \<open>Reading workloads and evaluating dependencies takes no visible action at all.\<close>

lemma emits_getWorkload [emits_intros]: "emits P (getWorkload k kind name ns)"
  unfolding getWorkload_def getRollout_def by (intro emits_intros)

lemma emits_suspended_or_unhealthy [emits_intros]: "emits P (suspended_or_unhealthy k name ns)"
  unfolding suspended_or_unhealthy_def isSuspendedByKlink_def by (intro emits_intros)

lemma emits_depStatus [emits_intros]: "emits P (depStatus k w cond ns)"
  unfolding depStatus_def by (intro emits_intros)

lemma emits_evalDependencies [emits_intros]: "emits P (evalDependencies k wd deps allOk msg)"
proof (induction deps arbitrary: allOk msg)
  case (Cons dep deps)
  then show ?case by (simp only: evalDependencies.simps Let_def) (intro emits_intros)
qed (simp add: emits_intros)

lemma emits_DetectCycle [emits_intros]: "emits P (DetectCycle k wd)"
  unfolding DetectCycle_def by (intro emits_intros)

lemma emits_setStatus_weaken [emits_intros]:
  assumes "\<And>wd' r. status_ok (take_snapshot wd) phase msg (wd_Status wd') \<Longrightarrow> P (UpdateStatusWD wd' r)"
    and "\<And>url p. P (SpawnNotification url p)"
  shows "emits P (setStatus k wd phase msg result)"
proof (rule emits_mono [OF emits_setStatus])
  fix x
  assume "status_effect (take_snapshot wd) phase msg x"
  with assms show "P x" by (cases x) simp_all
qed

fun no_patch :: "effect \<Rightarrow> bool" where
  "no_patch (PatchWorkload _ _ _) = False"
| "no_patch _ = True"

text \<open>The patches of a suspension and of a restoration, by the accessor's kind.\<close>

fun suspending :: "'e kube \<Rightarrow> workloadAccessor \<Rightarrow> workloadAccessor \<Rightarrow> bool" where
  "suspending k (CronJobAccessor cj) w \<longleftrightarrow>
     \<not> cronJob_isSuspended cj \<and> w = setSuspend True (CronJobAccessor cj)"
| "suspending k b w \<longleftrightarrow> getReplicas k b \<noteq> 0 \<and> w = setReplicas k 0 b"

fun restoring :: "'e kube \<Rightarrow> int32 option \<Rightarrow> workloadAccessor \<Rightarrow> workloadAccessor \<Rightarrow> bool" where
  "restoring k saved (CronJobAccessor cj) w \<longleftrightarrow>
     cronJob_isSuspended cj \<and> w = setSuspend False (CronJobAccessor cj)"
| "restoring k saved b w \<longleftrightarrow> saved \<noteq> None \<and> saved \<noteq> Some 0 \<and> w = setReplicas k (the saved) b"

lemma emits_suspendWorkload:
  assumes "\<And>w' r. suspending k w w' \<Longrightarrow> P (PatchWorkload w w' r)"
    and "\<And>reason fmt args. P (Eventf EventTypeWarning reason fmt args)"
  shows "emits P (suspendWorkload k wd w msg)"
  unfolding suspendWorkload_def scale_down_def Let_def
  by (intro emits_intros assms) auto

lemma emits_restoreWorkload:
  assumes "\<And>w' r. restoring k (SavedReplicas (wd_Status wd)) w w' \<Longrightarrow> P (PatchWorkload w w' r)"
    and "\<And>reason fmt args. P (Eventf EventTypeNormal reason fmt args)"
  shows "emits P (restoreWorkload k wd w)"
  unfolding restoreWorkload_def scale_up_def Let_def
  by (intro emits_intros assms) auto

lemma Reconcile_reads: "k_GetWD k req (env s) = (Inr wd, e) \<Longrightarrow>
    run_state (Reconcile k req) s = run_state (reconcileObject k wd) (s\<lparr>env := e\<rparr>)"
  by (simp add: Reconcile_def outside_def)

lemma Reconcile_effects:
  assumes "k_GetWD k req (env s) = (Inr wd, e)" and "emits P (reconcileObject k wd)"
  shows "list_all P (new_effects (Reconcile k req) s)"
  using emits_new_effects [OF assms(2), of "s\<lparr>env := e\<rparr>"]
  by (simp add: new_effects_def Reconcile_reads [OF assms(1)])

section \<open>When a workload is touched\<close>

text \<open>The conditions on the object read under which a reconciliation may patch its dependent.\<close>

definition active :: "'e kube \<Rightarrow> WorkloadDependency \<Rightarrow> bool" where
  "active k wd \<longleftrightarrow>
     meta_DeletionTimestamp (wd_Meta wd) = None \<and>
     ContainsFinalizer k (meta_Finalizers (wd_Meta wd)) FinalizerName \<and>
     meta_Annotations (wd_Meta wd) AnnotationPaused \<noteq> Some ''true'' \<and>
     Mode (wd_Spec wd) \<noteq> ModeObserve \<and> Mode (wd_Spec wd) \<noteq> ModeGate"

definition expires :: "WorkloadDependency \<Rightarrow> bool" where
  "expires wd \<longleftrightarrow>
     0 <s MaxSuspendDuration (OnDegraded (wd_Spec wd)) \<and> SuspendedAt (wd_Status wd) \<noteq> None"

definition may_suspend :: "'e kube \<Rightarrow> WorkloadDependency \<Rightarrow> bool" where
  "may_suspend k wd \<longleftrightarrow> active k wd \<and> wd_Phase wd \<noteq> PhaseReleased \<and>
     (if wd_Phase wd = PhaseSuspended then Mode (wd_Spec wd) = ModeStrict \<and> \<not> expires wd
      else DegradedSince (wd_Status wd) \<noteq> None)"

definition may_restore :: "'e kube \<Rightarrow> WorkloadDependency \<Rightarrow> bool" where
  "may_restore k wd \<longleftrightarrow> wd_Phase wd = PhaseSuspended \<and>
     (if meta_DeletionTimestamp (wd_Meta wd) \<noteq> None
      then \<exists>n. SavedReplicas (wd_Status wd) = Some n \<and> 0 <s n
      else active k wd \<and>
        (HealthySince (wd_Status wd) \<noteq> None \<or> expires wd))"

fun justified :: "'e kube \<Rightarrow> WorkloadDependency \<Rightarrow> effect \<Rightarrow> bool" where
  "justified k wd (PatchWorkload b w r) \<longleftrightarrow>
     may_suspend k wd \<and> suspending k b w \<or>
     may_restore k wd \<and> restoring k (SavedReplicas (wd_Status wd)) b w"
| "justified k wd _ = True"

lemma no_patch_justified [intro]: "no_patch x \<Longrightarrow> justified k wd x"
  by (cases x) simp_all

lemma emits_handleDegraded:
  assumes "\<And>w r. DegradedSince (wd_Status wd) \<noteq> None \<Longrightarrow> suspending k target w \<Longrightarrow> P (PatchWorkload target w r)"
    and "\<And>x. no_patch x \<Longrightarrow> P x"
  shows "emits P (handleDegraded k wd target msg now)"
  unfolding handleDegraded_def Let_def
  by (intro emits_intros emits_suspendWorkload) (auto intro: assms)

lemma emits_handleSuspended:
  assumes "\<And>w r. Mode (wd_Spec wd) = ModeStrict \<Longrightarrow> suspending k target w \<Longrightarrow> P (PatchWorkload target w r)"
    and "\<And>x. no_patch x \<Longrightarrow> P x"
  shows "emits P (handleSuspended k wd target msg)"
  unfolding handleSuspended_def
  by (intro emits_intros emits_suspendWorkload) (auto intro: assms)

lemma emits_handleHealthy:
  assumes "\<And>w r. wd_Phase wd = PhaseSuspended \<Longrightarrow> HealthySince (wd_Status wd) \<noteq> None \<Longrightarrow>
      restoring k (SavedReplicas (wd_Status wd)) target w \<Longrightarrow> P (PatchWorkload target w r)"
    and "\<And>x. no_patch x \<Longrightarrow> P x"
  shows "emits P (handleHealthy k wd target now)"
  unfolding handleHealthy_def Let_def
  by (intro emits_intros emits_restoreWorkload) (auto intro: assms)

lemma emits_stillSuspended:
  assumes "\<And>w r. Mode (wd_Spec wd) = ModeStrict \<Longrightarrow> \<not> expires wd \<Longrightarrow> suspending k target w \<Longrightarrow> P (PatchWorkload target w r)"
    and "\<And>w r. expires wd \<Longrightarrow> restoring k (SavedReplicas (wd_Status wd)) target w \<Longrightarrow> P (PatchWorkload target w r)"
    and "\<And>x. no_patch x \<Longrightarrow> P x"
  shows "emits P (stillSuspended k wd target msg)"
  unfolding stillSuspended_def Let_def
  by (intro emits_intros emits_restoreWorkload emits_handleSuspended) (auto intro: assms simp: expires_def split: if_splits)

lemma emits_handleDeletion:
  assumes "\<And>w target r. wd_Phase wd = PhaseSuspended \<Longrightarrow> \<exists>n. SavedReplicas (wd_Status wd) = Some n \<and> 0 <s n \<Longrightarrow>
      restoring k (SavedReplicas (wd_Status wd)) target w \<Longrightarrow> P (PatchWorkload target w r)"
    and "\<And>x. no_patch x \<Longrightarrow> P x"
  shows "emits P (handleDeletion k wd)"
  unfolding handleDeletion_def restore_on_deletion_def
  by (intro emits_intros emits_restoreWorkload) (auto intro: assms split: option.splits)

lemma emits_ensureFinalizer: "(\<And>x. no_patch x \<Longrightarrow> P x) \<Longrightarrow> emits P (ensureFinalizer k wd)"
  unfolding ensureFinalizer_def Let_def
  by (intro emits_intros) (auto intro: emits_intros)

lemma emits_act:
  assumes "meta_DeletionTimestamp (wd_Meta wd) = None"
    and "active k wd \<or> Mode (wd_Spec wd) = ModeObserve \<or> Mode (wd_Spec wd) = ModeGate"
  shows "emits (justified k wd) (act k wd target allOk msg now)"
  unfolding act_def
  by (intro emits_intros emits_handleHealthy emits_handleDegraded emits_stillSuspended)
     (use assms in \<open>auto simp: may_suspend_def may_restore_def\<close>)

lemma emits_reconcileObject: "emits (justified k wd) (reconcileObject k wd)"
  unfolding reconcileObject_def reconcileWorkloads_def Let_def
  by (intro emits_intros emits_handleDeletion emits_ensureFinalizer emits_act)
     (auto simp: may_restore_def active_def)

text \<open>
  C1.  Whatever the API server answers and however the clock moves, every workload patch
  of a reconciliation is one of two: a suspension (replicas to zero, or \<open>suspend: true\<close> on a cron
  job that is not suspended), only for an object that is not being deleted, not paused, in an
  enforcing mode, not \<open>Released\<close>, and already marked degraded, or suspended in strict mode without
  an expiry; or a restoration to exactly the saved replica count, only for a suspended object
  whose dependencies were seen healthy, whose suspension can expire, or that is being deleted.
\<close>

theorem Reconcile_patches_justified:
  assumes "k_GetWD k req (env s) = (Inr wd, e)"
  shows "list_all (justified k wd) (new_effects (Reconcile k req) s)"
  using assms emits_reconcileObject by (rule Reconcile_effects)

theorem Reconcile_patches_justified_witness:
  "patches (new_effects (Reconcile mem_kube (wd_key degraded_wd)) (start (pair_cluster degraded_wd 3 1))) =
     [(DeploymentAccessor (sample_deployment ''a'' 3 3),
       DeploymentAccessor ((sample_deployment ''a'' 3 3)\<lparr>d_Replicas := Some 0\<rparr>))] \<and>
   list_all (justified mem_kube degraded_wd)
     (new_effects (Reconcile mem_kube (wd_key degraded_wd)) (start (pair_cluster degraded_wd 3 1)))"
  by (rule conjI, code_simp, rule Reconcile_patches_justified [OF mem_read])


section \<open>Running a suspension and a restoration\<close>

fun kind_label :: "workloadAccessor \<Rightarrow> string" where
  "kind_label (DeploymentAccessor _) = ''Deployment''"
| "kind_label (StatefulSetAccessor _) = ''StatefulSet''"
| "kind_label (CronJobAccessor _) = ''CronJob''"
| "kind_label (RolloutAccessor _) = ''Rollout''"

text \<open>The events of a successful scaling.\<close>

fun restored_event :: "WorkloadDependency \<Rightarrow> workloadAccessor \<Rightarrow> string \<Rightarrow> int32 \<Rightarrow> effect" where
  "restored_event wd (RolloutAccessor _) name n =
     Eventf EventTypeNormal ''ReplicasRestored'' ''Restored Rollout %s to %d replicas after dependency recovery''
       [FStr name, FInt (sint n)]"
| "restored_event wd _ name n =
     Eventf EventTypeNormal ''ReplicasRestored'' ''Restored %s %s to %d replicas after dependency recovery''
       [FStr (ref_Kind (Dependent (wd_Spec wd))), FStr name, FInt (sint n)]"

fun scaled_event :: "WorkloadDependency \<Rightarrow> workloadAccessor \<Rightarrow> string \<Rightarrow> int32 \<Rightarrow> string \<Rightarrow> effect" where
  "scaled_event wd (RolloutAccessor _) name n msg =
     Eventf EventTypeWarning ''ScaledToZero'' ''Scaled Rollout %s to 0 (saved %d replicas): %s''
       [FStr name, FInt (sint n), FStr msg]"
| "scaled_event wd _ name n msg =
     Eventf EventTypeWarning ''ScaledToZero'' ''Scaled %s %s to 0 (saved %d replicas): %s''
       [FStr (ref_Kind (Dependent (wd_Spec wd))), FStr name, FInt (sint n), FStr msg]"

lemma run_restoreWorkload:
  assumes "SavedReplicas (wd_Status wd) = Some n" and "n \<noteq> 0" and "writable k w"
    and "k_Patch k w (setReplicas k n w) (env s) = (r, e)"
  shows "run_state (restoreWorkload k wd w) s =
    (case r of
       Inl err \<Rightarrow> (Some err, s\<lparr>env := e, trace := trace s @ [PatchWorkload w (setReplicas k n w) (Some err)]\<rparr>)
     | Inr obj \<Rightarrow> (None, s\<lparr>env := e,
         trace := trace s @ [PatchWorkload w (setReplicas k n w) None, restored_event wd w (getName obj) n],
         metrics_of := recordReplicasRestored (wd_Namespace wd) (kind_label w) (getName obj) (metrics_of s)\<rparr>))"
  using assms
  by (cases w; cases r) (simp_all add: restoreWorkload_def scale_up_def run_simps Let_def)

lemma run_suspendWorkload:
  assumes "getReplicas k w \<noteq> 0" and "writable k w"
    and "k_Patch k w (setReplicas k 0 w) (env s) = (r, e)"
  shows "run_state (suspendWorkload k wd w msg) s =
    (let wd' = upd_status (\<lambda>st. st\<lparr>SavedReplicas := Some (getReplicas k w)\<rparr>) wd in
     case r of
       Inl err \<Rightarrow> ((Some err, wd', setReplicas k 0 w),
         s\<lparr>env := e, trace := trace s @ [PatchWorkload w (setReplicas k 0 w) (Some err)]\<rparr>)
     | Inr obj \<Rightarrow> ((None, wd', obj),
         s\<lparr>env := e, trace := trace s @ [PatchWorkload w (setReplicas k 0 w) None,
             scaled_event wd w (getName obj) (getReplicas k w) msg],
           metrics_of := recordScaleToZero (wd_Namespace wd) (kind_label w) (getName obj) (metrics_of s)\<rparr>))"
  using assms
  by (cases w; cases r) (simp_all add: suspendWorkload_def scale_down_def run_simps Let_def)

definition without_finalizer :: "'e kube \<Rightarrow> WorkloadDependency \<Rightarrow> WorkloadDependency" where
  "without_finalizer k wd = wd\<lparr>wd_Meta := (wd_Meta wd)\<lparr>meta_Finalizers :=
     RemoveFinalizer k (meta_Finalizers (wd_Meta wd)) FinalizerName\<rparr>\<rparr>"

text \<open>
  C13.  When an object is deleted while its dependent is suspended with saved replicas, the
  first action is the patch that gives the dependent its saved count back.  Only after the
  server has accepted it is the finalizer removed; when the patch is refused, nothing else happens
  and the deletion is retried after five seconds.
\<close>

theorem deletion_restores_first:
  assumes "wd_Phase wd = PhaseSuspended" and "SavedReplicas (wd_Status wd) = Some n" and "0 <s n"
    and "run_state (getWorkload k (ref_Kind (Dependent (wd_Spec wd))) (ref_Name (Dependent (wd_Spec wd))) (dependentNS wd)) s
      = (Inr target, s1)" and "writable k target"
    and "k_Patch k target (setReplicas k n target) (env s1) = (r, e)"
  shows "case r of
      Inl err \<Rightarrow>
        new_effects (handleDeletion k wd) s = [PatchWorkload target (setReplicas k n target) (Some err)] \<and>
        fst (run_state (handleDeletion k wd) s) = (requeueAfter (5 * Second), None)
    | Inr obj \<Rightarrow> \<exists>res.
        new_effects (handleDeletion k wd) s =
          [PatchWorkload target (setReplicas k n target) None, restored_event wd target (getName obj) n,
           UpdateWD (without_finalizer k wd) res] \<and>
        getReplicas k (setReplicas k n target) = n \<and>
        fst (run_state (handleDeletion k wd) s) = (emptyResult, res)"
proof -
  have tr: "trace s1 = trace s" using assms(4) emits_getWorkload silent_trace by metis
  have n: "n \<noteq> 0" using assms(3) by (auto simp: word_sless_alt)
  show ?thesis
    using assms(1-5) tr run_restoreWorkload [OF assms(2) n assms(5,6)]
    by (auto simp: handleDeletion_def restore_on_deletion_def new_effects_def run_simps
        without_finalizer_def acc.get_set split: prod.splits sum.splits)
qed
theorem deletion_restores_first_witness:
  "patches (new_effects (handleDeletion mem_kube suspended_wd) (start (pair_cluster suspended_wd 0 1))) =
     [(DeploymentAccessor (sample_deployment ''a'' 0 0),
       DeploymentAccessor ((sample_deployment ''a'' 0 0)\<lparr>d_Replicas := Some 3\<rparr>))]"
proof -
  let ?s = "start (pair_cluster suspended_wd 0 1)"
  let ?t = "DeploymentAccessor (sample_deployment ''a'' 0 0)"
  have "run_state (getWorkload mem_kube (ref_Kind (Dependent (wd_Spec suspended_wd)))
      (ref_Name (Dependent (wd_Spec suspended_wd))) (dependentNS suspended_wd)) ?s = (Inr ?t, ?s)"
    by (simp add: getWorkload_def getRollout_def sample_defs run_simps dependentNS_def found_def at_name_def mem_kube_def)
  from deletion_restores_first [OF _ _ _ this, of 3 "Inr (setReplicas mem_kube 3 ?t)"]
  show ?thesis
    by (auto simp: suspended_wd_def mem_kube_def deployment_setReplicas_def word_sless_alt)
qed

text \<open>
  C20.  Suspending a running workload and restoring it later, on a server that accepts
  the patches, are two patches: to zero replicas, and back to the count the workload had.
\<close>

theorem suspend_restore_round_trip:
  assumes "writable k w" and "getReplicas k w \<noteq> 0"
    and "\<And>b v e. fst (k_Patch k b v e) = Inr v"
  shows "\<exists>wd' w' s1 s2.
    run_state (suspendWorkload k wd w msg) s = ((None, wd', w'), s1) \<and>
    getReplicas k w' = 0 \<and> SavedReplicas (wd_Status wd') = Some (getReplicas k w) \<and>
    run_state (restoreWorkload k wd' w') s1 = (None, s2) \<and>
    patches (trace s2) = patches (trace s) @ [(w, w'), (w', setReplicas k (getReplicas k w) w')] \<and>
    getReplicas k (setReplicas k (getReplicas k w) w') = getReplicas k w"
proof -
  let ?w' = "setReplicas k 0 w"
  obtain e where p: "k_Patch k w ?w' (env s) = (Inr ?w', e)"
    using assms(3) by (metis prod.collapse)
  obtain e' where q: "k_Patch k ?w' (setReplicas k (getReplicas k w) ?w') e =
      (Inr (setReplicas k (getReplicas k w) ?w'), e')"
    using assms(3) by (metis prod.collapse)
  have ev: "patch_of (scaled_event wd w nm n m) = []" "patch_of (restored_event wd' v nm n) = []"
    for wd' v nm n m by (cases w; simp) (cases v; simp)
  show ?thesis
    using run_suspendWorkload [OF assms(2,1) p]
      run_restoreWorkload [OF _ assms(2) acc.writable_set [OF assms(1)]] q
    by (simp add: Let_def acc.scale_round_trip acc.scale_to_zero assms(1) ev)
qed

theorem suspend_restore_round_trip_witness:
  "\<exists>wd' w' s1 s2.
    run_state (suspendWorkload mem_kube degraded_wd (DeploymentAccessor (sample_deployment ''a'' 3 3)) ''m'')
      (start (pair_cluster degraded_wd 3 1)) = ((None, wd', w'), s1) \<and>
    getReplicas mem_kube w' = 0 \<and> SavedReplicas (wd_Status wd') = Some 3 \<and>
    run_state (restoreWorkload mem_kube wd' w') s1 = (None, s2)"
  using suspend_restore_round_trip [of mem_kube "DeploymentAccessor (sample_deployment ''a'' 3 3)"
      degraded_wd "''m''" "start (pair_cluster degraded_wd 3 1)"]
  by (auto simp: mem_kube_def deployment_getReplicas_def sample_deployment_def)

fun remembers :: "int32 \<Rightarrow> effect \<Rightarrow> bool" where
  "remembers n (UpdateStatusWD wd r) \<longleftrightarrow>
     wd_Phase wd = PhaseSuspended \<and> SuspendedAt (wd_Status wd) \<noteq> None \<and> SavedReplicas (wd_Status wd) = Some n"
| "remembers n _ = True"

lemma yields_suspendWorkload:
  fixes k :: "'e kube"
  assumes "getReplicas k w \<noteq> 0" and "writable k w"
  shows "yields (suspendWorkload k wd w msg)
     (\<lambda>(err, wd', w'). SavedReplicas (wd_Status wd') = Some (getReplicas k w))"
  unfolding yields_def
proof
  fix s :: "'e world"
  obtain r e where "k_Patch k w (setReplicas k 0 w) (env s) = (r, e)" by force
  from run_suspendWorkload [OF assms this, of wd msg]
  show "case fst (run_state (suspendWorkload k wd w msg) s) of
      (err, wd', w') \<Rightarrow> SavedReplicas (wd_Status wd') = Some (getReplicas k w)"
    by (cases r) (simp_all add: Let_def)
qed

text \<open>
  C14.  When the degraded window is over and the dependent runs with \<open>n\<close> replicas, every
  status \<open>handleDegraded\<close> submits, also the ones sent again after a conflict, is \<open>Suspended\<close>, has a
  suspension time, and carries \<open>n\<close> as the saved replicas: the count is never lost.
\<close>

theorem suspension_remembers_replicas:
  assumes "DegradedSince (wd_Status wd) = Some since"
    and "getReplicas k target \<noteq> 0" and "writable k target"
  shows "list_all (remembers (getReplicas k target)) (new_effects (handleDegraded k wd target msg now) s)"
proof (rule emits_new_effects)
  show "emits (remembers (getReplicas k target)) (handleDegraded k wd target msg now)"
    unfolding handleDegraded_def Let_def assms(1) option.simps
    by (intro emits_intros emits_bind_yields [OF emits_suspendWorkload yields_suspendWorkload [OF assms(2,3)]])
       (auto intro!: emits_intros simp: status_ok_def take_snapshot_def)
qed

theorem suspension_remembers_replicas_witness:
  "patches (new_effects (handleDegraded mem_kube degraded_wd (DeploymentAccessor (sample_deployment ''a'' 3 3)) ''m'' 5)
     (start (pair_cluster degraded_wd 3 1))) \<noteq> [] \<and>
   list_all (remembers 3) (new_effects (handleDegraded mem_kube degraded_wd
     (DeploymentAccessor (sample_deployment ''a'' 3 3)) ''m'' 5) (start (pair_cluster degraded_wd 3 1)))"
proof (rule conjI)
  show "list_all (remembers 3) (new_effects (handleDegraded mem_kube degraded_wd
     (DeploymentAccessor (sample_deployment ''a'' 3 3)) ''m'' 5) (start (pair_cluster degraded_wd 3 1)))"
    using suspension_remembers_replicas [of degraded_wd 0 mem_kube "DeploymentAccessor (sample_deployment ''a'' 3 3)"]
    by (simp add: sample_defs deployment_getReplicas_def)
qed code_simp

section \<open>What enforcement and deletion leave out\<close>

text \<open>
  C40.  A suspended object with a maximal suspension is not enforced, not even in strict mode:
  every patch of a reconciliation restores the saved replicas, so a dependent that somebody scaled up by hand
  keeps running until the suspension expires.
\<close>

theorem strict_expiry_not_enforced:
  assumes "k_GetWD k req (env s) = (Inr wd, e)" and "wd_Phase wd = PhaseSuspended" and "expires wd"
    and "(b, w) \<in> set (patches (new_effects (Reconcile k req) s))"
  shows "restoring k (SavedReplicas (wd_Status wd)) b w"
proof -
  obtain x where x: "x \<in> set (new_effects (Reconcile k req) s)" "(b, w) \<in> set (patch_of x)"
    using assms(4) by (auto simp: patches_def)
  with Reconcile_effects [OF assms(1) emits_reconcileObject] have "justified k wd x"
    by (simp add: list_all_iff)
  with x(2) assms(2,3) show ?thesis by (cases x) (auto simp: may_suspend_def)
qed

text \<open>The dependent runs three replicas although the object says it is suspended, and \<open>b\<close> is unhealthy.\<close>

definition expiring_wd :: WorkloadDependency where
  "expiring_wd = suspended_wd\<lparr>wd_Spec := (wd_Spec suspended_wd)\<lparr>OnDegraded :=
     \<lparr>od_Action = ActionScaleToZero, MaxSuspendDuration = 60 * Minute\<rparr>\<rparr>\<rparr>"

theorem strict_expiry_not_enforced_witness:
  "patches (new_effects (Reconcile mem_kube (wd_key suspended_wd)) (start (pair_cluster suspended_wd 3 1))) \<noteq> [] \<and>
   patches (new_effects (Reconcile mem_kube (wd_key expiring_wd)) (start (pair_cluster expiring_wd 3 1))) = [] \<and>
   list_all (\<lambda>(b, w). restoring mem_kube (Some 3) b w)
     (patches (new_effects (Reconcile mem_kube (wd_key expiring_wd)) (start (pair_cluster expiring_wd 3 1))))"
proof (intro conjI)
  have p: "wd_Phase expiring_wd = PhaseSuspended" and e: "expires expiring_wd"
    by (simp_all add: expiring_wd_def expires_def sample_defs duration_defs word_sless_alt)
  have "SavedReplicas (wd_Status expiring_wd) = Some 3" by (simp add: expiring_wd_def sample_defs)
  with strict_expiry_not_enforced [OF mem_read p e]
  show "list_all (\<lambda>(b, w). restoring mem_kube (Some 3) b w)
     (patches (new_effects (Reconcile mem_kube (wd_key expiring_wd)) (start (pair_cluster expiring_wd 3 1))))"
    by (auto simp: list_all_iff)
qed code_simp+

text \<open>
  Deleting the object does not resume a cron job it suspended: suspending a cron job
  saves no replica count, and without a saved count deletion patches nothing.
\<close>

lemma cronjob_not_resumed_on_deletion:
  fixes k :: "'e kube"
  assumes "SavedReplicas (wd_Status wd) = None"
  shows "yields (suspendWorkload k wd (CronJobAccessor c) msg) (\<lambda>(err, wd', w). SavedReplicas (wd_Status wd') = None) \<and>
    emits no_patch (handleDeletion k wd)"
proof (rule conjI)
  show "yields (suspendWorkload k wd (CronJobAccessor c) msg) (\<lambda>(err, wd', w). SavedReplicas (wd_Status wd') = None)"
    unfolding suspendWorkload_def using assms
    by (auto intro!: yields_bind [OF yields_any] yields_return simp: Let_def split: sum.splits)
  show "emits no_patch (handleDeletion k wd)"
    by (rule emits_handleDeletion) (use assms in auto)
qed

end
