(* ===== verification/Policy.thy ===== *)
theory Policy
  imports Controller
begin

text \<open>
  The abstract policy of the operator: what a reconciliation decides, as a pure function of what
  it has observed, in the order of the documentation (first whether the dependencies are in
  order, then the phase) rather than of the code.  The refinement theorem says that the branch
  structure of \<open>Reconcile\<close> after the health checks, with its handlers, clock readings and early
  returns, carries out exactly this policy.
\<close>

section \<open>Observations and verdicts\<close>

record observation =
  o_ok :: bool
  o_deferred :: bool
  o_mode :: EnforcementMode
  o_phase :: DependencyPhase
  o_degraded_for :: "duration option"
  o_window :: duration
  o_healthy_for :: "duration option"
  o_recovery :: duration
  o_suspended_for :: "duration option"
  o_max :: duration
  o_drifted :: bool

datatype verdict =
    Defer
  | ReportObserved
  | ReportGated
  | ReportHealthy bool
  | StartDegraded
  | WaitDegraded duration
  | Suspend
  | KeepSuspended
  | Reenforce
  | StartRecovery
  | WaitRecovery duration
  | Restore
  | Release
  | WaitRelease duration
  | StayReleased
  | BecomeHealthy

text \<open>While the dependencies are healthy only a suspended workload needs attention.\<close>

definition healthy_policy :: "observation \<Rightarrow> verdict" where
  "healthy_policy ob =
     (if o_phase ob = PhaseSuspended then
        case o_healthy_for ob of
          None \<Rightarrow> StartRecovery
        | Some e \<Rightarrow> if e <s o_recovery ob then WaitRecovery (o_recovery ob - e + Second) else Restore
      else BecomeHealthy)"

text \<open>While one is not, by phase: released, suspended, or not yet suspended.\<close>

definition unhealthy_policy :: "observation \<Rightarrow> verdict" where
  "unhealthy_policy ob =
     (case o_phase ob of
        PhaseReleased \<Rightarrow> StayReleased
      | PhaseSuspended \<Rightarrow>
          if 0 <s o_max ob \<and> o_suspended_for ob \<noteq> None then
            (let e = the (o_suspended_for ob) in
             if o_max ob \<le>s e then Release else WaitRelease (o_max ob - e + Second))
          else if o_mode ob = ModeStrict \<and> o_drifted ob then Reenforce
          else KeepSuspended
      | _ \<Rightarrow>
          case o_degraded_for ob of
            None \<Rightarrow> StartDegraded
          | Some e \<Rightarrow> if e <s o_window ob then WaitDegraded (o_window ob - e + Second) else Suspend)"

definition policy :: "observation \<Rightarrow> verdict" where
  "policy ob =
     (if \<not> o_ok ob \<and> o_deferred ob then Defer
      else case o_mode ob of
        ModeObserve \<Rightarrow> if o_ok ob then ReportHealthy True else ReportObserved
      | ModeGate \<Rightarrow> if o_ok ob then ReportHealthy False else ReportGated
      | _ \<Rightarrow> if o_ok ob then healthy_policy ob else unhealthy_policy ob)"

section \<open>Observing and carrying out\<close>

definition observe :: "'e kube \<Rightarrow> WorkloadDependency \<Rightarrow> workloadAccessor \<Rightarrow> bool \<Rightarrow> gotime \<Rightarrow> observation" where
  "observe k wd target allOk now =
    \<lparr>o_ok = allOk,
     o_deferred = is_progressing_rollout k target,
     o_mode = Mode (wd_Spec wd),
     o_phase = wd_Phase wd,
     o_degraded_for = map_option (sub_time now) (DegradedSince (wd_Status wd)),
     o_window = degradedWindow wd,
     o_healthy_for = map_option (sub_time now) (HealthySince (wd_Status wd)),
     o_recovery = recoveryWindow wd,
     o_suspended_for = map_option (sub_time now) (SuspendedAt (wd_Status wd)),
     o_max = MaxSuspendDuration (OnDegraded (wd_Spec wd)),
     o_drifted = needsEnforce k target\<rparr>"

text \<open>
  A verdict is either to wait, or an operation on the workload followed by a status write: what
  changes in the status, the phase, the message and when to come back.
\<close>

datatype workload_op = NoOp | SuspendOp | ReenforceOp | RestoreOp | ReleaseOp

record plan =
  p_op :: workload_op
  p_change :: "WorkloadDependencyStatus \<Rightarrow> WorkloadDependencyStatus"
  p_phase :: DependencyPhase
  p_msg :: string
  p_result :: "Result option"

definition every15s :: "Result option" where
  "every15s = Some (requeueAfter (15 * Second))"

fun realise ::
  "WorkloadDependency \<Rightarrow> workloadAccessor \<Rightarrow> string \<Rightarrow> gotime \<Rightarrow> verdict \<Rightarrow> duration + plan" where
  "realise wd target msg now Defer = Inr
    \<lparr>p_op = NoOp, p_change = id, p_phase = PhaseDegraded,
     p_msg = ''dependency unhealthy, action deferred '' @ em_dash @ '' rollout '' @ getName target @ '' is progressing'',
     p_result = every15s\<rparr>"
| "realise wd target msg now ReportObserved = Inr
    \<lparr>p_op = NoOp, p_change = id, p_phase = PhaseObserved,
     p_msg = ''observe mode: would scale '' @ ref_Kind (Dependent (wd_Spec wd)) @ ''/'' @
       ref_Name (Dependent (wd_Spec wd)) @ '' to 0 '' @ em_dash @ '' '' @ msg,
     p_result = None\<rparr>"
| "realise wd target msg now ReportGated = Inr
    \<lparr>p_op = NoOp, p_change = id, p_phase = PhaseDegraded, p_msg = msg, p_result = None\<rparr>"
| "realise wd target msg now (ReportHealthy observing) = Inr
    \<lparr>p_op = NoOp, p_change = id, p_phase = PhaseHealthy,
     p_msg = ''all dependencies healthy'' @ (if observing then '' (observe mode)'' else []), p_result = None\<rparr>"
| "realise wd target msg now StartDegraded = Inr
    \<lparr>p_op = NoOp, p_change = (\<lambda>s. s\<lparr>DegradedSince := Some now, HealthySince := None\<rparr>),
     p_phase = PhaseDegraded, p_msg = msg, p_result = Some (requeueAfter (degradedWindow wd))\<rparr>"
| "realise wd target msg now (WaitDegraded d) = Inl d"
| "realise wd target msg now Suspend = Inr
    \<lparr>p_op = SuspendOp, p_change = id, p_phase = PhaseSuspended, p_msg = msg, p_result = every15s\<rparr>"
| "realise wd target msg now KeepSuspended = Inr
    \<lparr>p_op = NoOp, p_change = id, p_phase = PhaseSuspended, p_msg = msg, p_result = every15s\<rparr>"
| "realise wd target msg now Reenforce = Inr
    \<lparr>p_op = ReenforceOp, p_change = id, p_phase = PhaseSuspended, p_msg = msg, p_result = every15s\<rparr>"
| "realise wd target msg now StartRecovery = Inr
    \<lparr>p_op = NoOp, p_change = (\<lambda>s. s\<lparr>DegradedSince := None, HealthySince := Some now\<rparr>),
     p_phase = PhaseSuspended, p_msg = ''dependencies recovered, waiting recovery window'',
     p_result = Some (requeueAfter (recoveryWindow wd))\<rparr>"
| "realise wd target msg now (WaitRecovery d) = Inl d"
| "realise wd target msg now Restore = Inr
    \<lparr>p_op = RestoreOp, p_change = (\<lambda>s. s\<lparr>DegradedSince := None, SavedReplicas := None, HealthySince := None\<rparr>),
     p_phase = PhaseHealthy, p_msg = ''all dependencies healthy'', p_result = None\<rparr>"
| "realise wd target msg now Release = Inr
    \<lparr>p_op = ReleaseOp, p_change = (\<lambda>s. s\<lparr>SavedReplicas := None, HealthySince := None\<rparr>),
     p_phase = PhaseReleased, p_msg = releasedMsg, p_result = None\<rparr>"
| "realise wd target msg now (WaitRelease d) = Inl d"
| "realise wd target msg now StayReleased = Inr
    \<lparr>p_op = NoOp, p_change = id, p_phase = PhaseReleased, p_msg = releasedMsg,
     p_result = Some (requeueAfter (30 * Second))\<rparr>"
| "realise wd target msg now BecomeHealthy = Inr
    \<lparr>p_op = NoOp, p_change = (\<lambda>s. s\<lparr>DegradedSince := None, HealthySince := None\<rparr>),
     p_phase = PhaseHealthy, p_msg = ''all dependencies healthy'', p_result = None\<rparr>"

fun perform_op ::
  "'e kube \<Rightarrow> WorkloadDependency \<Rightarrow> workloadAccessor \<Rightarrow> string \<Rightarrow> workload_op
     \<Rightarrow> ('e, api_error option \<times> WorkloadDependency) go" where
  "perform_op k wd target msg NoOp = return (None, wd)"
| "perform_op k wd target msg SuspendOp = do {
     (err, wd, _) \<leftarrow> suspendWorkload k wd target msg;
     return (err, wd) }"
| "perform_op k wd target msg ReenforceOp = do {
     (err, wd, target) \<leftarrow> suspendWorkload k wd target msg;
     (if err = None
      then emit (Eventf EventTypeWarning ''StrictEnforced''
        ''Re-enforced suspension on %s %s (strict mode): dependency still unhealthy''
        [FStr (ref_Kind (Dependent (wd_Spec wd))), FStr (getName target)])
      else return ());
     return (err, wd) }"
| "perform_op k wd target msg RestoreOp = do {
     err \<leftarrow> restoreWorkload k wd target;
     return (err, wd) }"
| "perform_op k wd target msg ReleaseOp = do {
     emit (Eventf EventTypeWarning ''MaxSuspendDurationExceeded''
       (''Restoring %s after %s (maxSuspendDuration exceeded) '' @ em_dash @ '' dependency still unhealthy'')
       [FStr (ref_Name (Dependent (wd_Spec wd))), FDur (MaxSuspendDuration (OnDegraded (wd_Spec wd)))]);
     err \<leftarrow> restoreWorkload k wd target;
     return (err, wd) }"

text \<open>A failed operation ends the reconciliation with its error, before anything is recorded.\<close>

definition execute ::
  "'e kube \<Rightarrow> WorkloadDependency \<Rightarrow> workloadAccessor \<Rightarrow> string \<Rightarrow> gotime \<Rightarrow> verdict \<Rightarrow> ('e, reconcile_result) go" where
  "execute k wd target msg now v =
     (case realise wd target msg now v of
        Inl d \<Rightarrow> return (requeueAfter d, None)
      | Inr p \<Rightarrow> do {
          (err, wd) \<leftarrow> perform_op k wd target msg (p_op p);
          case err of
            Some e \<Rightarrow> return (emptyResult, Some e)
          | None \<Rightarrow> setStatus k (upd_status (p_change p) wd) (p_phase p) (p_msg p) (p_result p) })"

section \<open>Refinement\<close>

lemma restoreWorkload_status:
  assumes "SavedReplicas (f (wd_Status wd)) = SavedReplicas (wd_Status wd)"
  shows "restoreWorkload k (upd_status f wd) w = restoreWorkload k wd w"
  by (cases w; cases "SavedReplicas (wd_Status wd)")
     (simp_all add: restoreWorkload_def scale_up_def assms Let_def)

lemma window_upd_status [simp]:
  "degradedWindow (upd_status f wd) = degradedWindow wd"
  "recoveryWindow (upd_status f wd) = recoveryWindow wd"
  by (simp_all add: degradedWindow_def recoveryWindow_def)


lemmas policy_simps = unhealthy_policy_def healthy_policy_def observe_def execute_def every15s_def run_simps Let_def

lemma handleDegraded_refines:
  assumes "k_Now k (env s) = (now, env s)"
    and "wd_Phase wd \<noteq> PhaseReleased" "wd_Phase wd \<noteq> PhaseSuspended"
  shows "run_state (handleDegraded k wd target msg now) s =
    run_state (execute k wd target msg now (unhealthy_policy (observe k wd target allOk now))) s"
  using assms
  by (cases "DegradedSince (wd_Status wd)"; cases "wd_Phase wd")
     (simp_all add: handleDegraded_def policy_simps split: prod.splits option.splits)

lemma handleHealthy_refines:
  assumes "k_Now k (env s) = (now, env s)"
  shows "run_state (handleHealthy k wd target now) s =
    run_state (execute k wd target msg now (healthy_policy (observe k wd target allOk now))) s"
  using assms
  by (cases "HealthySince (wd_Status wd)"; cases "wd_Phase wd")
     (simp_all add: handleHealthy_def policy_simps restoreWorkload_status split: prod.splits option.splits)

lemma handleSuspended_refines:
  assumes "\<not> is_progressing_rollout k target"
  shows "run_state (handleSuspended k wd target msg) s =
    run_state (execute k wd target msg now (if Mode (wd_Spec wd) = ModeStrict \<and> needsEnforce k target then Reenforce else KeepSuspended)) s"
  using assms
  by (simp add: handleSuspended_def policy_simps split: prod.splits option.splits)

lemma stillSuspended_refines:
  assumes "k_Now k (env s) = (now, env s)" "\<not> is_progressing_rollout k target" 
   "wd_Phase wd = PhaseSuspended"
  shows "run_state (stillSuspended k wd target msg) s =
    run_state (execute k wd target msg now (unhealthy_policy (observe k wd target allOk now))) s"
  using assms
  by (cases "SuspendedAt (wd_Status wd)")
     (simp_all add: stillSuspended_def handleSuspended_refines [where now = now] policy_simps
       split: prod.splits option.splits)

lemma observe_sel [simp]:
  "o_ok (observe k wd target allOk now) = allOk"
  "o_mode (observe k wd target allOk now) = Mode (wd_Spec wd)"
  "o_deferred (observe k wd target allOk now) = is_progressing_rollout k target"
  "o_phase (observe k wd target allOk now) = wd_Phase wd"
  "o_degraded_for (observe k wd target allOk now) = map_option (sub_time now) (DegradedSince (wd_Status wd))"
  "o_window (observe k wd target allOk now) = degradedWindow wd"
  "o_healthy_for (observe k wd target allOk now) = map_option (sub_time now) (HealthySince (wd_Status wd))"
  "o_recovery (observe k wd target allOk now) = recoveryWindow wd"
  "o_suspended_for (observe k wd target allOk now) = map_option (sub_time now) (SuspendedAt (wd_Status wd))"
  "o_max (observe k wd target allOk now) = MaxSuspendDuration (OnDegraded (wd_Spec wd))"
  "o_drifted (observe k wd target allOk now) = needsEnforce k target"
  by (simp_all add: observe_def)

lemma released_policy:
  "wd_Phase wd = PhaseReleased \<Longrightarrow> unhealthy_policy (observe k wd target allOk now) = StayReleased"
  by (simp add: unhealthy_policy_def)

lemmas execute_report =
  execute_def [where v = Defer] execute_def [where v = ReportObserved] execute_def [where v = ReportGated]
  execute_def [where v = StayReleased] execute_def [where v = "ReportHealthy b" for b]

lemma act_refines:
  assumes "k_Now k (env s) = (now, env s)"
  shows "run_state (act k wd target allOk msg now) s =
    run_state (execute k wd target msg now (policy (observe k wd target allOk now))) s"
  by (cases "Mode (wd_Spec wd)"; cases allOk)
     (simp_all add: act_def policy_def execute_report every15s_def released_policy handleHealthy_refines [OF assms, where msg = msg]
       stillSuspended_refines [OF assms] handleDegraded_refines [OF assms])
text \<open>
  C2.  With the clock standing still while it decides, the part of \<open>Reconcile\<close> that
  follows the health checks carries out the policy: same result, same API calls, same events and
  metrics, same final world, for every state of the object, every mode and every workload.
\<close>

theorem act_refines_policy:
  assumes "k_Now k (env s) = (now, env s)"
  shows "run_state (act k wd target allOk msg now) s =
    run_state (execute k wd target msg now (policy (observe k wd target allOk now))) s"
  using assms by (rule act_refines)

theorem act_refines_policy_witness:
  "k_Now mem_kube (env (start (pair_cluster degraded_wd 3 1))) =
     (100000000000, env (start (pair_cluster degraded_wd 3 1))) \<and>
   policy (observe mem_kube degraded_wd (DeploymentAccessor (sample_deployment ''a'' 3 3)) False 100000000000) = Suspend \<and>
   run_state (act mem_kube degraded_wd (DeploymentAccessor (sample_deployment ''a'' 3 3)) False ''m'' 100000000000)
     (start (pair_cluster degraded_wd 3 1)) =
   run_state (execute mem_kube degraded_wd (DeploymentAccessor (sample_deployment ''a'' 3 3)) ''m'' 100000000000 Suspend)
     (start (pair_cluster degraded_wd 3 1))"
proof -
  let ?s = "start (pair_cluster degraded_wd 3 1)"
  let ?t = "DeploymentAccessor (sample_deployment ''a'' 3 3)"
  have now: "k_Now mem_kube (env ?s) = (100000000000, env ?s)" by (simp add: sample_defs)
  have "policy (observe mem_kube degraded_wd ?t False 100000000000) = Suspend" by code_simp
  with now act_refines_policy [OF now, of degraded_wd ?t False "''m''"] show ?thesis by simp
qed

section \<open>When the policy touches a workload\<close>

lemma emits_execute_quiet:
  "(\<And>p. realise wd target msg now v = Inr p \<Longrightarrow> p_op p = NoOp) \<Longrightarrow>
     emits no_patch (execute k wd target msg now v)"
  unfolding execute_def
  by (rule emits_case_sum) (auto intro!: emits_intros)

lemma quiet_patches: "emits no_patch m \<Longrightarrow> patches (new_effects m s) = []"
proof -
  have "list_all no_patch xs \<Longrightarrow> patches xs = []" for xs
  proof (induction xs)
    case (Cons x xs)
    then show ?case by (cases x) simp_all
  qed simp
  then show "emits no_patch m \<Longrightarrow> patches (new_effects m s) = []" by (metis emits_new_effects)
qed



section \<open>Waiting comes to an end\<close>

text \<open>What a wait is for, and the stored time and duration it measures.\<close>

fun due :: "verdict \<Rightarrow> verdict option" where
  "due (WaitDegraded _) = Some Suspend"
| "due (WaitRecovery _) = Some Restore"
| "due (WaitRelease _) = Some Release"
| "due _ = None"

fun pause :: "verdict \<Rightarrow> duration" where
  "pause (WaitDegraded d) = d"
| "pause (WaitRecovery d) = d"
| "pause (WaitRelease d) = d"
| "pause _ = 0"

text \<open>Timestamps are not in the future, and durations are below 292 years minus a second.\<close>

definition sane_times :: "WorkloadDependency \<Rightarrow> gotime \<Rightarrow> bool" where
  "sane_times wd now \<longleftrightarrow>
     pred_option (\<lambda>t. t \<le> now) (DegradedSince (wd_Status wd)) \<and>
     pred_option (\<lambda>t. t \<le> now) (HealthySince (wd_Status wd)) \<and>
     pred_option (\<lambda>t. t \<le> now) (SuspendedAt (wd_Status wd)) \<and>
     list_all (\<lambda>d. sint d < 2 ^ 63 - 1000000000)
       [degradedWindow wd, recoveryWindow wd, MaxSuspendDuration (OnDegraded (wd_Spec wd))]"

lemma WaitDegraded_due:
  assumes "policy (observe k wd target allOk now) = WaitDegraded d"
  shows "\<exists>since. DegradedSince (wd_Status wd) = Some since \<and> sub_time now since <s degradedWindow wd \<and>
    d = degradedWindow wd - sub_time now since + Second \<and>
    (\<forall>t. \<not> sub_time t since <s degradedWindow wd \<longrightarrow> policy (observe k wd target allOk t) = Suspend)"
  using assms
  by (cases "wd_Phase wd"; cases "Mode (wd_Spec wd)"; cases "DegradedSince (wd_Status wd)")
     (simp_all add: policy_def healthy_policy_def unhealthy_policy_def observe_def Let_def
        split: if_splits option.splits)

lemma WaitRecovery_due:
  assumes "policy (observe k wd target allOk now) = WaitRecovery d"
  shows "\<exists>since. HealthySince (wd_Status wd) = Some since \<and> sub_time now since <s recoveryWindow wd \<and>
    d = recoveryWindow wd - sub_time now since + Second \<and>
    (\<forall>t. \<not> sub_time t since <s recoveryWindow wd \<longrightarrow> policy (observe k wd target allOk t) = Restore)"
  using assms
  by (cases "wd_Phase wd"; cases "Mode (wd_Spec wd)"; cases "HealthySince (wd_Status wd)")
     (simp_all add: policy_def healthy_policy_def unhealthy_policy_def observe_def Let_def
        split: if_splits option.splits)

lemma WaitRelease_due:
  assumes "policy (observe k wd target allOk now) = WaitRelease d"
  shows "\<exists>since. SuspendedAt (wd_Status wd) = Some since \<and>
    sub_time now since <s MaxSuspendDuration (OnDegraded (wd_Spec wd)) \<and>
    d = MaxSuspendDuration (OnDegraded (wd_Spec wd)) - sub_time now since + Second \<and>
    (\<forall>t. \<not> sub_time t since <s MaxSuspendDuration (OnDegraded (wd_Spec wd)) \<longrightarrow>
       policy (observe k wd target allOk t) = Release)"
  using assms
  by (cases "wd_Phase wd"; cases "Mode (wd_Spec wd)"; cases "SuspendedAt (wd_Status wd)")
     (simp_all add: policy_def healthy_policy_def unhealthy_policy_def observe_def Let_def word_sle_eq word_sless_alt
        split: if_splits option.splits)

lemma wait_over:
  assumes "sub_time now since <s d" and "since \<le> now" and "sint d < 2 ^ 63 - 1000000000"
    and "now + sint (d - sub_time now since + Second) \<le> later"
  shows "\<not> sub_time later since <s d \<and> Second <s d - sub_time now since + Second"
proof -
  have "sint (sub_time now since) = now - since"
    using assms(1-3) by (simp add: sint_sub_time word_sless_alt int64_bounds)
  with assms(2) have "0 \<le>s sub_time now since" by (simp add: word_sle_eq)
  from remaining_sint [OF this assms(1,3)] assms(1) wakes_after [OF assms]
  show ?thesis by (simp add: word_sless_alt word_sle_eq sint_Second)
qed

text \<open>
  No reconciliation waits twice for the same thing: when the policy answers with a
  wait and the object is reconciled again, unchanged, no earlier than the time it asked for, the
  answer is the action it waited for.  The requeue delay never wraps around and is never
  zero, although it is computed by subtraction on signed 64-bit values.
\<close>

lemma policy_waiting_ends:
  assumes "policy (observe k wd target allOk now) = v" and "due v = Some action"
    and "sane_times wd now" and "now + sint (pause v) \<le> later"
  shows "policy (observe k wd target allOk later) = action \<and> Second <s pause v"
proof (cases v)
  case (WaitDegraded d)
  with assms WaitDegraded_due [of k wd target allOk now d] show ?thesis
    by (auto simp: sane_times_def dest: wait_over)
next
  case (WaitRecovery d)
  with assms WaitRecovery_due [of k wd target allOk now d] show ?thesis
    by (auto simp: sane_times_def dest: wait_over)
next
  case (WaitRelease d)
  with assms WaitRelease_due [of k wd target allOk now d] show ?thesis
    by (auto simp: sane_times_def dest: wait_over)
qed (use assms in simp_all)

end
