(* ===== verification/Outcome.thy ===== *)
theory Outcome
  imports Policy
begin

text \<open>
  What the decision part of a reconciliation leaves behind.  \<open>outcome\<close> computes, without the code, the
  object and the workload of a verdict; on a server that accepts the writes \<open>act\<close> writes exactly these.
  A reconciliation that only waits asks to be called when the wait is over.
\<close>

section \<open>The outcome of a reconciliation\<close>

text \<open>The status \<open>setStatus\<close> stores when its first update is accepted.\<close>

definition stamp :: "gotime \<Rightarrow> DependencyPhase \<Rightarrow> gotime option \<Rightarrow> gotime option" where
  "stamp now phase t = (if phase = PhaseSuspended then Some (case t of None \<Rightarrow> now | Some t \<Rightarrow> t) else None)"

definition settle :: "gotime \<Rightarrow> DependencyPhase \<Rightarrow> string \<Rightarrow> WorkloadDependency \<Rightarrow> WorkloadDependency" where
  "settle now phase msg wd = set_condition_at now phase msg
     (upd_status (\<lambda>s. s\<lparr>SuspendedAt := stamp now phase (SuspendedAt s), Phase := phase, st_Message := msg\<rparr>) wd)"

text \<open>The object and the workload after a workload operation that succeeds.\<close>

fun suspend_result :: "'e kube \<Rightarrow> WorkloadDependency \<Rightarrow> workloadAccessor \<Rightarrow> WorkloadDependency \<times> workloadAccessor" where
  "suspend_result k wd (CronJobAccessor cj) =
     (wd, if cronJob_isSuspended cj then CronJobAccessor cj else setSuspend True (CronJobAccessor cj))"
| "suspend_result k wd w =
     (if getReplicas k w = 0 then (wd, w)
      else (upd_status (\<lambda>s. s\<lparr>SavedReplicas := Some (getReplicas k w)\<rparr>) wd, setReplicas k 0 w))"

fun restore_result :: "'e kube \<Rightarrow> WorkloadDependency \<Rightarrow> workloadAccessor \<Rightarrow> workloadAccessor" where
  "restore_result k wd (CronJobAccessor cj) =
     (if cronJob_isSuspended cj then setSuspend False (CronJobAccessor cj) else CronJobAccessor cj)"
| "restore_result k wd w =
     (case SavedReplicas (wd_Status wd) of None \<Rightarrow> w | Some n \<Rightarrow> if n = 0 then w else setReplicas k n w)"

fun op_result :: "'e kube \<Rightarrow> WorkloadDependency \<Rightarrow> workloadAccessor \<Rightarrow> workload_op \<Rightarrow> WorkloadDependency \<times> workloadAccessor" where
  "op_result k wd w NoOp = (wd, w)"
| "op_result k wd w SuspendOp = suspend_result k wd w"
| "op_result k wd w ReenforceOp = suspend_result k wd w"
| "op_result k wd w RestoreOp = (wd, restore_result k wd w)"
| "op_result k wd w ReleaseOp = (wd, restore_result k wd w)"

definition outcome ::
  "'e kube \<Rightarrow> WorkloadDependency \<Rightarrow> workloadAccessor \<Rightarrow> string \<Rightarrow> gotime \<Rightarrow> verdict \<Rightarrow> WorkloadDependency \<times> workloadAccessor" where
  "outcome k wd w msg now v =
     (case realise wd w msg now v of
        Inl d \<Rightarrow> (wd, w)
      | Inr p \<Rightarrow> (case op_result k wd w (p_op p) of
          (wd', w') \<Rightarrow> (settle now (p_phase p) (p_msg p) (upd_status (p_change p) wd'), w')))"

section \<open>The code reaches the outcome\<close>

text \<open>A server that accepts every write, and a clock that stands still during a reconciliation.\<close>

definition accepting :: "'e kube \<Rightarrow> gotime \<Rightarrow> bool" where
  "accepting k now \<longleftrightarrow>
     (\<forall>e. k_Now k e = (now, e)) \<and>
     (\<forall>b w e. fst (k_Patch k b w e) = Inr w) \<and>
     (\<forall>wd e. \<exists>wd'. fst (k_UpdateStatusWD k wd e) = Inr wd')"

lemma or_keep_same [simp]: "or_keep x x = x"
  by (cases x) simp_all

lemma run_applyFields:
  assumes "\<forall>e. k_Now k e = (now, e)"
  shows "run_state (applyFields k (take_snapshot wd) phase msg wd) s = (settle now phase msg wd, s)"
  using assms
  by (cases "wd_Status wd"; cases "SuspendedAt (wd_Status wd)")
     (auto simp: applyFields_def stamp_suspended_def setCondition_def run_simps settle_def
        take_snapshot_def restore_snapshot_def stamp_def upd_status_def)

text \<open>Runs as \<open>trace s @ xs\<close>, with what matters of \<open>xs\<close>.\<close>

definition writes :: "('e, 'a) go \<Rightarrow> 'e world \<Rightarrow> WorkloadDependency list \<Rightarrow> (workloadAccessor \<times> workloadAccessor) list \<Rightarrow> bool" where
  "writes m s ws ps \<longleftrightarrow>
     (\<exists>xs. trace (snd (run_state m s)) = trace s @ xs \<and> status_writes xs = ws \<and> patches xs = ps)"

lemma writes_bind:
  assumes "writes m s ws ps" and "run_state m s = (a, s')" and "writes (f a) s' ws' ps'"
  shows "writes (State_Monad.bind m f) s (ws @ ws') (ps @ ps')"
proof -
  from assms(1,2) obtain xs where "trace s' = trace s @ xs" "status_writes xs = ws" "patches xs = ps"
    unfolding writes_def by auto
  moreover from assms(3) obtain ys where
    "trace (snd (run_state (f a) s')) = trace s' @ ys" "status_writes ys = ws'" "patches ys = ps'"
    unfolding writes_def by auto
  ultimately show ?thesis
    unfolding writes_def using assms(2) by (intro exI [of _ "xs @ ys"]) simp
qed

lemma writes_silent:
  assumes "emits (\<lambda>x. status_of x = [] \<and> patch_of x = []) m"
  shows "writes m s [] []"
proof -
  have "list_all (\<lambda>x. status_of x = [] \<and> patch_of x = []) xs \<Longrightarrow> status_writes xs = [] \<and> patches xs = []" for xs
    by (induction xs) simp_all
  with assms show ?thesis unfolding emits_def writes_def by meson
qed

lemma writes_new_effects: "writes m s ws ps \<Longrightarrow> status_writes (new_effects m s) = ws \<and> patches (new_effects m s) = ps"
  by (auto simp: writes_def new_effects_def)

lemma setStatus_accepted:
  assumes "accepting k now"
  shows "writes (setStatus k wd phase msg res) s [settle now phase msg wd] []"
proof -
  obtain wd' e where u: "k_UpdateStatusWD k (settle now phase msg wd) (env s) = (Inr wd', e)"
    using assms unfolding accepting_def by (metis prod.collapse)
  let ?s = "s\<lparr>env := e, trace := trace s @ [UpdateStatusWD (settle now phase msg wd) None]\<rparr>"
  let ?rest = "do {
     update_metrics (recordPhase (wd_Namespace wd') (wd_Name wd') (phase_string phase));
     (if wd_Phase wd \<noteq> phase then maybeNotify k wd' (wd_Phase wd) phase else return ());
     return (case res of Some r \<Rightarrow> r | None \<Rightarrow> requeueAfter (15 * Second), None :: api_error option) }"
  have "run_state (setStatus k wd phase msg res) s = run_state ?rest ?s"
    using assms u
    by (simp add: setStatus_def accepting_def run_applyFields maxRetries_def numeral_3_eq_3 r_StatusUpdate_def
        run_simps Let_def)
  moreover have "writes ?rest ?s [] []"
    by (intro writes_silent emits_intros emits_maybeNotify) simp
  ultimately show ?thesis
    unfolding writes_def by auto
qed

text \<open>The patches that bring a workload from \<open>w\<close> to \<open>w'\<close>: one, or none when there is nothing to do.\<close>

definition brings :: "workloadAccessor \<Rightarrow> workloadAccessor \<Rightarrow> (workloadAccessor \<times> workloadAccessor) list \<Rightarrow> bool" where
  "brings w w' ps \<longleftrightarrow> ps = [(w, w')] \<or> ps = [] \<and> w' = w"

lemma suspendWorkload_accepted:
  assumes "accepting k now"
  shows "\<exists>s' ps. run_state (suspendWorkload k wd w msg) s =
      ((None, suspend_result k wd w), s') \<and>
    writes (suspendWorkload k wd w msg) s [] ps \<and>
    brings w (snd (suspend_result k wd w)) ps"
proof -
  have p: "\<exists>e. k_Patch k w v (env s) = (Inr v, e)" for v
    using assms unfolding accepting_def by (metis prod.collapse)
  show ?thesis
    using p [of "setReplicas k 0 w"] p [of "setSuspend True w"]
    by (cases w) (auto simp: suspendWorkload_def scale_down_def run_simps Let_def writes_def brings_def)
qed

lemma restoreWorkload_accepted:
  assumes "accepting k now"
  shows "\<exists>s' ps. run_state (restoreWorkload k wd w) s = (None, s') \<and>
    writes (restoreWorkload k wd w) s [] ps \<and>
    brings w (restore_result k wd w) ps"
proof -
  have p: "\<exists>e. k_Patch k w v (env s) = (Inr v, e)" for v
    using assms unfolding accepting_def by (metis prod.collapse)
  show ?thesis
    using p [of "setReplicas k (the (SavedReplicas (wd_Status wd))) w"] p [of "setSuspend False w"]
    by (cases w; cases "SavedReplicas (wd_Status wd)")
       (auto simp: restoreWorkload_def scale_up_def run_simps Let_def writes_def brings_def)
qed

lemma perform_op_accepted:
  assumes "accepting k now"
  shows "\<exists>s' ps. run_state (perform_op k wd w msg op) s = ((None, fst (op_result k wd w op)), s') \<and>
    writes (perform_op k wd w msg op) s [] ps \<and> brings w (snd (op_result k wd w op)) ps"
proof -
  obtain wd' w' where r: "suspend_result k wd w = (wd', w')" by force
  obtain s1 ps where sus: "run_state (suspendWorkload k wd w msg) s = ((None, wd', w'), s1)"
    "writes (suspendWorkload k wd w msg) s [] ps" "brings w w' ps"
    using suspendWorkload_accepted [OF assms, of wd w msg s] r by auto
  have res: "\<exists>s' ps. run_state (restoreWorkload k wd w) t = (None, s') \<and>
    writes (restoreWorkload k wd w) t [] ps \<and> brings w (restore_result k wd w) ps" for t
    using restoreWorkload_accepted [OF assms] .
  show ?thesis
  proof (cases op)
    case SuspendOp
    with sus r show ?thesis by (auto simp: writes_def)
  next
    case ReenforceOp
    with sus r show ?thesis by (auto simp: writes_def run_simps)
  next
    case RestoreOp
    with res [of s] show ?thesis by (auto simp: writes_def)
  next
    case ReleaseOp
    define ev where "ev = Eventf EventTypeWarning ''MaxSuspendDurationExceeded''
       (''Restoring %s after %s (maxSuspendDuration exceeded) '' @ em_dash @ '' dependency still unhealthy'')
       [FStr (ref_Name (Dependent (wd_Spec wd))), FDur (MaxSuspendDuration (OnDegraded (wd_Spec wd)))]"
    obtain t qs where t: "run_state (restoreWorkload k wd w) (s\<lparr>trace := trace s @ [ev]\<rparr>) = (None, t)"
      "writes (restoreWorkload k wd w) (s\<lparr>trace := trace s @ [ev]\<rparr>) [] qs" "brings w (restore_result k wd w) qs"
      using res by blast
    then obtain xs where "trace t = trace s @ ev # xs" "status_writes xs = []" "patches xs = qs"
      by (auto simp: writes_def)
    with t ReleaseOp show ?thesis
      by (auto simp: writes_def run_simps simp flip: ev_def intro!: exI [of _ "ev # xs"]) (simp_all add: ev_def)
  qed (simp add: writes_def brings_def)
qed

lemma execute_outcome:
  assumes "accepting k now"
  shows "\<exists>ps. brings w (snd (outcome k wd w msg now v)) ps \<and>
    writes (execute k wd w msg now v) s
      (case realise wd w msg now v of Inl d \<Rightarrow> [] | Inr p \<Rightarrow> [fst (outcome k wd w msg now v)]) ps"
proof (cases "realise wd w msg now v")
  case (Inl d)
  then show ?thesis
    by (simp add: execute_def outcome_def writes_def brings_def)
next
  case (Inr p)
  obtain s' ps where op: "run_state (perform_op k wd w msg (p_op p)) s = ((None, fst (op_result k wd w (p_op p))), s')"
    "writes (perform_op k wd w msg (p_op p)) s [] ps" "brings w (snd (op_result k wd w (p_op p))) ps"
    using perform_op_accepted [OF assms] by metis
  have "writes (execute k wd w msg now v) s ([] @ [fst (outcome k wd w msg now v)]) (ps @ [])"
    unfolding execute_def Inr sum.case
    by (rule writes_bind [OF op(2,1)])
       (simp add: outcome_def Inr setStatus_accepted [OF assms] split: prod.splits)
  with op(3) Inr show ?thesis by (auto simp: outcome_def split: prod.splits)
qed

text \<open>
  C6.  On a server that accepts the writes, a reconciliation writes exactly what the
  outcome says: one status update, or none when it waits, and one workload patch, or none when
  the workload is left as it is.
\<close>

theorem act_outcome:
  assumes "accepting k now"
  shows "case outcome k wd w msg now (policy (observe k wd w allOk now)) of (wd', w') \<Rightarrow>
    brings w w' (patches (new_effects (act k wd w allOk msg now) s)) \<and>
    (status_writes (new_effects (act k wd w allOk msg now) s) = [wd'] \<or>
     status_writes (new_effects (act k wd w allOk msg now) s) = [] \<and> wd' = wd)"
proof -
  let ?v = "policy (observe k wd w allOk now)"
  have now: "k_Now k (env s) = (now, env s)" using assms by (simp add: accepting_def)
  have same: "new_effects (act k wd w allOk msg now) s = new_effects (execute k wd w msg now ?v) s"
    by (simp add: new_effects_def act_refines [OF now])
  obtain ps where "brings w (snd (outcome k wd w msg now ?v)) ps"
    "writes (execute k wd w msg now ?v) s
      (case realise wd w msg now ?v of Inl d \<Rightarrow> [] | Inr p \<Rightarrow> [fst (outcome k wd w msg now ?v)]) ps"
    using execute_outcome [OF assms] by blast
  then show ?thesis
    unfolding same
    by (cases "realise wd w msg now ?v")
       (auto dest!: writes_new_effects simp: outcome_def split: prod.splits)
qed

theorem act_outcome_witness:
  "accepting (yes_kube 100000000000) 100000000000 \<and>
   (case outcome (yes_kube 100000000000) degraded_wd running3 ''m'' 100000000000
          (policy (observe (yes_kube 100000000000) degraded_wd running3 False 100000000000)) of (wd', w') \<Rightarrow>
      wd_Phase wd' = PhaseSuspended \<and>
      brings running3 w' (patches (new_effects (act (yes_kube 100000000000) degraded_wd running3 False ''m'' 100000000000)
        (start (pair_cluster degraded_wd 3 1)))))"
proof -
  have a: "accepting (yes_kube 100000000000) 100000000000" by (simp add: accepting_def yes_kube_def mem_kube_def)
  have "wd_Phase (fst (outcome (yes_kube 100000000000) degraded_wd running3 ''m'' 100000000000
     (policy (observe (yes_kube 100000000000) degraded_wd running3 False 100000000000)))) = PhaseSuspended"
    by code_simp
  with a act_outcome [OF a, where wd = degraded_wd and w = running3 and msg = "''m''" and allOk = False
      and s = "start (pair_cluster degraded_wd 3 1)"]
  show ?thesis by (simp split: prod.splits)
qed

section \<open>Vocabulary of the closed loop\<close>

text \<open>A well-formed status: a suspension time exactly in phase \<open>Suspended\<close>, and one condition of each type.\<close>

definition wf_status :: "WorkloadDependencyStatus \<Rightarrow> bool" where
  "wf_status s \<longleftrightarrow>
     (SuspendedAt s \<noteq> None \<longleftrightarrow> Phase s = PhaseSuspended) \<and> distinct (map cond_Type (Conditions s))"

lemma wf_conditions: "wf_status s \<Longrightarrow> distinct (map cond_Type (Conditions s))"
  by (simp add: wf_status_def)

text \<open>Deployments and stateful sets, whose count can always be written.\<close>

fun plain :: "workloadAccessor \<Rightarrow> bool" where
  "plain (DeploymentAccessor _) = True"
| "plain (StatefulSetAccessor _) = True"
| "plain _ = False"

fun_cases plainE: "plain w"

lemma plain_setReplicas [simp]: "plain (setReplicas k m w) = plain w"
  by (cases w) simp_all

lemma plain_simps [simp]:
  "plain w \<Longrightarrow> \<not> is_progressing_rollout k w"
  "plain w \<Longrightarrow> writable k w"
  "plain w \<Longrightarrow> suspend_result k wd w =
     (if getReplicas k w = 0 then (wd, w)
      else (upd_status (\<lambda>s. s\<lparr>SavedReplicas := Some (getReplicas k w)\<rparr>) wd, setReplicas k 0 w))"
  "plain w \<Longrightarrow> restore_result k wd w =
     (case SavedReplicas (wd_Status wd) of None \<Rightarrow> w | Some n \<Rightarrow> if n = 0 then w else setReplicas k n w)"
  "plain w \<Longrightarrow> getReplicas k (setReplicas k m w) = m"
  by (erule plainE; simp add: dep_acc.get_set sts_acc.get_set split: option.splits)+

lemma sub_time_mono: "h \<le> t \<Longrightarrow> d \<le>s sub_time u t \<Longrightarrow> d \<le>s sub_time u h"
  by (simp add: word_sle_eq sint_sub_time)

text \<open>The same outside with a clock that stands still.\<close>

definition at_time :: "gotime \<Rightarrow> 'e kube \<Rightarrow> 'e kube" where
  "at_time now k = k\<lparr>k_Now := (\<lambda>e. (now, e))\<rparr>"

text \<open>The clock is no part of what the accessors use of the interface.\<close>

lemma at_time_rollout [simp]:
  "rollout_getReplicas (at_time now k) u = rollout_getReplicas k u"
  "rollout_setReplicas (at_time now k) n u = rollout_setReplicas k n u"
  "rollout_isProgressing (at_time now k) u = rollout_isProgressing k u"
  by (simp_all add: at_time_def rollout_getReplicas_def rollout_setReplicas_def rollout_isProgressing_def rollout_phase_def)

lemma at_time_accessors [simp]:
  "getReplicas (at_time now k) w = getReplicas k w"
  "setReplicas (at_time now k) n w = setReplicas k n w"
  "is_progressing_rollout (at_time now k) w = is_progressing_rollout k w"
  by (cases w; simp)+

lemma at_time_observe [simp]: "observe (at_time now k) wd w allOk t = observe k wd w allOk t"
  by (cases w) (simp_all add: observe_def needsEnforce_def)

abbreviation here :: "WorkloadDependency \<Rightarrow> cluster world" where
  "here wd \<equiv> start (pair_cluster wd 3 1)"

section \<open>Waiting ends\<close>

text \<open>A computation that takes at least one visible action.\<close>

definition acts :: "('e, 'a) go \<Rightarrow> bool" where
  "acts m \<longleftrightarrow> (\<forall>s. \<exists>x xs. trace (snd (run_state m s)) = trace s @ x # xs)"

lemma acts_new_effects: "acts m \<Longrightarrow> new_effects m s \<noteq> []"
  unfolding acts_def new_effects_def by (metis append_eq_conv_conj list.distinct(1))

lemma acts_bind_first:
  assumes "acts m" and "\<And>a. emits (\<lambda>_. True) (f a)"
  shows "acts (State_Monad.bind m f)"
  unfolding acts_def
proof
  fix s
  obtain a s' where m: "run_state m s = (a, s')" by force
  with assms(1) obtain x xs where "trace s' = trace s @ x # xs" unfolding acts_def by (metis snd_conv)
  moreover obtain ys where "trace (snd (run_state (f a) s')) = trace s' @ ys" using assms(2) unfolding emits_def by meson
  ultimately show "\<exists>x xs. trace (snd (run_state (State_Monad.bind m f) s)) = trace s @ x # xs" using m by auto
qed

lemma acts_bind_second:
  assumes "emits (\<lambda>_. True) m" and "\<And>a. acts (f a)"
  shows "acts (State_Monad.bind m f)"
  unfolding acts_def
proof
  fix s
  obtain a s' where m: "run_state m s = (a, s')" by force
  with assms(1) obtain ys where "trace s' = trace s @ ys" unfolding emits_def by (metis snd_conv)
  moreover obtain x xs where "trace (snd (run_state (f a) s')) = trace s' @ x # xs" using assms(2) unfolding acts_def by meson
  ultimately have "trace (snd (run_state (State_Monad.bind m f) s)) = trace s @ (ys @ x # xs)" using m by simp
  then show "\<exists>x xs. trace (snd (run_state (State_Monad.bind m f) s)) = trace s @ x # xs" by (cases ys) auto
qed

lemma emits_any_update_loop: "emits (\<lambda>_. True) (update_loop k sn phase msg n wd)"
  by (induction n arbitrary: wd) (auto intro!: emits_intros emits_applyFields)

lemma acts_setStatus: "acts (setStatus k wd phase msg res)"
proof -
  have "acts (r_StatusUpdate k wd)" for wd
    by (auto simp: acts_def r_StatusUpdate_def run_simps split: prod.splits)
  then have "acts (update_loop k sn phase msg (Suc n) wd)" for sn n wd
    unfolding update_loop.simps
    by (rule acts_bind_first)
       (intro emits_intros, auto intro: emits_any_update_loop emits_applyFields)
  then have "acts (update_loop k sn phase msg maxRetries wd)" for sn wd
    by (simp add: maxRetries_def numeral_3_eq_3)
  then show ?thesis
    unfolding setStatus_def Let_def
    by (intro acts_bind_second acts_bind_first emits_applyFields)
       (auto intro!: emits_intros emits_maybeNotify split: update_outcome.splits)
qed

lemma perform_op_error:
  assumes "run_state (perform_op k wd w msg op) s = ((Some e, wd'), s')"
  shows "\<exists>x xs. trace s' = trace s @ x # xs"
  using assms
  by (cases op; cases w)
     (auto simp: suspendWorkload_def scale_down_def restoreWorkload_def scale_up_def run_simps Let_def
        split: if_splits prod.splits sum.splits option.splits)

lemma emits_perform_op: "emits (\<lambda>_. True) (perform_op k wd w msg op)"
  by (cases op) (auto intro!: emits_intros emits_suspendWorkload emits_restoreWorkload)

lemma execute_acts:
  assumes "realise wd w msg now v = Inr p"
  shows "acts (execute k wd w msg now v)"
  unfolding acts_def
proof
  fix s
  obtain err wd' s' where r: "run_state (perform_op k wd w msg (p_op p)) s = ((err, wd'), s')" by (metis prod.exhaust)
  show "\<exists>x xs. trace (snd (run_state (execute k wd w msg now v) s)) = trace s @ x # xs"
  proof (cases err)
    case None
    have "acts (State_Monad.bind (perform_op k wd w msg (p_op p))
      (\<lambda>(_, wd). setStatus k (upd_status (p_change p) wd) (p_phase p) (p_msg p) (p_result p)))"
      by (rule acts_bind_second) (auto intro: emits_perform_op acts_setStatus)
    then show ?thesis using r None assms by (auto simp: execute_def acts_def split: prod.splits)
  next
    case (Some e)
    then show ?thesis using perform_op_error [OF r [unfolded Some]] r assms by (simp add: execute_def run_simps)
  qed
qed

lemma due_realised: "due v = Some action \<Longrightarrow> \<exists>p. realise wd w msg now action = Inr p"
  by (cases v) auto

lemma inert_realised:
  assumes "new_effects (execute k wd w msg now v) s = []"
  shows "\<exists>d. realise wd w msg now v = Inl d"
  using acts_new_effects [OF execute_acts, of wd w msg now v _ k s] assms by (cases "realise wd w msg now v") auto

lemma wait_realised: "realise wd w msg now v = Inl d \<Longrightarrow> pause v = d \<and> (\<exists>action. due v = Some action)"
  by (cases v) auto

lemma act_at_time:
  "run_state (act (at_time now k) wd w allOk msg now) s =
     run_state (execute (at_time now k) wd w msg now (policy (observe k wd w allOk now))) s"
proof -
  have "k_Now (at_time now k) (env s) = (now, env s)" by (simp add: at_time_def)
  from act_refines [OF this] show ?thesis by simp
qed




end
