(* ===== verification/Closed_Loop.thy ===== *)
theory Closed_Loop
  imports Outcome
begin

text \<open>
  The reconciler and the API server as one system.  \<open>api_store\<close> is the contract of a server that
  stores one object and its dependent: reads tell what is stored, accepted writes are stored, a
  refused write changes nothing.  Every call may fail, and the clock is free.  Between two
  reconciliations anybody else may act, within what a theorem allows.  The invariants are about
  what the server stores, and about whole calls of \<open>Reconcile\<close>.
\<close>

section \<open>Computations that leave a view of the world alone\<close>

definition keeps :: "('e world \<Rightarrow> 'v) \<Rightarrow> ('e, 'a) go \<Rightarrow> bool" where
  "keeps v m \<longleftrightarrow> (\<forall>s. v (snd (run_state m s)) = v s)"

named_theorems keeps_intros \<open>which computations leave a view alone\<close>

lemma keeps_return [keeps_intros]: "keeps v (State_Monad.return a)"
  by (simp add: keeps_def)

lemma keeps_bind [keeps_intros]:
  "keeps v m \<Longrightarrow> (\<And>a. keeps v (f a)) \<Longrightarrow> keeps v (State_Monad.bind m f)"
  by (simp add: keeps_def split: prod.splits) (metis snd_conv)

lemma keeps_if [keeps_intros]: "keeps v m \<Longrightarrow> keeps v n \<Longrightarrow> keeps v (if b then m else n)"
  by simp

lemma keeps_case_sum [keeps_intros]:
  "(\<And>e. keeps v (f e)) \<Longrightarrow> (\<And>a. keeps v (g a)) \<Longrightarrow> keeps v (case x of Inl e \<Rightarrow> f e | Inr a \<Rightarrow> g a)"
  by (cases x) simp_all

lemma keeps_case_option [keeps_intros]:
  "keeps v m \<Longrightarrow> (\<And>a. keeps v (g a)) \<Longrightarrow> keeps v (case x of None \<Rightarrow> m | Some a \<Rightarrow> g a)"
  by (cases x) simp_all

lemma keeps_case_prod [keeps_intros]: "(\<And>a b. keeps v (f a b)) \<Longrightarrow> keeps v (case x of (a, b) \<Rightarrow> f a b)"
  by (cases x) simp

lemma keeps_case_accessor [keeps_intros]:
  "(\<And>d. keeps v (f d)) \<Longrightarrow> (\<And>d. keeps v (g d)) \<Longrightarrow> (\<And>d. keeps v (h d)) \<Longrightarrow> (\<And>d. keeps v (i d)) \<Longrightarrow>
   keeps v (case w of DeploymentAccessor d \<Rightarrow> f d | StatefulSetAccessor d \<Rightarrow> g d
     | CronJobAccessor d \<Rightarrow> h d | RolloutAccessor d \<Rightarrow> i d)"
  by (cases w) simp_all

lemma keeps_Let [keeps_intros]: "keeps v (f t) \<Longrightarrow> keeps v (let x = t in f x)"
  by simp

lemma wp_return_all: "wp (State_Monad.return a) Q = Q a"
  by (rule ext) (simp add: wp_return)

lemma wp_keeps:
  assumes "keeps v m" and "yields m R" and "\<And>a t. R a \<Longrightarrow> v t = v s \<Longrightarrow> Q a t"
  shows "wp m Q s"
  using assms by (simp add: keeps_def yields_def wp_run)

lemma wp_keeps_any:
  assumes "keeps v m" and "\<And>a t. v t = v s \<Longrightarrow> Q a t"
  shows "wp m Q s"
  using assms by (simp add: keeps_def wp_run)

section \<open>The contract of the server\<close>

text \<open>What a read of the dependent named by \<open>wd\<close> returns.\<close>

definition read_target :: "'e kube \<Rightarrow> WorkloadDependency \<Rightarrow> 'e \<Rightarrow> api_error + workloadAccessor" where
  "read_target k wd e =
     (let ref = Dependent (wd_Spec wd); nn = \<lparr>nn_Namespace = dependentNS wd, nn_Name = ref_Name ref\<rparr> in
      if ref_Kind ref = ''StatefulSet'' then map_sum id StatefulSetAccessor (fst (k_GetStatefulSet k nn e))
      else if ref_Kind ref = ''CronJob'' then map_sum id CronJobAccessor (fst (k_GetCronJob k nn e))
      else if ref_Kind ref = ''Rollout'' then map_sum id RolloutAccessor (fst (k_GetRollout k nn e))
      else map_sum id DeploymentAccessor (fst (k_GetDeployment k nn e)))"

definition same_identity :: "WorkloadDependency \<Rightarrow> WorkloadDependency \<Rightarrow> bool" where
  "same_identity a b \<longleftrightarrow>
     meta_Name (wd_Meta a) = meta_Name (wd_Meta b) \<and> meta_Namespace (wd_Meta a) = meta_Namespace (wd_Meta b) \<and>
     meta_Annotations (wd_Meta a) = meta_Annotations (wd_Meta b) \<and>
     meta_Finalizers (wd_Meta a) = meta_Finalizers (wd_Meta b) \<and>
     meta_DeletionTimestamp (wd_Meta a) = meta_DeletionTimestamp (wd_Meta b)"

text \<open>
  \<open>obj e\<close> and \<open>tgt e\<close> are the object and the dependent as the server in \<open>e\<close> stores them.  A status
  update sent for the current version replaces the status and nothing else; an update that
  sends the stored status leaves it alone, and may remove the object.
\<close>

definition reads_leave :: "'e kube \<Rightarrow> ('e \<Rightarrow> WorkloadDependency option) \<Rightarrow> ('e \<Rightarrow> workloadAccessor option) \<Rightarrow> bool" where
  "reads_leave k obj tgt \<longleftrightarrow>
     (let same = (\<lambda>e e'. obj e' = obj e \<and> tgt e' = tgt e) in
      (\<forall>e. same e (snd (k_Now k e))) \<and>
      (\<forall>nn e. same e (snd (k_GetWD k nn e))) \<and> (\<forall>opt e. same e (snd (k_ListWD k opt e))) \<and>
      (\<forall>nn e. same e (snd (k_GetDeployment k nn e))) \<and> (\<forall>nn e. same e (snd (k_GetStatefulSet k nn e))) \<and>
      (\<forall>nn e. same e (snd (k_GetCronJob k nn e))) \<and> (\<forall>nn e. same e (snd (k_GetRollout k nn e))) \<and>
      (\<forall>nn e. same e (snd (k_GetSecret k nn e))))"

definition reads_tell ::
  "'e kube \<Rightarrow> NamespacedName \<Rightarrow> ('e \<Rightarrow> WorkloadDependency option) \<Rightarrow> ('e \<Rightarrow> workloadAccessor option) \<Rightarrow> bool" where
  "reads_tell k key obj tgt \<longleftrightarrow>
     (\<forall>e wd. fst (k_GetWD k key e) = Inr wd \<longrightarrow> obj e = Some wd) \<and>
     (\<forall>e wd. obj e = Some wd \<longrightarrow> wd_key wd = key \<and>
        (case read_target k wd e of Inr w \<Rightarrow> tgt e = Some w | Inl err \<Rightarrow> err = NotFound \<longrightarrow> tgt e = None))"

definition patches_stored :: "'e kube \<Rightarrow> ('e \<Rightarrow> WorkloadDependency option) \<Rightarrow> ('e \<Rightarrow> workloadAccessor option) \<Rightarrow> bool" where
  "patches_stored k obj tgt \<longleftrightarrow> (\<forall>b w e r e'. k_Patch k b w e = (r, e') \<longrightarrow>
     obj e' = obj e \<and>
     (case r of Inl _ \<Rightarrow> tgt e' = tgt e
      | Inr w' \<Rightarrow> tgt e = Some b \<longrightarrow> same_workload b w \<longrightarrow> w' = w \<and> tgt e' = Some w))"

definition status_stored :: "'e kube \<Rightarrow> ('e \<Rightarrow> WorkloadDependency option) \<Rightarrow> ('e \<Rightarrow> workloadAccessor option) \<Rightarrow> bool" where
  "status_stored k obj tgt \<longleftrightarrow> (\<forall>wd c e r e'. k_UpdateStatusWD k wd e = (r, e') \<longrightarrow>
     obj e = Some c \<longrightarrow> wd_Meta wd = wd_Meta c \<longrightarrow> wd_Spec wd = wd_Spec c \<longrightarrow>
     tgt e' = tgt e \<and>
     (case r of Inl _ \<Rightarrow> obj e' = obj e
      | Inr wd' \<Rightarrow> obj e' = Some wd' \<and> wd_Status wd' = wd_Status wd \<and> wd_Spec wd' = wd_Spec c \<and> same_identity wd' c))"

definition updates_stored :: "'e kube \<Rightarrow> ('e \<Rightarrow> WorkloadDependency option) \<Rightarrow> ('e \<Rightarrow> workloadAccessor option) \<Rightarrow> bool" where
  "updates_stored k obj tgt \<longleftrightarrow> (\<forall>wd c e r e'. k_UpdateWD k wd e = (r, e') \<longrightarrow>
     obj e = Some c \<longrightarrow> wd_Spec wd = wd_Spec c \<longrightarrow> wd_Status wd = wd_Status c \<longrightarrow>
     tgt e' = tgt e \<and> (case obj e' of None \<Rightarrow> True | Some c' \<Rightarrow> wd_Status c' = wd_Status c))"

definition api_store ::
  "'e kube \<Rightarrow> NamespacedName \<Rightarrow> ('e \<Rightarrow> WorkloadDependency option) \<Rightarrow> ('e \<Rightarrow> workloadAccessor option) \<Rightarrow> bool" where
  "api_store k key obj tgt \<longleftrightarrow>
     reads_leave k obj tgt \<and> reads_tell k key obj tgt \<and> patches_stored k obj tgt \<and>
     status_stored k obj tgt \<and> updates_stored k obj tgt"

text \<open>The contract call by call.\<close>

lemma store_GetWD:
  assumes "api_store k key obj tgt" and "k_GetWD k nn e = (g, e')"
  shows "obj e' = obj e" "tgt e' = tgt e" "nn = key \<Longrightarrow> g = Inr wd \<Longrightarrow> obj e = Some wd"
proof -
  have "obj (snd (k_GetWD k nn e)) = obj e \<and> tgt (snd (k_GetWD k nn e)) = tgt e"
    using assms(1) by (simp add: api_store_def reads_leave_def Let_def)
  then show "obj e' = obj e" "tgt e' = tgt e" by (simp_all add: assms(2))
  have "fst (k_GetWD k key e) = Inr wd \<Longrightarrow> obj e = Some wd"
    using assms(1) by (simp add: api_store_def reads_tell_def)
  then show "nn = key \<Longrightarrow> g = Inr wd \<Longrightarrow> obj e = Some wd" using assms(2) by simp
qed

lemma store_key: "api_store k key obj tgt \<Longrightarrow> obj e = Some wd \<Longrightarrow> wd_key wd = key"
  by (simp add: api_store_def reads_tell_def)

lemma store_target:
  "api_store k key obj tgt \<Longrightarrow> obj e = Some wd \<Longrightarrow> read_target k wd e = Inr w \<Longrightarrow> tgt e = Some w"
  "api_store k key obj tgt \<Longrightarrow> obj e = Some wd \<Longrightarrow> read_target k wd e = Inl NotFound \<Longrightarrow> tgt e = None"
  unfolding api_store_def reads_tell_def by fastforce+

lemma store_Patch:
  assumes "api_store k key obj tgt" and "k_Patch k b w e = (r, e')"
  shows "obj e' = obj e" "r = Inl err \<Longrightarrow> tgt e' = tgt e"
    "r = Inr w' \<Longrightarrow> tgt e = Some b \<Longrightarrow> same_workload b w \<Longrightarrow> w' = w \<and> tgt e' = Some w"
  using assms unfolding api_store_def patches_stored_def by fastforce+

lemma store_status:
  assumes "api_store k key obj tgt" and "k_UpdateStatusWD k wd e = (r, e')"
    and "obj e = Some c" and "wd_Meta wd = wd_Meta c" and "wd_Spec wd = wd_Spec c"
  shows "tgt e' = tgt e" "r = Inl err \<Longrightarrow> obj e' = Some c"
    "r = Inr wd' \<Longrightarrow> obj e' = Some wd' \<and> wd_Status wd' = wd_Status wd \<and> wd_Spec wd' = wd_Spec c \<and> same_identity wd' c"
  using assms unfolding api_store_def status_stored_def by fastforce+

lemma store_Update:
  assumes "api_store k key obj tgt" and "k_UpdateWD k wd e = (r, e')"
    and "obj e = Some c" and "wd_Spec wd = wd_Spec c" and "wd_Status wd = wd_Status c"
  shows "tgt e' = tgt e" "obj e' = Some c' \<Longrightarrow> wd_Status c' = wd_Status c"
  using assms unfolding api_store_def updates_stored_def by fastforce+

text \<open>The view that reads leave alone, with and without the trace.\<close>

definition full :: "('e \<Rightarrow> WorkloadDependency option) \<Rightarrow> ('e \<Rightarrow> workloadAccessor option) \<Rightarrow> 'e world
    \<Rightarrow> WorkloadDependency option \<times> workloadAccessor option \<times> effect list" where
  "full obj tgt s = (obj (env s), tgt (env s), trace s)"

definition stock :: "('e \<Rightarrow> WorkloadDependency option) \<Rightarrow> ('e \<Rightarrow> workloadAccessor option) \<Rightarrow> 'e world
    \<Rightarrow> WorkloadDependency option \<times> workloadAccessor option" where
  "stock obj tgt s = (obj (env s), tgt (env s))"

lemma keeps_full_outside:
  "(\<And>e. obj (snd (f e)) = obj e \<and> tgt (snd (f e)) = tgt e) \<Longrightarrow> keeps (full obj tgt) (outside f)"
  by (simp add: keeps_def full_def outside_def split: prod.splits) (metis snd_conv)

lemma keeps_full_metrics: "keeps (full obj tgt) (update_metrics f)"
  by (simp add: keeps_def full_def run_simps)

lemma keeps_stock: "keeps (full obj tgt) m \<Longrightarrow> keeps (stock obj tgt) m"
  by (simp add: keeps_def full_def stock_def)

lemma keeps_stock_emit [keeps_intros]: "keeps (stock obj tgt) (emit x)"
  by (simp add: keeps_def stock_def run_simps)

lemma keeps_stock_metrics [keeps_intros]: "keeps (stock obj tgt) (update_metrics f)"
  by (rule keeps_stock [OF keeps_full_metrics])

lemma keeps_full_reads:
  assumes "api_store k key obj tgt"
  shows "keeps (full obj tgt) (metav1_Now k)" "keeps (full obj tgt) (outside (k_GetWD k nn))"
    "keeps (full obj tgt) (outside (k_ListWD k opt))" "keeps (full obj tgt) (outside (k_GetDeployment k nn))"
    "keeps (full obj tgt) (outside (k_GetStatefulSet k nn))" "keeps (full obj tgt) (outside (k_GetCronJob k nn))"
    "keeps (full obj tgt) (outside (k_GetRollout k nn))" "keeps (full obj tgt) (outside (k_GetSecret k nn))"
  using assms unfolding api_store_def reads_leave_def Let_def metav1_Now_def
  by (simp_all add: keeps_full_outside)

lemma keeps_full_time_Since:
  "api_store k key obj tgt \<Longrightarrow> keeps (full obj tgt) (time_Since k t)"
  unfolding time_Since_def by (intro keeps_intros keeps_full_reads)

lemma keeps_full_getWorkload:
  "api_store k key obj tgt \<Longrightarrow> keeps (full obj tgt) (getWorkload k kind name ns)"
  unfolding getWorkload_def getRollout_def by (intro keeps_intros keeps_full_reads)

lemma keeps_full_evalDependencies:
  assumes "api_store k key obj tgt"
  shows "keeps (full obj tgt) (evalDependencies k wd deps ok msg)"
proof (induction deps arbitrary: ok msg)
  case (Cons dep deps)
  then show ?case
    unfolding evalDependencies.simps depStatus_def suspended_or_unhealthy_def isSuspendedByKlink_def
    by (intro keeps_intros keeps_full_getWorkload [OF assms] keeps_full_reads [OF assms])
qed (simp add: keeps_intros)

lemma keeps_full_DetectCycle: "api_store k key obj tgt \<Longrightarrow> keeps (full obj tgt) (DetectCycle k wd)"
  unfolding DetectCycle_def by (intro keeps_intros keeps_full_reads)

lemma keeps_full_applyFields:
  "api_store k key obj tgt \<Longrightarrow> keeps (full obj tgt) (applyFields k sn phase msg wd)"
  unfolding applyFields_def stamp_suspended_def setCondition_def
  by (intro keeps_intros keeps_full_reads)

lemma keeps_stock_maybeNotify:
  "api_store k key obj tgt \<Longrightarrow> keeps (stock obj tgt) (maybeNotify k wd prev new)"
  unfolding maybeNotify_def resolveWebhookURL_def
  by (intro keeps_intros keeps_stock [OF keeps_full_reads(1)] keeps_stock [OF keeps_full_reads(8)])

section \<open>What the writing operations store\<close>

text \<open>
  \<open>records c wd phase st\<close>: \<open>st\<close> is what a status update for the stored object \<open>c\<close> stores when the caller
  has prepared \<open>wd\<close>.  After a conflict a field that the caller has cleared comes back.
\<close>

definition conds_ok :: "WorkloadDependency \<Rightarrow> bool" where
  "conds_ok wd \<longleftrightarrow> distinct (map cond_Type (Conditions (wd_Status wd)))"

definition saved_from :: "WorkloadDependency \<Rightarrow> WorkloadDependency \<Rightarrow> int32 option \<Rightarrow> bool" where
  "saved_from c wd n \<longleftrightarrow>
     n = SavedReplicas (wd_Status wd) \<or> n = or_keep (SavedReplicas (wd_Status wd)) (SavedReplicas (wd_Status c))"

definition records :: "WorkloadDependency \<Rightarrow> WorkloadDependency \<Rightarrow> DependencyPhase \<Rightarrow> WorkloadDependency \<Rightarrow> bool" where
  "records c wd phase st \<longleftrightarrow>
     wd_Spec st = wd_Spec c \<and> same_identity st c \<and> wd_Phase st = phase \<and>
     saved_from c wd (SavedReplicas (wd_Status st)) \<and>
     (conds_ok c \<longrightarrow> conds_ok wd \<longrightarrow> wf_status (wd_Status st))"

lemma applyFields_result:
  "yields (applyFields k sn phase msg wd) (\<lambda>r. wd_Meta r = wd_Meta wd \<and> wd_Spec r = wd_Spec wd \<and> wd_Phase r = phase \<and>
     SavedReplicas (wd_Status r) = or_keep (snap_saved sn) (SavedReplicas (wd_Status wd)) \<and>
     (conds_ok wd \<longrightarrow> wf_status (wd_Status r)))"
  unfolding yields_def
  by (auto simp: applyFields_def stamp_suspended_def setCondition_def run_simps restore_snapshot_def
      wf_status_def conds_ok_def set_condition_at_def put_condition_distinct split: prod.splits option.splits)

fun accepted_status :: "effect \<Rightarrow> bool" where
  "accepted_status (UpdateStatusWD _ None) = True"
| "accepted_status _ = False"

definition unstored :: "'e world \<Rightarrow> 'e world \<Rightarrow> bool" where
  "unstored s t \<longleftrightarrow> (\<exists>xs. trace t = trace s @ xs \<and> list_all (\<lambda>x. \<not> accepted_status x) xs)"

lemma unstored_refl: "trace t = trace s \<Longrightarrow> unstored s t"
  by (simp add: unstored_def)

lemma update_loop_stores:
  assumes "api_store k key obj tgt" and "obj (env s) = Some c"
    and "wd_Meta wd = wd_Meta c" and "wd_Spec wd = wd_Spec c" and "wd_Phase wd = phase"
    and "saved_from c wd0 (SavedReplicas (wd_Status wd))" and "snap_saved sn = SavedReplicas (wd_Status wd0)"
    and "conds_ok c \<longrightarrow> conds_ok wd0 \<longrightarrow> wf_status (wd_Status wd)"
  shows "wp (update_loop k sn phase msg n wd) (\<lambda>out t. tgt (env t) = tgt (env s) \<and>
    (case out of Stored wd' \<Rightarrow> obj (env t) = Some wd' \<and> records c wd0 phase wd'
     | _ \<Rightarrow> obj (env t) = Some c \<and> unstored s t)) s"
  using assms(2-)
proof (induction n arbitrary: wd s)
  case (Suc n)
  obtain r e where u: "k_UpdateStatusWD k wd (env s) = (r, e)" by force
  note st = store_status [OF assms(1) u Suc.prems(1-3)]
  let ?s = "s\<lparr>env := e, trace := trace s @ [UpdateStatusWD wd (err_of r)]\<rparr>"
  have key: "wd_key wd = key" using store_key [OF assms(1) Suc.prems(1)] Suc.prems(2) by simp
  show ?case
  proof (cases r)
    case (Inr wd')
    with st u Suc.prems show ?thesis by (simp add: r_StatusUpdate_def wp_simps records_def)
  next
    case (Inl err)
    then have e: "obj e = Some c" "tgt e = tgt (env s)" using st by simp_all
    let ?Q = "\<lambda>out t. tgt (env t) = tgt (env s) \<and>
      (case out of Stored wd' \<Rightarrow> obj (env t) = Some wd' \<and> records c wd0 phase wd'
       | _ \<Rightarrow> obj (env t) = Some c \<and> unstored s t)"
    have again: "wp (do { wd \<leftarrow> applyFields k sn phase msg c; update_loop k sn phase msg n wd }) ?Q t"
      if "full obj tgt t = full obj tgt ?s" for t
    proof (unfold wp_bind, rule wp_keeps [OF keeps_full_applyFields [OF assms(1)] applyFields_result])
      fix a u
      assume a: "wd_Meta a = wd_Meta c \<and> wd_Spec a = wd_Spec c \<and> wd_Phase a = phase \<and>
          SavedReplicas (wd_Status a) = or_keep (snap_saved sn) (SavedReplicas (wd_Status c)) \<and>
          (conds_ok c \<longrightarrow> wf_status (wd_Status a))" and u: "full obj tgt u = full obj tgt t"
      have "obj (env u) = Some c" "tgt (env u) = tgt (env s)" "trace u = trace ?s"
        using that u e by (simp_all add: full_def)
      then show "wp (update_loop k sn phase msg n a) ?Q u"
        using a Suc.prems(6) by (intro wp_mono [OF Suc.IH]) (auto simp: Inl saved_from_def unstored_def split: update_outcome.splits)
    qed
    obtain g e2 where g: "k_GetWD k (wd_key wd) e = (g, e2)" by force
    have e2: "obj e2 = Some c" "tgt e2 = tgt (env s)"
      using store_GetWD(1,2) [OF assms(1) g] e by simp_all
    have "g = Inr latest \<Longrightarrow> latest = c" for latest
      using store_GetWD(3) [OF assms(1) g key] e(1) by simp
    then show ?thesis
      using u Inl e e2 g again [of "?s\<lparr>env := e2\<rparr>"]
      by (auto simp: r_StatusUpdate_def wp_simps full_def unstored_def split: sum.splits)
  qed
qed (simp add: wp_simps unstored_refl)

text \<open>
  \<open>settled\<close> is the effect of \<open>setStatus\<close> on what is stored: the update is recorded, or nothing is
  stored and every update was refused.
\<close>

definition settled ::
  "('e \<Rightarrow> WorkloadDependency option) \<Rightarrow> ('e \<Rightarrow> workloadAccessor option) \<Rightarrow> WorkloadDependency \<Rightarrow> WorkloadDependency
     \<Rightarrow> DependencyPhase \<Rightarrow> 'e world \<Rightarrow> 'e world \<Rightarrow> bool" where
  "settled obj tgt c wd phase s t \<longleftrightarrow> tgt (env t) = tgt (env s) \<and>
     ((\<exists>st. obj (env t) = Some st \<and> records c wd phase st) \<or> obj (env t) = Some c \<and> unstored s t)"

lemma not_settled:
  "tgt (env t) = tgt (env s) \<Longrightarrow> obj (env t) = Some c \<Longrightarrow> trace t = trace s @ xs \<Longrightarrow> list_all (\<lambda>x. \<not> accepted_status x) xs \<Longrightarrow>
     settled obj tgt c wd phase s t"
  by (auto simp: settled_def unstored_def)

lemma stored_settled:
  assumes "keeps (stock obj tgt) m" and "obj (env t) = Some st" and "records c wd phase st" and "tgt (env t) = tgt (env s)"
  shows "wp m (\<lambda>_. settled obj tgt c wd phase s) t"
  by (rule wp_keeps_any [OF assms(1)]) (use assms(2-) in \<open>auto simp: stock_def settled_def\<close>)

lemma setStatus_settles:
  assumes "api_store k key obj tgt" and "obj (env s) = Some c"
    and "wd_Meta wd = wd_Meta c" and "wd_Spec wd = wd_Spec c"
  shows "wp (setStatus k wd phase msg res) (\<lambda>_. settled obj tgt c wd phase s) s"
  unfolding setStatus_def Let_def wp_bind
proof (rule wp_keeps [OF keeps_full_applyFields [OF assms(1)] applyFields_result])
  fix a t
  assume a: "wd_Meta a = wd_Meta wd \<and> wd_Spec a = wd_Spec wd \<and> wd_Phase a = phase \<and>
      SavedReplicas (wd_Status a) = or_keep (snap_saved (take_snapshot wd)) (SavedReplicas (wd_Status wd)) \<and>
      (conds_ok wd \<longrightarrow> wf_status (wd_Status a))" and t: "full obj tgt t = full obj tgt s"
  have sn: "snap_saved (take_snapshot wd) = SavedReplicas (wd_Status wd)" by (simp add: take_snapshot_def)
  have t': "obj (env t) = Some c" "tgt (env t) = tgt (env s)" "trace t = trace s"
    using t assms(2) by (simp_all add: full_def)
  show "wp (update_loop k (take_snapshot wd) phase msg maxRetries a) (\<lambda>out. wp (case out of
      Stored wd' \<Rightarrow> do {
        update_metrics (recordPhase (wd_Namespace wd') (wd_Name wd') (phase_string phase));
        (if wd_Phase wd \<noteq> phase then maybeNotify k wd' (wd_Phase wd) phase else return ());
        return (case res of None \<Rightarrow> requeueAfter (15 * Second) | Some r \<Rightarrow> r, None) }
    | UpdateFailed err \<Rightarrow> return (emptyResult, Some err) | Exhausted \<Rightarrow> return (requeueNow, None))
    (\<lambda>_. settled obj tgt c wd phase s)) t"
    by (rule wp_mono [OF update_loop_stores [OF assms(1) t'(1), where ?wd0.0 = wd]])
       (use a sn t' assms(3,4) in
         \<open>auto simp: saved_from_def wp_return unstored_def split: update_outcome.splits 
           intro!: not_settled stored_settled keeps_intros keeps_stock_maybeNotify [OF assms(1)]\<close>)
qed

lemma same_workload_set [simp]:
  "plain w \<Longrightarrow> same_workload w (setReplicas k n w)"
  by (cases w) (simp_all add: same_workload_def deployment_setReplicas_def statefulSet_setReplicas_def)

text \<open>A suspension that the server has accepted and of which no status update was.\<close>

definition unrecorded :: "'e kube \<Rightarrow> effect list \<Rightarrow> bool" where
  "unrecorded k xs \<longleftrightarrow>
     (\<exists>b w. PatchWorkload b w None \<in> set xs \<and> suspending k b w) \<and> list_all (\<lambda>x. \<not> accepted_status x) xs"

lemma restoreWorkload_stores:
  assumes "api_store k key obj tgt" and "tgt (env s) = Some w" and "plain w"
  shows "wp (restoreWorkload k wd w) (\<lambda>err t. obj (env t) = obj (env s) \<and>
    tgt (env t) = Some (if err = None then restore_result k wd w else w)) s"
proof (cases "SavedReplicas (wd_Status wd)")
  case (Some n)
  obtain r e where p: "k_Patch k w (setReplicas k n w) (env s) = (r, e)" by force
  note st = store_Patch [OF assms(1) p]
  show ?thesis
    using st assms(2,3) p Some same_workload_set [OF assms(3), of k n]
    by (cases w; cases r) (auto simp: restoreWorkload_def scale_up_def wp_simps r_Patch_def Let_def)
qed (use assms in \<open>cases w; simp add: restoreWorkload_def scale_up_def wp_simps\<close>)

lemma suspendWorkload_stores:
  assumes "api_store k key obj tgt" and "tgt (env s) = Some w" and "plain w"
  shows "wp (suspendWorkload k wd w msg) (\<lambda>(err, wd', w') t. obj (env t) = obj (env s) \<and>
    (if err = None
     then wd' = fst (suspend_result k wd w) \<and> tgt (env t) = Some (snd (suspend_result k wd w)) \<and>
       (\<exists>xs. trace t = trace s @ xs \<and> list_all (\<lambda>x. \<not> accepted_status x) xs \<and>
         (getReplicas k w \<noteq> 0 \<longrightarrow> PatchWorkload w (setReplicas k 0 w) None \<in> set xs))
     else tgt (env t) = Some w)) s"
proof -
  obtain r e where p: "k_Patch k w (setReplicas k 0 w) (env s) = (r, e)" by force
  note st = store_Patch [OF assms(1) p]
  show ?thesis
    using st assms(2,3) p same_workload_set [OF assms(3), of k 0]
    by (cases w; cases r) (auto simp: suspendWorkload_def scale_down_def wp_simps r_Patch_def Let_def)
qed

section \<open>The replica count survives\<close>

text \<open>
  The dependent of an active object has its \<open>n\<close> replicas, or the object is suspended and remembers
  them.  A suspended dependent may also have its replicas already, when the status update after a
  restoration was refused.
\<close>

definition kept :: "'e kube \<Rightarrow> int32 \<Rightarrow> WorkloadDependency \<Rightarrow> workloadAccessor \<Rightarrow> bool" where
  "kept k n wd w \<longleftrightarrow> active k wd \<and> plain w \<and>
     (if wd_Phase wd = PhaseSuspended then SavedReplicas (wd_Status wd) = Some n \<and> getReplicas k w \<in> {0, n}
      else getReplicas k w = n)"

definition stored_kept ::
  "'e kube \<Rightarrow> int32 \<Rightarrow> ('e \<Rightarrow> WorkloadDependency option) \<Rightarrow> ('e \<Rightarrow> workloadAccessor option) \<Rightarrow> 'e world \<Rightarrow> bool" where
  "stored_kept k n obj tgt s \<longleftrightarrow> (\<exists>wd w. obj (env s) = Some wd \<and> tgt (env s) = Some w \<and> kept k n wd w)"

definition lost ::
  "'e kube \<Rightarrow> ('e \<Rightarrow> WorkloadDependency option) \<Rightarrow> ('e \<Rightarrow> workloadAccessor option) \<Rightarrow> 'e world \<Rightarrow> 'e world \<Rightarrow> bool" where
  "lost k obj tgt s t \<longleftrightarrow>
     obj (env t) = obj (env s) \<and> (\<exists>w. tgt (env t) = Some w \<and> plain w \<and> getReplicas k w = 0) \<and>
     (\<exists>xs. trace t = trace s @ xs \<and> unrecorded k xs)"

definition safe ::
  "'e kube \<Rightarrow> int32 \<Rightarrow> ('e \<Rightarrow> WorkloadDependency option) \<Rightarrow> ('e \<Rightarrow> workloadAccessor option) \<Rightarrow> 'e world \<Rightarrow> 'e world \<Rightarrow> bool" where
  "safe k n obj tgt s t \<longleftrightarrow> stored_kept k n obj tgt t \<or> lost k obj tgt s t"

lemma active_records: "active k c \<Longrightarrow> records c wd phase st \<Longrightarrow> active k st"
  by (simp add: active_def records_def same_identity_def)

lemma kept_records:
  assumes "active k c" and "records c wd phase st" and "plain w"
    and "phase = PhaseSuspended \<Longrightarrow> SavedReplicas (wd_Status wd) = Some n \<and> getReplicas k w \<in> {0, n}"
    and "phase \<noteq> PhaseSuspended \<Longrightarrow> getReplicas k w = n"
  shows "kept k n st w"
  using assms active_records [OF assms(1,2)]
  by (auto simp: kept_def records_def saved_from_def or_keep_def)

lemma setStatus_safe:
  assumes "api_store k key obj tgt" and "obj (env s) = Some c" and "tgt (env s) = Some w"
    and "wd_Meta wd = wd_Meta c" and "wd_Spec wd = wd_Spec c" and "kept k n c w"
    and "phase = PhaseSuspended \<Longrightarrow> SavedReplicas (wd_Status wd) = Some n \<and> getReplicas k w \<in> {0, n}"
    and "phase \<noteq> PhaseSuspended \<Longrightarrow> getReplicas k w = n"
  shows "wp (setStatus k wd phase msg res) (\<lambda>_. safe k n obj tgt s0) s"
proof (rule wp_mono [OF setStatus_settles [OF assms(1,2,4,5)]])
  fix t
  assume "settled obj tgt c wd phase s t"
  moreover have "kept k n st w" if "records c wd phase st" for st
    using assms(6-8) that by (intro kept_records [OF _ that]) (simp_all add: kept_def)
  ultimately show "safe k n obj tgt s0 t"
    using assms(3,6) by (auto simp: settled_def safe_def stored_kept_def)
qed

lemma wp_time_Since:
  assumes "api_store k key obj tgt" and "\<And>a t. full obj tgt t = full obj tgt s \<Longrightarrow> Q a t"
  shows "wp (time_Since k u) Q s"
  by (rule wp_keeps_any [OF keeps_full_time_Since [OF assms(1)] assms(2)])

lemma restore_safe:
  fixes s :: "'e world"
  assumes "api_store k key obj tgt" and "obj (env s) = Some c" and "tgt (env s) = Some w" and "kept k n c w" and "n \<noteq> 0"
    and "wd_Phase c = PhaseSuspended" and "SavedReplicas (wd_Status wd) = SavedReplicas (wd_Status c)"
    and "wd_Meta wd' = wd_Meta c" and "wd_Spec wd' = wd_Spec c" and "phase \<noteq> PhaseSuspended"
  shows "wp (do {
      err \<leftarrow> restoreWorkload k wd w;
      case err of
        Some err \<Rightarrow> return (emptyResult, Some err)
      | None \<Rightarrow> setStatus k wd' phase msg None }) (\<lambda>_. safe k n obj tgt s0) s"
proof -
  have p: "plain w" using assms(4) by (simp add: kept_def)
  show ?thesis
    unfolding wp_bind
  proof (rule wp_mono [OF restoreWorkload_stores [OF assms(1,3) p]])
    fix err :: "api_error option" and u :: "'e world"
    assume "obj (env u) = obj (env s) \<and> tgt (env u) = Some (if err = None then restore_result k wd w else w)"
    then show "wp (case err of Some err \<Rightarrow> return (emptyResult, Some err) | None \<Rightarrow> setStatus k wd' phase msg None)
        (\<lambda>_. safe k n obj tgt s0) u"
      using assms(2-) p
      by (cases err)
         (auto simp: wp_return safe_def stored_kept_def kept_def intro!: setStatus_safe [OF assms(1), where c = c])
  qed
qed

lemma handleHealthy_safe:
  assumes "api_store k key obj tgt" and "obj (env s) = Some c" and "tgt (env s) = Some w" and "kept k n c w" and "n \<noteq> 0"
  shows "wp (handleHealthy k c w now) (\<lambda>_. safe k n obj tgt s0) s"
proof -
  have still: "safe k n obj tgt s0 t" if "full obj tgt t = full obj tgt s" for t
    using that assms(2-4) by (auto simp: safe_def stored_kept_def full_def)
  show ?thesis
    unfolding handleHealthy_def Let_def wp_if wp_case_option
    using assms(2-) still
    by (auto split: option.splits simp: kept_def full_def wp_if wp_bind [of "time_Since _ _"] wp_return
        intro!: setStatus_safe [OF assms(1), where c = c] wp_time_Since [OF assms(1)] restore_safe [OF assms(1), where c = c])
qed

text \<open>A suspension followed by the status update that records it.\<close>

lemma suspended_settled_safe:
  assumes "kept k n c w" and "n \<noteq> 0" and "trace s = trace s0 \<and> obj (env s) = obj (env s0)"
    and "settled obj tgt c (fst (suspend_result k c w)) PhaseSuspended u v" and "obj (env u) = Some c"
    and "tgt (env u) = Some (snd (suspend_result k c w))" and "obj (env s) = Some c"
    and xs: "trace u = trace s @ xs" "list_all (\<lambda>x. \<not> accepted_status x) xs"
      "getReplicas k w \<noteq> 0 \<longrightarrow> PatchWorkload w (setReplicas k 0 w) None \<in> set xs"
  shows "safe k n obj tgt s0 v"
proof -
  have p: "plain w" using assms(1) by (simp add: kept_def)
  have "kept k n st (snd (suspend_result k c w))" if "records c (fst (suspend_result k c w)) PhaseSuspended st" for st
    using assms(1,2) p by (intro kept_records [OF _ that]) (auto simp: kept_def split: if_splits)
  moreover have "unrecorded k (xs @ ys)" if "list_all (\<lambda>x. \<not> accepted_status x) ys" "getReplicas k w \<noteq> 0" for ys
    using that xs p unfolding unrecorded_def by (cases w) fastforce+
  moreover have "kept k n c (snd (suspend_result k c w))" if "getReplicas k w = 0"
    using assms(1) p that by simp
  ultimately show ?thesis
    using assms(3-7) xs(1) p by (auto simp: settled_def safe_def stored_kept_def unstored_def lost_def)
qed

lemma suspend_safe:
  fixes s :: "'e world"
  assumes "api_store k key obj tgt" and "obj (env s) = Some c" and "tgt (env s) = Some w" and "kept k n c w" and "n \<noteq> 0"
    and "trace s = trace s0 \<and> obj (env s) = obj (env s0)"
    and body: "\<And>wd v u. obj (env u) = Some c \<Longrightarrow> wd_Meta wd = wd_Meta c \<Longrightarrow> wd_Spec wd = wd_Spec c \<Longrightarrow>
      wp (body wd v) (\<lambda>_. settled obj tgt c wd PhaseSuspended u) u"
  shows "wp (do {
      (err, wd', v) \<leftarrow> suspendWorkload k c w msg;
      case err of
        Some err \<Rightarrow> return (emptyResult, Some err)
      | None \<Rightarrow> body wd' v }) (\<lambda>_. safe k n obj tgt s0) s"
proof -
  have p: "plain w" using assms(4) by (simp add: kept_def)
  show ?thesis
    unfolding wp_bind
  proof (rule wp_mono [OF suspendWorkload_stores [OF assms(1,3) p]], clarify)
    fix err :: "api_error option" and wd' w' and u :: "'e world"
    assume u: "obj (env u) = obj (env s)" and a: "if err = None
       then wd' = fst (suspend_result k c w) \<and> tgt (env u) = Some (snd (suspend_result k c w)) \<and>
         (\<exists>xs. trace u = trace s @ xs \<and> list_all (\<lambda>x. \<not> accepted_status x) xs \<and>
           (getReplicas k w \<noteq> 0 \<longrightarrow> PatchWorkload w (setReplicas k 0 w) None \<in> set xs))
       else tgt (env u) = Some w"
    show "wp (case err of Some err \<Rightarrow> return (emptyResult, Some err) | None \<Rightarrow> body wd' w') (\<lambda>_. safe k n obj tgt s0) u"
    proof (cases err)
      case None
      with a u p assms(2) have "wp (body wd' w') (\<lambda>_. settled obj tgt c wd' PhaseSuspended u) u"
        by (intro body) simp_all
      then show ?thesis
        unfolding None option.case
        by (rule wp_mono) (use a None u assms(2) in \<open>auto intro: suspended_settled_safe [OF assms(4-6)]\<close>)
    next
      case (Some err)
      with a u assms(2-4) show ?thesis by (auto simp: wp_return safe_def stored_kept_def)
    qed
  qed
qed

lemma full_view:
  "full obj tgt t = full obj tgt s \<Longrightarrow> obj (env t) = obj (env s)"
  "full obj tgt t = full obj tgt s \<Longrightarrow> tgt (env t) = tgt (env s)"
  "full obj tgt t = full obj tgt s \<Longrightarrow> trace t = trace s"
  by (simp_all add: full_def)

lemma still_safe:
  "obj (env t) = Some c \<Longrightarrow> tgt (env t) = Some w \<Longrightarrow> kept k n c w \<Longrightarrow> safe k n obj tgt s0 t"
  by (auto simp: safe_def stored_kept_def)

lemma wp_window:
  assumes "api_store k key obj tgt" and "\<And>t. full obj tgt t = full obj tgt s \<Longrightarrow> Q t"
    and "\<And>t. full obj tgt t = full obj tgt s \<Longrightarrow> wp m (\<lambda>_. Q) t"
  shows "wp (time_Since k u \<bind> (\<lambda>elapsed. if elapsed <s window
      then time_Since k u \<bind> (\<lambda>elapsed. return (f elapsed)) else m)) (\<lambda>_. Q) s"
  unfolding wp_bind
proof (rule wp_time_Since [OF assms(1)])
  fix a t
  assume t: "full obj tgt t = full obj tgt s"
  have "wp (time_Since k u \<bind> (\<lambda>elapsed. return (f elapsed))) (\<lambda>_. Q) t"
    unfolding wp_bind wp_return by (rule wp_time_Since [OF assms(1)]) (rule assms(2), simp add: t)
  with assms(3) [OF t] show "wp (if a <s window then time_Since k u \<bind> (\<lambda>elapsed. return (f elapsed)) else m)
      (\<lambda>_. Q) t" by simp
qed

lemma handleDegraded_safe:
  assumes "api_store k key obj tgt" and "obj (env s) = Some c" and "tgt (env s) = Some w" and "kept k n c w" and "n \<noteq> 0"
    and "trace s = trace s0 \<and> obj (env s) = obj (env s0)" and "wd_Phase c \<noteq> PhaseSuspended"
  shows "wp (handleDegraded k c w msg now) (\<lambda>_. safe k n obj tgt s0) s"
proof (cases "DegradedSince (wd_Status c)")
  case None
  have "getReplicas k w = n" using assms(4,7) by (simp add: kept_def)
  then show ?thesis
    unfolding handleDegraded_def None option.case Let_def
    by (intro setStatus_safe [OF assms(1-3) _ _ assms(4)]) simp_all
next
  case (Some since)
  show ?thesis
    unfolding handleDegraded_def Some option.case Let_def
    by (rule wp_window [OF assms(1)], rule still_safe [OF _ _ assms(4)])
       (use assms(2,3,6) in \<open>auto simp: full_def intro!: suspend_safe [OF assms(1) _ _ assms(4,5)] setStatus_settles [OF assms(1)]\<close>)
qed

lemma settled_later:
  assumes "settled obj tgt c wd phase (u\<lparr>trace := trace u @ [x]\<rparr>) v" and "\<not> accepted_status x"
  shows "settled obj tgt c wd phase u v"
proof -
  have "unstored u v" if "unstored (u\<lparr>trace := trace u @ [x]\<rparr>) v"
    using that assms(2) unfolding unstored_def by fastforce
  with assms(1) show ?thesis unfolding settled_def by auto
qed

lemma handleSuspended_safe:
  assumes "api_store k key obj tgt" and "obj (env s) = Some c" and "tgt (env s) = Some w" and "kept k n c w" and "n \<noteq> 0"
    and "trace s = trace s0 \<and> obj (env s) = obj (env s0)" and "wd_Phase c = PhaseSuspended"
  shows "wp (handleSuspended k c w msg) (\<lambda>_. safe k n obj tgt s0) s"
proof -
  have status: "wp (setStatus k c PhaseSuspended msg res) (\<lambda>_. safe k n obj tgt s0) s" for res
    using assms(4,7) by (intro setStatus_safe [OF assms(1-3)]) (simp_all add: kept_def)
  have emitted: "wp (do { emit (Eventf ty reason fmt args); setStatus k wd PhaseSuspended msg res })
      (\<lambda>_. settled obj tgt c wd PhaseSuspended u) u"
    if "obj (env u) = Some c" "wd_Meta wd = wd_Meta c" "wd_Spec wd = wd_Spec c" for ty reason fmt args wd res u
    unfolding wp_bind wp_emit
    by (rule wp_mono [OF setStatus_settles [OF assms(1), where c = c]])
       (use that in \<open>simp_all add: settled_later\<close>)
  have "wp (do {
      (err, wd, v) \<leftarrow> suspendWorkload k c w msg;
      case err of
        Some err \<Rightarrow> return (emptyResult, Some err)
      | None \<Rightarrow> do {
          emit (Eventf EventTypeWarning ''StrictEnforced''
            ''Re-enforced suspension on %s %s (strict mode): dependency still unhealthy''
            [FStr (ref_Kind (Dependent (wd_Spec wd))), FStr (getName v)]);
          setStatus k wd PhaseSuspended msg (Some (requeueAfter (15 * Second))) } })
      (\<lambda>_. safe k n obj tgt s0) s"
    by (rule suspend_safe [OF assms(1-6)]) (rule emitted)
  with status show ?thesis unfolding handleSuspended_def by simp
qed

lemma stillSuspended_safe:
  assumes "api_store k key obj tgt" and "obj (env s) = Some c" and "tgt (env s) = Some w" and "kept k n c w" and "n \<noteq> 0"
    and "trace s = trace s0 \<and> obj (env s) = obj (env s0)" and "wd_Phase c = PhaseSuspended"
  shows "wp (stillSuspended k c w msg) (\<lambda>_. safe k n obj tgt s0) s"
  using handleSuspended_safe [OF assms]
  by (auto simp: stillSuspended_def Let_def wp_if wp_bind [of "time_Since _ _"] wp_bind [of "emit _"] wp_emit wp_return
      full_def assms(2,3,7) split: option.split
      intro!: wp_time_Since [OF assms(1)] still_safe [OF _ _ assms(4)] restore_safe [OF assms(1) _ _ assms(4,5)])

lemma act_safe:
  assumes "api_store k key obj tgt" and "obj (env s) = Some c" and "tgt (env s) = Some w" and "kept k n c w" and "n \<noteq> 0"
    and "trace s = trace s0 \<and> obj (env s) = obj (env s0)"
  shows "wp (act k c w ok msg now) (\<lambda>_. safe k n obj tgt s0) s"
proof -
  have "\<not> is_progressing_rollout k w" "Mode (wd_Spec c) \<noteq> ModeObserve" "Mode (wd_Spec c) \<noteq> ModeGate"
    using assms(4) by (simp_all add: kept_def active_def)
  moreover have "wd_Phase c = PhaseReleased \<Longrightarrow> wp (setStatus k c PhaseReleased m r) (\<lambda>_. safe k n obj tgt s0) s" for m r
    using assms(4) by (intro setStatus_safe [OF assms(1-3)]) (simp_all add: kept_def)
  ultimately show ?thesis
    unfolding act_def
    using handleHealthy_safe [OF assms(1-5)] stillSuspended_safe [OF assms] handleDegraded_safe [OF assms] by simp
qed

lemma getWorkload_read:
  "fst (run_state (getWorkload k (ref_Kind (Dependent (wd_Spec wd))) (ref_Name (Dependent (wd_Spec wd))) (dependentNS wd)) s) =
     read_target k wd (env s)"
  by (simp add: getWorkload_def getRollout_def read_target_def Let_def run_simps split: prod.splits)

lemma reconcileWorkloads_safe:
  assumes "api_store k key obj tgt" and "obj (env s) = Some c" and "tgt (env s) = Some w" and "kept k n c w" and "n \<noteq> 0"
    and "trace s = trace s0 \<and> obj (env s) = obj (env s0)"
  shows "wp (reconcileWorkloads k c) (\<lambda>_. safe k n obj tgt s0) s"
proof -
  have eval: "wp (evalDependencies k c deps True [] \<bind> (\<lambda>ev. case ev of
        Inl err \<Rightarrow> return (emptyResult, Some err)
      | Inr (allOk, unhealthyMsg) \<Rightarrow> metav1_Now k \<bind> (\<lambda>now. act k c w allOk unhealthyMsg now)))
      (\<lambda>_. safe k n obj tgt s0) t" if "full obj tgt t = full obj tgt s" for t deps
    unfolding wp_bind
    by (rule wp_keeps_any [OF keeps_full_evalDependencies [OF assms(1)]])
       (use that assms(2-) in \<open>auto split: sum.splits simp: wp_return wp_bind full_def
          intro!: still_safe wp_keeps_any [OF keeps_full_reads(1) [OF assms(1)]] act_safe [OF assms(1), where c = c]\<close>)
  let ?get = "getWorkload k (ref_Kind (Dependent (wd_Spec c))) (ref_Name (Dependent (wd_Spec c))) (dependentNS c)"
  have "full obj tgt (snd (run_state ?get s)) = full obj tgt s"
    using keeps_full_getWorkload [OF assms(1)] by (simp add: keeps_def)
  moreover have "read_target k c (env s) = Inr v \<Longrightarrow> v = w" "read_target k c (env s) \<noteq> Inl NotFound" for v
    using store_target [OF assms(1,2)] assms(3) by auto
  ultimately show ?thesis
    using eval assms(2-4) getWorkload_read [of k c s]
    by (auto simp: reconcileWorkloads_def Let_def wp_bind wp_run [of ?get] wp_return full_def intro!: still_safe split: sum.splits)
qed

lemma Reconcile_safe:
  assumes "api_store k key obj tgt" and "stored_kept k n obj tgt s" and "n \<noteq> 0"
  shows "wp (Reconcile k key) (\<lambda>_. safe k n obj tgt s) s"
proof -
  obtain c w where s: "obj (env s) = Some c" "tgt (env s) = Some w" "kept k n c w"
    using assms(2) by (auto simp: stored_kept_def)
  obtain g e where g: "k_GetWD k key (env s) = (g, e)" by force
  note e = store_GetWD [OF assms(1) g]
  have "g = Inr wd \<Longrightarrow> wd = c" for wd using e(3) s(1) by simp
  moreover have "reconcileObject k c = reconcileWorkloads k c"
    using s(3) by (simp add: reconcileObject_def kept_def active_def)
  ultimately show ?thesis
    using reconcileWorkloads_safe [OF assms(1) _ _ s(3) assms(3), of "s\<lparr>env := e\<rparr>" s] s e(1,2) g
    by (auto simp: Reconcile_def wp_bind wp_outside wp_return intro!: still_safe split: sum.splits)
qed

section \<open>What a reconciliation can store\<close>

text \<open>
  A dependent without replicas whose object has no saved count is frozen: nothing remembers how
  many replicas it had.
\<close>

definition frozen :: "'e kube \<Rightarrow> WorkloadDependency \<Rightarrow> workloadAccessor option \<Rightarrow> bool" where
  "frozen k wd T \<longleftrightarrow> SavedReplicas (wd_Status wd) = None \<and> (\<exists>w. T = Some w \<and> plain w \<and> getReplicas k w = 0)"

definition prepared :: "'e kube \<Rightarrow> WorkloadDependency \<Rightarrow> workloadAccessor option \<Rightarrow> WorkloadDependency \<Rightarrow> bool" where
  "prepared k c T wd \<longleftrightarrow>
     wd_Meta wd = wd_Meta c \<and> wd_Spec wd = wd_Spec c \<and> Conditions (wd_Status wd) = Conditions (wd_Status c) \<and>
     (frozen k c T \<longrightarrow> SavedReplicas (wd_Status wd) = None)"

text \<open>
  The effect of a reconciliation of \<open>c\<close> with dependent \<open>T\<close> on what is stored, whatever fails on the
  way: the old status, or one recorded from it; and a frozen dependent stays as it is.
\<close>

definition moved ::
  "'e kube \<Rightarrow> ('e \<Rightarrow> WorkloadDependency option) \<Rightarrow> ('e \<Rightarrow> workloadAccessor option) \<Rightarrow> WorkloadDependency
     \<Rightarrow> workloadAccessor option \<Rightarrow> 'e world \<Rightarrow> bool" where
  "moved k obj tgt c T t \<longleftrightarrow>
     (frozen k c T \<longrightarrow> tgt (env t) = T) \<and>
     (\<forall>st. obj (env t) = Some st \<longrightarrow>
        wd_Status st = wd_Status c \<or> (\<exists>wd phase. prepared k c T wd \<and> records c wd phase st))"

lemma still_moved: "obj (env t) = Some c \<Longrightarrow> (frozen k c T \<Longrightarrow> tgt (env t) = T) \<Longrightarrow> moved k obj tgt c T t"
  by (simp add: moved_def)

lemma setStatus_moved:
  assumes "api_store k key obj tgt" and "obj (env s) = Some c" and "frozen k c T \<Longrightarrow> tgt (env s) = T" and "prepared k c T wd"
  shows "wp (setStatus k wd phase msg res) (\<lambda>_. moved k obj tgt c T) s"
proof -
  have "wd_Meta wd = wd_Meta c" "wd_Spec wd = wd_Spec c" using assms(4) by (simp_all add: prepared_def)
  from setStatus_settles [OF assms(1,2) this] show ?thesis
    by (rule wp_mono) (use assms(3,4) in \<open>auto simp: settled_def moved_def\<close>)
qed

lemma restoreWorkload_moves:
  assumes "api_store k key obj tgt" and "tgt (env s) = Some w"
  shows "wp (restoreWorkload k wd w) (\<lambda>_ t. obj (env t) = obj (env s) \<and>
    (plain w \<and> SavedReplicas (wd_Status wd) = None \<longrightarrow> tgt (env t) = tgt (env s))) s"
  by (cases w)
     (auto simp: restoreWorkload_def scale_up_def Let_def wp_simps r_Patch_def 
        split: option.splits sum.splits prod.splits dest: store_Patch(1) [OF assms(1)])

lemma suspendWorkload_moves:
  assumes "api_store k key obj tgt" and "tgt (env s) = Some w"
  shows "wp (suspendWorkload k wd w msg) (\<lambda>(err, wd', w') t. obj (env t) = obj (env s) \<and>
    wd_Meta wd' = wd_Meta wd \<and> wd_Spec wd' = wd_Spec wd \<and> Conditions (wd_Status wd') = Conditions (wd_Status wd) \<and>
    (plain w \<and> getReplicas k w = 0 \<longrightarrow> tgt (env t) = tgt (env s) \<and> SavedReplicas (wd_Status wd') = SavedReplicas (wd_Status wd))) s"
  by (cases w)
     (auto simp: suspendWorkload_def scale_down_def Let_def wp_simps r_Patch_def 
        split: sum.splits prod.splits dest: store_Patch(1) [OF assms(1)])

lemma restore_moved:
  fixes s :: "'e world"
  assumes "api_store k key obj tgt" and "obj (env s) = Some c" and "tgt (env s) = Some w"
    and "SavedReplicas (wd_Status wd) = SavedReplicas (wd_Status c)" and "prepared k c (Some w) wd'"
  shows "wp (do {
      err \<leftarrow> restoreWorkload k wd w;
      case err of
        Some err \<Rightarrow> return (emptyResult, Some err)
      | None \<Rightarrow> setStatus k wd' phase msg None }) (\<lambda>_. moved k obj tgt c (Some w)) s"
  unfolding wp_bind
proof (rule wp_mono [OF restoreWorkload_moves [OF assms(1,3)]])
  fix err :: "api_error option" and u :: "'e world"
  assume "obj (env u) = obj (env s) \<and>
    (plain w \<and> SavedReplicas (wd_Status wd) = None \<longrightarrow> tgt (env u) = tgt (env s))"
  then show "wp (case err of Some err \<Rightarrow> return (emptyResult, Some err) | None \<Rightarrow> setStatus k wd' phase msg None)
      (\<lambda>_. moved k obj tgt c (Some w)) u"
    using assms(2-)
    by (cases err) (auto simp: wp_return frozen_def intro!: still_moved setStatus_moved [OF assms(1)])
qed

lemma suspend_moved:
  fixes s :: "'e world"
  assumes "api_store k key obj tgt" and "obj (env s) = Some c" and "tgt (env s) = Some w"
    and body: "\<And>wd v u. obj (env u) = Some c \<Longrightarrow> (frozen k c (Some w) \<Longrightarrow> tgt (env u) = Some w) \<Longrightarrow> prepared k c (Some w) wd \<Longrightarrow>
      wp (body wd v) (\<lambda>_. moved k obj tgt c (Some w)) u"
  shows "wp (do {
      (err, wd', v) \<leftarrow> suspendWorkload k c w msg;
      case err of
        Some err \<Rightarrow> return (emptyResult, Some err)
      | None \<Rightarrow> body wd' v }) (\<lambda>_. moved k obj tgt c (Some w)) s"
  unfolding wp_bind
proof (rule wp_mono [OF suspendWorkload_moves [OF assms(1,3)]], clarify)
  fix err :: "api_error option" and wd' :: WorkloadDependency and v and u :: "'e world"
  assume "obj (env u) = obj (env s)" "wd_Meta wd' = wd_Meta c" "wd_Spec wd' = wd_Spec c"
    "Conditions (wd_Status wd') = Conditions (wd_Status c)"
    "plain w \<and> getReplicas k w = 0 \<longrightarrow> tgt (env u) = tgt (env s) \<and> SavedReplicas (wd_Status wd') = SavedReplicas (wd_Status c)"
  then show "wp (case err of Some err \<Rightarrow> return (emptyResult, Some err) | None \<Rightarrow> body wd' v)
      (\<lambda>_. moved k obj tgt c (Some w)) u"
    using assms(2,3)
    by (cases err) (auto simp: wp_return frozen_def prepared_def intro!: still_moved body)
qed

lemma prepared_simps [simp]:
  "prepared k c T c"
  "Conditions (f (wd_Status c)) = Conditions (wd_Status c) \<Longrightarrow>
     (SavedReplicas (wd_Status c) = None \<Longrightarrow> SavedReplicas (f (wd_Status c)) = None) \<Longrightarrow> prepared k c T (upd_status f c)"
  by (simp_all add: prepared_def frozen_def)

text \<open>The same three facts for every handler: what it is called on is stored, and reads change nothing.\<close>

lemma handleDegraded_moved:
  assumes "api_store k key obj tgt" and "obj (env s) = Some c" and "tgt (env s) = Some w"
  shows "wp (handleDegraded k c w msg now) (\<lambda>_. moved k obj tgt c (Some w)) s"
proof (cases "DegradedSince (wd_Status c)")
  case (Some since)
  show ?thesis
    unfolding handleDegraded_def Some option.case Let_def
    by (rule wp_window [OF assms(1)])
       (use assms(2,3) in \<open>auto simp: full_def intro!: still_moved suspend_moved [OF assms(1)] setStatus_moved [OF assms(1)]\<close>)
qed (simp add: handleDegraded_def Let_def setStatus_moved [OF assms(1,2)] assms(3))

lemma handleHealthy_moved:
  assumes "api_store k key obj tgt" and "obj (env s) = Some c" and "tgt (env s) = Some w"
  shows "wp (handleHealthy k c w now) (\<lambda>_. moved k obj tgt c (Some w)) s"
  unfolding handleHealthy_def Let_def wp_if wp_case_option
  using assms(2,3)
  by (auto split: option.splits simp: full_def wp_if wp_bind [of "time_Since _ _"] wp_return
      intro!: setStatus_moved [OF assms(1)] wp_time_Since [OF assms(1)] restore_moved [OF assms(1)] still_moved)

lemma handleSuspended_moved:
  assumes "api_store k key obj tgt" and "obj (env s) = Some c" and "tgt (env s) = Some w"
  shows "wp (handleSuspended k c w msg) (\<lambda>_. moved k obj tgt c (Some w)) s"
proof -
  have "wp (do {
      (err, wd, v) \<leftarrow> suspendWorkload k c w msg;
      case err of
        Some err \<Rightarrow> return (emptyResult, Some err)
      | None \<Rightarrow> do {
          emit (Eventf EventTypeWarning ''StrictEnforced''
            ''Re-enforced suspension on %s %s (strict mode): dependency still unhealthy''
            [FStr (ref_Kind (Dependent (wd_Spec wd))), FStr (getName v)]);
          setStatus k wd PhaseSuspended msg (Some (requeueAfter (15 * Second))) } })
      (\<lambda>_. moved k obj tgt c (Some w)) s"
    by (rule suspend_moved [OF assms(1-3)]) (simp add: wp_bind wp_emit setStatus_moved [OF assms(1)])
  then show ?thesis unfolding handleSuspended_def by (simp add: setStatus_moved [OF assms(1,2)] assms(3))
qed

lemma stillSuspended_moved:
  assumes "api_store k key obj tgt" and "obj (env s) = Some c" and "tgt (env s) = Some w"
  shows "wp (stillSuspended k c w msg) (\<lambda>_. moved k obj tgt c (Some w)) s"
  using handleSuspended_moved [OF assms]
  by (auto simp: stillSuspended_def Let_def wp_if wp_bind [of "time_Since _ _"] wp_bind [of "emit _"] wp_emit wp_return
      full_def assms(2,3) split: option.split
      intro!: wp_time_Since [OF assms(1)] still_moved restore_moved [OF assms(1)])

lemma act_moved:
  assumes "api_store k key obj tgt" and "obj (env s) = Some c" and "tgt (env s) = Some w"
  shows "wp (act k c w ok msg now) (\<lambda>_. moved k obj tgt c (Some w)) s"
proof -
  have "wp (setStatus k c phase m res) (\<lambda>_. moved k obj tgt c (Some w)) s" for phase m res
    using setStatus_moved [OF assms(1,2)] assms(3) by simp
  then show ?thesis
    unfolding act_def
    using handleHealthy_moved [OF assms] stillSuspended_moved [OF assms] handleDegraded_moved [OF assms] by simp
qed

lemma reconcileWorkloads_moved:
  assumes "api_store k key obj tgt" and "obj (env s) = Some c"
  shows "wp (reconcileWorkloads k c) (\<lambda>_. moved k obj tgt c (tgt (env s))) s"
proof -
  let ?get = "getWorkload k (ref_Kind (Dependent (wd_Spec c))) (ref_Name (Dependent (wd_Spec c))) (dependentNS c)"
  have get: "full obj tgt (snd (run_state ?get s)) = full obj tgt s"
    using keeps_full_getWorkload [OF assms(1)] by (simp add: keeps_def)
  have eval: "wp (evalDependencies k c deps True [] \<bind> (\<lambda>ev. case ev of
        Inl err \<Rightarrow> return (emptyResult, Some err)
      | Inr (allOk, unhealthyMsg) \<Rightarrow> metav1_Now k \<bind> (\<lambda>now. act k c w allOk unhealthyMsg now)))
      (\<lambda>_. moved k obj tgt c (Some w)) t" if "full obj tgt t = full obj tgt s" "tgt (env s) = Some w" for t deps w
    unfolding wp_bind
    by (rule wp_keeps_any [OF keeps_full_evalDependencies [OF assms(1)]])
       (use that assms(2) in \<open>auto split: sum.splits simp: wp_return wp_bind full_def
          intro!: still_moved wp_keeps_any [OF keeps_full_reads(1) [OF assms(1)]] act_moved [OF assms(1), where c = c]\<close>)
  show ?thesis
  proof (cases "read_target k c (env s)")
    case (Inl err)
    then show ?thesis
      using get assms(2) getWorkload_read [of k c s]
      by (auto simp: reconcileWorkloads_def Let_def wp_bind wp_run [of ?get] wp_return full_def
          intro!: still_moved setStatus_moved [OF assms(1), where c = c])
  next
    case (Inr w)
    then show ?thesis
      using get eval getWorkload_read [of k c s] store_target(1) [OF assms Inr]
      by (simp add: reconcileWorkloads_def Let_def wp_bind wp_run [of ?get])
  qed
qed

lemma updated_moved:
  assumes "api_store k key obj tgt" and "obj (env s) = Some c" and "frozen k c T \<Longrightarrow> tgt (env s) = T"
  shows "wp (r_Update k (c\<lparr>wd_Meta := m\<rparr>)) (\<lambda>_. moved k obj tgt c T) s"
proof -
  obtain r e where u: "k_UpdateWD k (c\<lparr>wd_Meta := m\<rparr>) (env s) = (r, e)" by force
  note st = store_Update [OF assms(1) u assms(2)]
  have "wd_Status c' = wd_Status c" if "obj e = Some c'" for c' using st(2) [OF _ _ that] by simp
  moreover have "tgt e = tgt (env s)" using st(1) by simp
  ultimately show ?thesis using u assms(3) by (simp add: r_Update_def wp_simps moved_def)
qed

lemma handleDeletion_moved:
  fixes s :: "'e world"
  assumes "api_store k key obj tgt" and "obj (env s) = Some c"
  shows "wp (handleDeletion k c) (\<lambda>_. moved k obj tgt c (tgt (env s))) s"
proof -
  let ?get = "getWorkload k (ref_Kind (Dependent (wd_Spec c))) (ref_Name (Dependent (wd_Spec c))) (dependentNS c)"
  have get: "full obj tgt (snd (run_state ?get s)) = full obj tgt s"
    using keeps_full_getWorkload [OF assms(1)] by (simp add: keeps_def)
  have "wp (restore_on_deletion k c) (\<lambda>_ t. obj (env t) = Some c \<and> (frozen k c (tgt (env s)) \<longrightarrow> tgt (env t) = tgt (env s))) s"
  proof (cases "read_target k c (env s)")
    case (Inl err)
    then show ?thesis
      using get assms(2) getWorkload_read [of k c s]
      by (simp add: restore_on_deletion_def wp_simps wp_run [of ?get] full_def)
  next
    case (Inr w)
    let ?t = "snd (run_state ?get s)"
    have t: "tgt (env ?t) = Some w" "obj (env ?t) = Some c" "tgt (env s) = Some w"
      using get store_target(1) [OF assms Inr] assms(2) by (simp_all add: full_def)
    from restoreWorkload_moves [OF assms(1) t(1), of c]
    have "wp (restoreWorkload k c w) (\<lambda>_ u. obj (env u) = Some c \<and>
        (frozen k c (tgt (env s)) \<longrightarrow> tgt (env u) = tgt (env s))) ?t"
      by (rule wp_mono) (use t in \<open>auto simp: frozen_def\<close>)
    then show ?thesis
      using assms(2) getWorkload_read [of k c s] Inr
      by (simp add: restore_on_deletion_def wp_if wp_bind wp_return_all wp_run [of ?get])
  qed
  then show ?thesis
    unfolding handleDeletion_def wp_bind
  proof (rule wp_mono)
    fix proceed and t :: "'e world"
    assume t: "obj (env t) = Some c \<and> (frozen k c (tgt (env s)) \<longrightarrow> tgt (env t) = tgt (env s))"
    let ?update = "r_Update k (c\<lparr>wd_Meta := (wd_Meta c)\<lparr>meta_Finalizers :=
        RemoveFinalizer k (meta_Finalizers (wd_Meta c)) FinalizerName\<rparr>\<rparr>)"
    have "wp ?update (\<lambda>_. moved k obj tgt c (tgt (env s))) t" by (rule updated_moved [OF assms(1)]) (use t in simp_all)
    then have "wp (?update \<bind> (\<lambda>r. case r of Inl err \<Rightarrow> return (emptyResult, Some err) | Inr _ \<Rightarrow> return (emptyResult, None)))
        (\<lambda>_. moved k obj tgt c (tgt (env s))) t"
      unfolding wp_bind by (rule wp_mono) (simp add: wp_return split: sum.split)
    moreover have "moved k obj tgt c (tgt (env s)) t" by (rule still_moved) (use t in simp_all)
    ultimately show "wp (if \<not> proceed then return (requeueAfter (5 * Second), None)
        else ?update \<bind> (\<lambda>r. case r of Inl err \<Rightarrow> return (emptyResult, Some err) | Inr _ \<Rightarrow> return (emptyResult, None)))
      (\<lambda>_. moved k obj tgt c (tgt (env s))) t"
      by (simp add: wp_return)
  qed
qed

lemma ensureFinalizer_moved:
  fixes s :: "'e world"
  assumes "api_store k key obj tgt" and "obj (env s) = Some c"
  shows "wp (ensureFinalizer k c) (\<lambda>_. moved k obj tgt c (tgt (env s))) s"
  unfolding ensureFinalizer_def wp_bind [of "DetectCycle _ _"]
proof (rule wp_keeps_any [OF keeps_full_DetectCycle [OF assms(1)]])
  fix r and t :: "'e world"
  assume "full obj tgt t = full obj tgt s"
  then have t: "obj (env t) = Some c" "tgt (env t) = tgt (env s)" using assms(2) by (simp_all add: full_def)
  have status: "wp (do { emit x; setStatus k c phase msg res }) (\<lambda>_. moved k obj tgt c (tgt (env s))) t" for x phase msg res
    unfolding wp_bind wp_emit by (rule setStatus_moved [OF assms(1)]) (simp_all add: t)
  have "wp (r_Update k (c\<lparr>wd_Meta := m\<rparr>)) (\<lambda>_. moved k obj tgt c (tgt (env s))) t" for m
    by (rule updated_moved [OF assms(1)]) (simp_all add: t)
  then have "wp (r_Update k (c\<lparr>wd_Meta := m\<rparr>) \<bind> (\<lambda>r. case r of Inl err \<Rightarrow> return (emptyResult, Some err) | Inr _ \<Rightarrow> return (requeueNow, None)))
      (\<lambda>_. moved k obj tgt c (tgt (env s))) t" for m
    unfolding wp_bind by (rule wp_mono) (simp add: wp_return split: sum.split)
  with status show "wp (case r of
      Inr (Some cycle) \<Rightarrow>
        let msg = ''dependency cycle detected: '' @ FormatCycle cycle in do {
          emit (Eventf EventTypeWarning ''CycleDetected'' msg []);
          setStatus k c PhaseUnknown msg (Some emptyResult) }
    | _ \<Rightarrow> do {
        r \<leftarrow> r_Update k (c\<lparr>wd_Meta := (wd_Meta c)\<lparr>meta_Finalizers :=
               AddFinalizer k (meta_Finalizers (wd_Meta c)) FinalizerName\<rparr>\<rparr>);
        case r of
          Inl err \<Rightarrow> return (emptyResult, Some err)
        | Inr _ \<Rightarrow> return (requeueNow, None) }) (\<lambda>_. moved k obj tgt c (tgt (env s))) t"
    by (simp add: Let_def split: sum.split option.split)
qed

lemma Reconcile_moved:
  fixes s :: "'e world"
  assumes "api_store k key obj tgt" and "obj (env s) = Some c"
  shows "wp (Reconcile k key) (\<lambda>_. moved k obj tgt c (tgt (env s))) s"
proof -
  obtain g e where g: "k_GetWD k key (env s) = (g, e)" by force
  let ?t = "s\<lparr>env := e\<rparr>"
  have t: "obj (env ?t) = Some c" "tgt (env ?t) = tgt (env s)" using store_GetWD(1,2) [OF assms(1) g] assms(2) by simp_all
  have "g = Inr wd \<Longrightarrow> wd = c" for wd using store_GetWD(3) [OF assms(1) g] assms(2) by simp
  moreover have "wp (setStatus k c phase msg res) (\<lambda>_. moved k obj tgt c (tgt (env s))) ?t" for phase msg res
    by (rule setStatus_moved [OF assms(1) t(1)]) (use t in simp_all)
  then have "wp (reconcileObject k c) (\<lambda>_. moved k obj tgt c (tgt (env s))) ?t"
    unfolding reconcileObject_def
    using handleDeletion_moved [OF assms(1) t(1)] ensureFinalizer_moved [OF assms(1) t(1)]
      reconcileWorkloads_moved [OF assms(1) t(1)] t(2) by simp
  moreover have "moved k obj tgt c (tgt (env s)) ?t" by (rule still_moved) (use t in simp_all)
  ultimately show ?thesis
    using g by (auto simp: Reconcile_def wp_bind wp_outside wp_return split: sum.split)
qed

lemma Reconcile_absent:
  assumes "api_store k key obj tgt" and "obj (env s) = None"
  shows "wp (Reconcile k key) (\<lambda>_ t. obj (env t) = None \<and> tgt (env t) = tgt (env s)) s"
proof -
  obtain g e where g: "k_GetWD k key (env s) = (g, e)" by force
  note st = store_GetWD [OF assms(1) g]
  have "g \<noteq> Inr wd" for wd using st(3) [of wd] assms(2) by auto
  then show ?thesis
    using g st(1,2) assms(2) by (auto simp: Reconcile_def wp_bind wp_outside wp_return split: sum.split)
qed

section \<open>Runs of the system\<close>

text \<open>
  Reconciliations that start in a world that satisfies \<open>ok\<close>, interleaved with changes by anybody else that
  \<open>others\<close> allows.  The process may be restarted at any time: nothing is said about the trace and
  the metrics of \<open>u\<close> in the last rule.
\<close>

inductive runs ::
  "'e kube \<Rightarrow> NamespacedName \<Rightarrow> ('e \<Rightarrow> WorkloadDependency option) \<Rightarrow> ('e \<Rightarrow> workloadAccessor option) \<Rightarrow> ('e world \<Rightarrow> bool)
     \<Rightarrow> (WorkloadDependency option \<times> workloadAccessor option \<Rightarrow> WorkloadDependency option \<times> workloadAccessor option \<Rightarrow> bool)
     \<Rightarrow> 'e world \<Rightarrow> 'e world \<Rightarrow> bool" for k key obj tgt ok others s where
  none: "runs k key obj tgt ok others s s"
| reconciled: "runs k key obj tgt ok others s t \<Longrightarrow> ok t \<Longrightarrow>
    runs k key obj tgt ok others s (snd (run_state (Reconcile k key) t))"
| elsewhere: "runs k key obj tgt ok others s t \<Longrightarrow> others (stock obj tgt t) (stock obj tgt u) \<Longrightarrow>
    runs k key obj tgt ok others s u"

text \<open>Anybody may change anything but the status.\<close>

fun status_untouched ::
  "WorkloadDependency option \<times> workloadAccessor option \<Rightarrow> WorkloadDependency option \<times> workloadAccessor option \<Rightarrow> bool" where
  "status_untouched (c, T) (c', T') \<longleftrightarrow> (\<forall>wd'. c' = Some wd' \<longrightarrow> (\<exists>wd. c = Some wd \<and> wd_Status wd' = wd_Status wd))"

text \<open>Nobody else scales the dependent or writes the saved count.\<close>

fun unscaled ::
  "'e kube \<Rightarrow> WorkloadDependency option \<times> workloadAccessor option \<Rightarrow> WorkloadDependency option \<times> workloadAccessor option \<Rightarrow> bool" where
  "unscaled k (c, T) (c', T') \<longleftrightarrow>
     (\<forall>wd'. c' = Some wd' \<longrightarrow> (\<exists>wd. c = Some wd \<and> SavedReplicas (wd_Status wd') = SavedReplicas (wd_Status wd))) \<and>
     (\<forall>w. T = Some w \<longrightarrow> (\<exists>w'. T' = Some w' \<and> plain w' = plain w \<and> getReplicas k w' = getReplicas k w))"

text \<open>In addition nobody writes the status, pauses or deletes the object, or changes its mode.\<close>

fun undisturbed ::
  "'e kube \<Rightarrow> WorkloadDependency option \<times> workloadAccessor option \<Rightarrow> WorkloadDependency option \<times> workloadAccessor option \<Rightarrow> bool" where
  "undisturbed k (c, T) (c', T') \<longleftrightarrow> unscaled k (c, T) (c', T') \<and>
     (\<forall>wd. c = Some wd \<longrightarrow> (\<exists>wd'. c' = Some wd' \<and> wd_Status wd' = wd_Status wd \<and> (active k wd \<longrightarrow> active k wd')))"

lemma new_effects_appended: "trace (snd (run_state m s)) = trace s @ xs \<Longrightarrow> new_effects m s = xs"
  by (simp add: new_effects_def)

lemma runs_kept:
  assumes "runs k key obj tgt (\<lambda>t. \<not> unrecorded k (new_effects (Reconcile k key) t)) (undisturbed k) s t"
    and "api_store k key obj tgt" and "stored_kept k n obj tgt s" and "n \<noteq> 0"
  shows "stored_kept k n obj tgt t"
  using assms
proof (induction rule: runs.induct)
  case (reconciled t)
  have "safe k n obj tgt t (snd (run_state (Reconcile k key) t))"
    using Reconcile_safe [of k key obj tgt n t] reconciled by (simp add: wp_run)
  with reconciled.hyps(2) show ?case by (auto simp: safe_def lost_def dest: new_effects_appended)
next
  case (elsewhere t u)
  then obtain wd w where t: "obj (env t) = Some wd" "tgt (env t) = Some w" "kept k n wd w" by (auto simp: stored_kept_def)
  with elsewhere.hyps(2) obtain wd' w' where "obj (env u) = Some wd'" "tgt (env u) = Some w'" "wd_Status wd' = wd_Status wd"
    "active k wd'" "plain w'" "getReplicas k w' = getReplicas k w"
    by (auto simp: stock_def kept_def)
  with t(3) show ?case unfolding stored_kept_def kept_def by auto
qed

lemma runs_wf:
  assumes "runs k key obj tgt ok status_untouched s t" and "api_store k key obj tgt"
    and "\<And>wd. obj (env s) = Some wd \<Longrightarrow> wf_status (wd_Status wd)"
  shows "obj (env t) = Some wd \<Longrightarrow> wf_status (wd_Status wd)"
  using assms
proof (induction arbitrary: wd rule: runs.induct)
  case (reconciled t)
  show ?case
  proof (cases "obj (env t)")
    case None
    then show ?thesis using Reconcile_absent [OF reconciled.prems(2), of t] reconciled.prems(1) by (simp add: wp_run)
  next
    case (Some c)
    have c: "wf_status (wd_Status c)" by (rule reconciled.IH [OF Some reconciled.prems(2,3)])
    have "moved k obj tgt c (tgt (env t)) (snd (run_state (Reconcile k key) t))"
      using Reconcile_moved [OF reconciled.prems(2) Some] by (simp add: wp_run)
    with reconciled.prems(1) c show ?thesis
      by (auto simp: moved_def records_def prepared_def conds_ok_def wf_conditions)
  qed
next
  case (elsewhere t u)
  then show ?case by (auto simp: stock_def)
qed

lemma runs_frozen:
  assumes "runs k key obj tgt ok (unscaled k) s t" and "api_store k key obj tgt"
    and "\<exists>w. tgt (env s) = Some w \<and> plain w \<and> getReplicas k w = 0"
    and "\<forall>wd. obj (env s) = Some wd \<longrightarrow> SavedReplicas (wd_Status wd) = None"
  shows "(\<exists>w. tgt (env t) = Some w \<and> plain w \<and> getReplicas k w = 0) \<and>
    (\<forall>wd. obj (env t) = Some wd \<longrightarrow> SavedReplicas (wd_Status wd) = None)"
  using assms
proof (induction rule: runs.induct)
  case (reconciled t)
  then obtain w where w: "tgt (env t) = Some w" "plain w" "getReplicas k w = 0"
    and sv: "\<And>wd. obj (env t) = Some wd \<Longrightarrow> SavedReplicas (wd_Status wd) = None" by blast
  show ?case
  proof (cases "obj (env t)")
    case None
    then show ?thesis using Reconcile_absent [OF reconciled.prems(1), of t] w by (simp add: wp_run)
  next
    case (Some c)
    have m: "moved k obj tgt c (Some w) (snd (run_state (Reconcile k key) t))"
      using Reconcile_moved [OF reconciled.prems(1) Some] w(1) by (simp add: wp_run)
    have "frozen k c (Some w)" using w(2,3) sv [OF Some] by (simp add: frozen_def)
    with m w sv [OF Some] show ?thesis
      by (auto simp: moved_def records_def prepared_def saved_from_def)
  qed
next
  case (elsewhere t u)
  then show ?case by (auto simp: stock_def)
qed blast

end
