(* ===== verification/Liveness.thy ===== *)
theory Liveness
  imports Closed_Loop
begin

text \<open>
  Progress of the system of reconciler and API server: when the reads succeed and the writes are accepted, the windows end
  in the action they were waiting for, as the server stores it.  The clock stands still during
  one reconciliation (\<open>at_time\<close>).
\<close>

section \<open>The reads of a reconciliation\<close>

definition finds ::
  "'e kube \<Rightarrow> NamespacedName \<Rightarrow> 'e world \<Rightarrow> WorkloadDependency \<Rightarrow> workloadAccessor \<Rightarrow> bool \<Rightarrow> bool" where
  "finds k key s wd w ok \<longleftrightarrow>
     (\<exists>e v msg u. k_GetWD k key (env s) = (Inr wd, e) \<and>
        run_state (getWorkload k (ref_Kind (Dependent (wd_Spec wd))) (ref_Name (Dependent (wd_Spec wd))) (dependentNS wd))
          (s\<lparr>env := e\<rparr>) = (Inr w, v) \<and>
        run_state (evalDependencies k wd (DependsOn (wd_Spec wd)) True []) v = (Inr (ok, msg), u))"

lemma at_time_sel [simp]:
  "k_Now (at_time now k) e = (now, e)" "k_GetWD (at_time now k) = k_GetWD k" "k_ListWD (at_time now k) = k_ListWD k"
  "k_GetDeployment (at_time now k) = k_GetDeployment k" "k_GetStatefulSet (at_time now k) = k_GetStatefulSet k"
  "k_GetCronJob (at_time now k) = k_GetCronJob k" "k_GetRollout (at_time now k) = k_GetRollout k"
  "k_GetSecret (at_time now k) = k_GetSecret k" "k_Patch (at_time now k) = k_Patch k"
  "k_UpdateStatusWD (at_time now k) = k_UpdateStatusWD k" "k_UpdateWD (at_time now k) = k_UpdateWD k"
  "ContainsFinalizer (at_time now k) = ContainsFinalizer k"
  by (simp_all add: at_time_def)

lemma at_time_laws:
  "reads_leave k obj tgt \<Longrightarrow> reads_leave (at_time now k) obj tgt"
  "read_target (at_time now k) = read_target k"
  "reads_tell (at_time now k) = reads_tell k"
  "patches_stored (at_time now k) = patches_stored k"
  "status_stored (at_time now k) = status_stored k"
  "updates_stored (at_time now k) = updates_stored k"
  by (simp_all add: reads_leave_def reads_tell_def patches_stored_def status_stored_def updates_stored_def
      read_target_def Let_def fun_eq_iff)

lemma api_store_at_time: "api_store k key obj tgt \<Longrightarrow> api_store (at_time now k) key obj tgt"
  by (simp add: api_store_def at_time_laws)

lemma active_at_time [simp]: "active (at_time now k) wd = active k wd"
  by (simp add: active_def)

lemma finds_stored:
  assumes "api_store k key obj tgt" and "finds k key s wd w ok"
  shows "obj (env s) = Some wd" "tgt (env s) = Some w"
proof -
  from assms(2) obtain e v msg u where g: "k_GetWD k key (env s) = (Inr wd, e)"
    and t: "run_state (getWorkload k (ref_Kind (Dependent (wd_Spec wd))) (ref_Name (Dependent (wd_Spec wd))) (dependentNS wd))
      (s\<lparr>env := e\<rparr>) = (Inr w, v)" unfolding finds_def by blast
  show o: "obj (env s) = Some wd" using store_GetWD(3) [OF assms(1) g] by simp
  have "read_target k wd e = Inr w" using getWorkload_read [of k wd "s\<lparr>env := e\<rparr>"] t by simp
  from store_target(1) [OF assms(1) _ this] store_GetWD(1,2) [OF assms(1) g] o show "tgt (env s) = Some w" by simp
qed

lemma finds_unique: "finds k key s wd w ok \<Longrightarrow> finds k key s wd' w' ok' \<Longrightarrow> ok' = ok"
  by (auto simp: finds_def)

lemma wp_Reconcile_finds:
  assumes "api_store k key obj tgt" and "finds (at_time now k) key s wd w ok" and "active k wd"
    and "\<And>msg u. obj (env u) = Some wd \<Longrightarrow> tgt (env u) = Some w \<Longrightarrow> wp (act (at_time now k) wd w ok msg now) Q u"
  shows "wp (Reconcile (at_time now k) key) Q s"
proof -
  let ?k = "at_time now k"
  note st = api_store_at_time [OF assms(1), of now]
  obtain e v msg u where g: "k_GetWD ?k key (env s) = (Inr wd, e)"
    and t: "run_state (getWorkload ?k (ref_Kind (Dependent (wd_Spec wd))) (ref_Name (Dependent (wd_Spec wd))) (dependentNS wd))
      (s\<lparr>env := e\<rparr>) = (Inr w, v)"
    and d: "run_state (evalDependencies ?k wd (DependsOn (wd_Spec wd)) True []) v = (Inr (ok, msg), u)"
    using assms(2) unfolding finds_def by blast
  have "full obj tgt v = full obj tgt (s\<lparr>env := e\<rparr>)"
    using keeps_full_getWorkload [OF st] t unfolding keeps_def by (metis snd_conv)
  moreover have "full obj tgt u = full obj tgt v"
    using keeps_full_evalDependencies [OF st] d unfolding keeps_def by (metis snd_conv)
  ultimately have "obj (env u) = Some wd" "tgt (env u) = Some w"
    using finds_stored [OF st assms(2)] store_GetWD(1,2) [OF st g] by (simp_all add: full_def)
  from assms(4) [OF this, of msg] have a: "wp (act ?k wd w ok msg now) Q u" .
  have now: "run_state (metav1_Now ?k) u = (now, u)" by (simp add: run_simps)
  have r: "reconcileObject ?k wd = reconcileWorkloads ?k wd"
    using assms(3) active_at_time [of now k wd] unfolding active_def reconcileObject_def by auto
  show ?thesis
    using a g t d now by (simp add: wp_run Reconcile_def r reconcileWorkloads_def Let_def run_simps)
qed

section \<open>Accepted writes\<close>

text \<open>A server that accepts every patch of the stored dependent and every status update of the stored version.\<close>

definition responsive :: "'e kube \<Rightarrow> ('e \<Rightarrow> WorkloadDependency option) \<Rightarrow> ('e \<Rightarrow> workloadAccessor option) \<Rightarrow> bool" where
  "responsive k obj tgt \<longleftrightarrow>
     (\<forall>w v e. tgt e = Some w \<longrightarrow> same_workload w v \<longrightarrow> fst (k_Patch k w v e) = Inr v) \<and>
     (\<forall>wd c e. obj e = Some c \<longrightarrow> wd_Meta wd = wd_Meta c \<longrightarrow> wd_Spec wd = wd_Spec c \<longrightarrow>
        (\<exists>wd'. fst (k_UpdateStatusWD k wd e) = Inr wd'))"

lemma responsive_patch: "responsive k obj tgt \<Longrightarrow> tgt e = Some w \<Longrightarrow> same_workload w v \<Longrightarrow> fst (k_Patch k w v e) = Inr v"
  by (simp add: responsive_def)

lemma responsive_status:
  "responsive k obj tgt \<Longrightarrow> obj e = Some c \<Longrightarrow> wd_Meta wd = wd_Meta c \<Longrightarrow> wd_Spec wd = wd_Spec c \<Longrightarrow>
     \<exists>wd'. fst (k_UpdateStatusWD k wd e) = Inr wd'"
  by (simp add: responsive_def)

definition stored_as :: "WorkloadDependency \<Rightarrow> WorkloadDependency \<Rightarrow> DependencyPhase \<Rightarrow> WorkloadDependency \<Rightarrow> bool" where
  "stored_as c wd phase st \<longleftrightarrow>
     wd_Spec st = wd_Spec c \<and> same_identity st c \<and> wd_Phase st = phase \<and>
     SavedReplicas (wd_Status st) = SavedReplicas (wd_Status wd) \<and>
     DegradedSince (wd_Status st) = DegradedSince (wd_Status wd) \<and>
     HealthySince (wd_Status st) = HealthySince (wd_Status wd)"

lemma applyFields_own:
  "yields (applyFields k (take_snapshot wd) phase msg wd) (\<lambda>r. wd_Meta r = wd_Meta wd \<and> wd_Spec r = wd_Spec wd \<and>
     wd_Phase r = phase \<and> SavedReplicas (wd_Status r) = SavedReplicas (wd_Status wd) \<and>
     DegradedSince (wd_Status r) = DegradedSince (wd_Status wd) \<and> HealthySince (wd_Status r) = HealthySince (wd_Status wd))"
  unfolding yields_def
  by (auto simp: applyFields_def stamp_suspended_def setCondition_def run_simps restore_snapshot_def take_snapshot_def
      set_condition_at_def split: prod.splits option.splits)

lemma setStatus_stores:
  assumes "api_store k key obj tgt" and "responsive k obj tgt" and "obj (env s) = Some c"
    and "wd_Meta wd = wd_Meta c" and "wd_Spec wd = wd_Spec c"
  shows "wp (setStatus k wd phase msg res)
    (\<lambda>_ t. tgt (env t) = tgt (env s) \<and> (\<exists>st. obj (env t) = Some st \<and> stored_as c wd phase st)) s"
  unfolding setStatus_def Let_def wp_bind
proof (rule wp_keeps [OF keeps_full_applyFields [OF assms(1)] applyFields_own])
  fix a t
  assume a: "wd_Meta a = wd_Meta wd \<and> wd_Spec a = wd_Spec wd \<and>
     wd_Phase a = phase \<and> SavedReplicas (wd_Status a) = SavedReplicas (wd_Status wd) \<and>
     DegradedSince (wd_Status a) = DegradedSince (wd_Status wd) \<and> HealthySince (wd_Status a) = HealthySince (wd_Status wd)"
    and t: "full obj tgt t = full obj tgt s"
  have t': "obj (env t) = Some c" "tgt (env t) = tgt (env s)" using t assms(3) by (simp_all add: full_def)
  obtain wd' e where u: "k_UpdateStatusWD k a (env t) = (Inr wd', e)"
    using responsive_status [OF assms(2) t'(1), of a] a assms(4,5) by (metis prod.collapse)
  note st = store_status [OF assms(1) u t'(1)]
  have "tgt e = tgt (env s)" "obj e = Some wd'" "stored_as c wd phase wd'"
    using st(1) st(3) [OF _ _ refl] a assms(4,5) t'(2) by (simp_all add: stored_as_def)
  moreover have "keeps (stock obj tgt) (do {
        update_metrics (recordPhase (wd_Namespace wd') (wd_Name wd') (phase_string phase));
        (if wd_Phase wd \<noteq> phase then maybeNotify k wd' (wd_Phase wd) phase else return ());
        return r })" for r :: reconcile_result
    by (intro keeps_intros keeps_stock_maybeNotify [OF assms(1)])
  ultimately have "wp (do {
        update_metrics (recordPhase (wd_Namespace wd') (wd_Name wd') (phase_string phase));
        (if wd_Phase wd \<noteq> phase then maybeNotify k wd' (wd_Phase wd) phase else return ());
        return r }) (\<lambda>_ v. tgt (env v) = tgt (env s) \<and> (\<exists>st. obj (env v) = Some st \<and> stored_as c wd phase st))
      (t\<lparr>env := e, trace := trace t @ [UpdateStatusWD a None]\<rparr>)" for r :: reconcile_result
    by (intro wp_keeps_any [of "stock obj tgt"]) (auto simp: stock_def)
  moreover have "run_state (update_loop k (take_snapshot wd) phase msg maxRetries a) t =
      (Stored wd', t\<lparr>env := e, trace := trace t @ [UpdateStatusWD a None]\<rparr>)"
    using u by (simp add: maxRetries_def numeral_3_eq_3 r_StatusUpdate_def run_simps)
  ultimately show "wp (update_loop k (take_snapshot wd) phase msg maxRetries a) (\<lambda>out. wp (case out of
      Stored wd' \<Rightarrow> do {
        update_metrics (recordPhase (wd_Namespace wd') (wd_Name wd') (phase_string phase));
        (if wd_Phase wd \<noteq> phase then maybeNotify k wd' (wd_Phase wd) phase else return ());
        return (case res of None \<Rightarrow> requeueAfter (15 * Second) | Some r \<Rightarrow> r, None) }
    | UpdateFailed err \<Rightarrow> return (emptyResult, Some err) | Exhausted \<Rightarrow> return (requeueNow, None))
    (\<lambda>_ t. tgt (env t) = tgt (env s) \<and> (\<exists>st. obj (env t) = Some st \<and> stored_as c wd phase st))) t"
    unfolding wp_run [of "update_loop _ _ _ _ _ _"] by simp
qed

lemma responsive_at_time [simp]: "responsive (at_time now k) = responsive k"
  by (simp add: responsive_def fun_eq_iff)

lemma accepted_patch:
  assumes "api_store k key obj tgt" and "responsive k obj tgt" and "tgt (env s) = Some w" and "same_workload w v"
  obtains e where "k_Patch k w v (env s) = (Inr v, e)" "obj e = obj (env s)" "tgt e = Some v"
proof -
  obtain e where p: "k_Patch k w v (env s) = (Inr v, e)" using responsive_patch [OF assms(2-4)] by (metis prod.collapse)
  show ?thesis using that [OF p] store_Patch(1) [OF assms(1) p] store_Patch(3) [OF assms(1) p refl assms(3,4)] by blast
qed

lemma restoreWorkload_done:
  assumes "api_store k key obj tgt" and "responsive k obj tgt" and "tgt (env s) = Some w" and "plain w"
  shows "wp (restoreWorkload k wd w) (\<lambda>err t. err = None \<and> obj (env t) = obj (env s) \<and> tgt (env t) = Some (restore_result k wd w)) s"
proof (cases "SavedReplicas (wd_Status wd)")
  case (Some n)
  obtain e where "k_Patch k w (setReplicas k n w) (env s) = (Inr (setReplicas k n w), e)" "obj e = obj (env s)"
    "tgt e = Some (setReplicas k n w)" using accepted_patch [OF assms(1-3) same_workload_set [OF assms(4)]] .
  with Some assms(3,4) show ?thesis
    by (cases w) (auto simp: restoreWorkload_def scale_up_def Let_def wp_simps r_Patch_def)
qed (use assms(3,4) in \<open>cases w; simp add: restoreWorkload_def scale_up_def wp_simps\<close>)

lemma suspendWorkload_done:
  assumes "api_store k key obj tgt" and "responsive k obj tgt" and "tgt (env s) = Some w" and "plain w"
  shows "wp (suspendWorkload k wd w msg) (\<lambda>(err, wd', w') t. err = None \<and> obj (env t) = obj (env s) \<and>
    wd' = fst (suspend_result k wd w) \<and> tgt (env t) = Some (snd (suspend_result k wd w))) s"
proof -
  obtain e where "k_Patch k w (setReplicas k 0 w) (env s) = (Inr (setReplicas k 0 w), e)" "obj e = obj (env s)"
    "tgt e = Some (setReplicas k 0 w)" using accepted_patch [OF assms(1-3) same_workload_set [OF assms(4)]] .
  with assms(3,4) show ?thesis
    by (cases w) (auto simp: suspendWorkload_def scale_down_def Let_def wp_simps r_Patch_def)
qed

section \<open>One healthy or unhealthy report\<close>

text \<open>
  What is stored after a healthy report at \<open>now\<close> about \<open>c\<close>: recovered, or in the recovery window; and
  after an unhealthy one: suspended, or in the degraded window.
\<close>

definition recovering :: "gotime \<Rightarrow> WorkloadDependency \<Rightarrow> WorkloadDependency \<Rightarrow> workloadAccessor \<Rightarrow> bool" where
  "recovering now c st v \<longleftrightarrow> wd_Phase st = PhaseHealthy \<or>
     wd_Phase st = PhaseSuspended \<and> wd_Phase c = PhaseSuspended \<and> (\<exists>h. HealthySince (wd_Status st) = Some h \<and>
       (case HealthySince (wd_Status c) of None \<Rightarrow> h = now | Some h' \<Rightarrow> h = h' \<and> sub_time now h <s recoveryWindow c))"

definition degrading :: "'e kube \<Rightarrow> gotime \<Rightarrow> WorkloadDependency \<Rightarrow> WorkloadDependency \<Rightarrow> workloadAccessor \<Rightarrow> bool" where
  "degrading k now c st v \<longleftrightarrow> wd_Phase st = PhaseSuspended \<and> getReplicas k v = 0 \<or>
     wd_Phase st \<notin> {PhaseSuspended, PhaseReleased} \<and> (\<exists>d. DegradedSince (wd_Status st) = Some d \<and>
       (case DegradedSince (wd_Status c) of None \<Rightarrow> d = now | Some d' \<Rightarrow> d = d' \<and> sub_time now d <s degradedWindow c))"

text \<open>The stored object and dependent after a reconciliation of \<open>c\<close>.\<close>

definition leads ::
  "'e kube \<Rightarrow> int32 \<Rightarrow> ('e \<Rightarrow> WorkloadDependency option) \<Rightarrow> ('e \<Rightarrow> workloadAccessor option) \<Rightarrow> WorkloadDependency
     \<Rightarrow> (WorkloadDependency \<Rightarrow> workloadAccessor \<Rightarrow> bool) \<Rightarrow> 'e world \<Rightarrow> bool" where
  "leads k n obj tgt c P t \<longleftrightarrow> (\<exists>st w. obj (env t) = Some st \<and> tgt (env t) = Some w \<and>
     wd_Spec st = wd_Spec c \<and> kept k n st w \<and> P st w)"

lemma active_stored: "stored_as c wd phase st \<Longrightarrow> active k st = active k c"
  by (simp add: stored_as_def active_def same_identity_def)

lemma setStatus_leads:
  fixes s :: "'e world"
  assumes "api_store k key obj tgt" and "responsive k obj tgt" and "obj (env s) = Some c" and "tgt (env s) = Some w"
    and "wd_Meta wd = wd_Meta c" and "wd_Spec wd = wd_Spec c" and "active k' c" and "plain w"
    and "phase = PhaseSuspended \<Longrightarrow> SavedReplicas (wd_Status wd) = Some n \<and> getReplicas k' w \<in> {0, n}"
    and "phase \<noteq> PhaseSuspended \<Longrightarrow> getReplicas k' w = n"
    and "\<And>st. stored_as c wd phase st \<Longrightarrow> P st w"
  shows "wp (setStatus k wd phase msg res) (\<lambda>_. leads k' n obj tgt c P) s"
proof (rule wp_mono [OF setStatus_stores [OF assms(1-3,5,6)]])
  fix t :: "'e world"
  assume "tgt (env t) = tgt (env s) \<and> (\<exists>st. obj (env t) = Some st \<and> stored_as c wd phase st)"
  then obtain st where st: "obj (env t) = Some st" "stored_as c wd phase st" "tgt (env t) = Some w" using assms(4) by auto
  have "kept k' n st w"
    using assms(7-10) active_stored [OF st(2)] st(2) by (auto simp: kept_def stored_as_def)
  with st assms(11) [OF st(2)] show "leads k' n obj tgt c P t"
    by (auto simp: leads_def stored_as_def)
qed

lemma restore_leads:
  assumes "api_store k key obj tgt" and "responsive k obj tgt" and "obj (env s) = Some c" and "tgt (env s) = Some w"
    and "active k c" and "plain w" and "n \<noteq> 0" and "SavedReplicas (wd_Status wd) = Some n"
    and "wd_Meta wd' = wd_Meta c" and "wd_Spec wd' = wd_Spec c" and "\<And>st v. wd_Phase st = PhaseHealthy \<Longrightarrow> P st v"
  shows "wp (do {
      err \<leftarrow> restoreWorkload (at_time now k) wd w;
      case err of
        Some err \<Rightarrow> return (emptyResult, Some err)
      | None \<Rightarrow> setStatus (at_time now k) wd' PhaseHealthy msg None }) (\<lambda>_. leads k n obj tgt c P) s"
proof -
  note st = api_store_at_time [OF assms(1), of now]
  have acc: "responsive (at_time now k) obj tgt" using assms(2) by simp
  show ?thesis
    unfolding wp_bind
    by (rule wp_mono [OF restoreWorkload_done [OF st acc assms(4,6)]])
       (use assms(3,5-) in \<open>auto intro!: setStatus_leads [OF st acc, where w = "setReplicas k n w"] simp: stored_as_def\<close>)
qed

lemma wp_time_at [simp]: "wp (time_Since (at_time now k) u) Q s = Q (sub_time now u) s"
  by (simp add: wp_run run_simps)

lemma handleHealthy_leads:
  assumes "api_store k key obj tgt" and "responsive k obj tgt" and "obj (env s) = Some c" and "tgt (env s) = Some w" and "kept k n c w" and "n \<noteq> 0"
  shows "wp (handleHealthy (at_time now k) c w now) (\<lambda>_. leads k n obj tgt c (recovering now c)) s"
proof -
  let ?k = "at_time now k"
  note st = api_store_at_time [OF assms(1), of now]
  have acc: "responsive ?k obj tgt" and c: "active k c" "plain w" using assms(2,5) by (simp_all add: kept_def)
  note status = setStatus_leads [OF st acc _ _ _ _ c]
  show ?thesis
  proof (cases "wd_Phase c = PhaseSuspended")
    case False
    with assms(3-5) show ?thesis by (auto simp: handleHealthy_def kept_def stored_as_def recovering_def intro!: status)
  next
    case True
    then have sv: "SavedReplicas (wd_Status c) = Some n" "getReplicas k w \<in> {0, n}" using assms(5) by (simp_all add: kept_def)
    show ?thesis
    proof (cases "HealthySince (wd_Status c)")
      case None
      with True sv assms(3,4) show ?thesis by (auto simp: handleHealthy_def Let_def stored_as_def recovering_def intro!: status)
    next
      case (Some h)
      have "leads k n obj tgt c (recovering now c) s" if "sub_time now h <s recoveryWindow c"
        using that True Some assms(3-5) by (auto simp: leads_def recovering_def)
      with True Some sv(1) assms(3,4) show ?thesis
        by (auto simp: handleHealthy_def Let_def wp_bind [of "time_Since _ _"] wp_return
            intro!: restore_leads [OF assms(1,2) _ _ c assms(6)] simp: recovering_def)
    qed
  qed
qed

lemma suspend_leads:
  assumes "api_store k key obj tgt" and "responsive k obj tgt" and "obj (env s) = Some c" and "tgt (env s) = Some w"
    and "active k c" and "plain w" and "getReplicas k w = n" and "n \<noteq> 0"
    and "\<And>st v. wd_Phase st = PhaseSuspended \<Longrightarrow> getReplicas k v = 0 \<Longrightarrow> P st v"
  shows "wp (do {
      (err, wd, v) \<leftarrow> suspendWorkload (at_time now k) c w msg;
      case err of
        Some err \<Rightarrow> return (emptyResult, Some err)
      | None \<Rightarrow> setStatus (at_time now k) wd PhaseSuspended msg res }) (\<lambda>_. leads k n obj tgt c P) s"
proof -
  note st = api_store_at_time [OF assms(1), of now]
  have acc: "responsive (at_time now k) obj tgt" using assms(2) by simp
  show ?thesis
    unfolding wp_bind
    by (rule wp_mono [OF suspendWorkload_done [OF st acc assms(4,6)]])
       (use assms(3,5-) in \<open>auto intro!: setStatus_leads [OF st acc, where w = "setReplicas k 0 w"] simp: stored_as_def\<close>)
qed

lemma handleDegraded_leads:
  assumes "api_store k key obj tgt" and "responsive k obj tgt" and "obj (env s) = Some c" and "tgt (env s) = Some w" and "kept k n c w" and "n \<noteq> 0"
    and "wd_Phase c \<notin> {PhaseSuspended, PhaseReleased}"
  shows "wp (handleDegraded (at_time now k) c w msg now) (\<lambda>_. leads k n obj tgt c (degrading k now c)) s"
proof -
  let ?k = "at_time now k"
  note st = api_store_at_time [OF assms(1), of now]
  have acc: "responsive ?k obj tgt" and c: "active k c" "plain w" "getReplicas k w = n" using assms(2,5,7) by (auto simp: kept_def)
  show ?thesis
  proof (cases "DegradedSince (wd_Status c)")
    case None
    with c assms(3,4) show ?thesis
      by (auto simp: handleDegraded_def Let_def stored_as_def degrading_def intro!: setStatus_leads [OF st acc])
  next
    case (Some d)
    have "leads k n obj tgt c (degrading k now c) s" if "sub_time now d <s degradedWindow c"
      using that Some assms(3-5,7) by (auto simp: leads_def degrading_def)
    with Some show ?thesis
      using assms(3,4,6) c
      by (auto simp: handleDegraded_def Let_def wp_bind [of "time_Since _ _"] wp_return intro!: suspend_leads [OF assms(1,2)] simp: degrading_def)
  qed
qed

lemma stillSuspended_leads:
  assumes "api_store k key obj tgt" and "responsive k obj tgt" and "obj (env s) = Some c" and "tgt (env s) = Some w" and "kept k n c w"
    and "wd_Phase c = PhaseSuspended" and "getReplicas k w = 0" and "\<not> 0 <s MaxSuspendDuration (OnDegraded (wd_Spec c))"
  shows "wp (stillSuspended (at_time now k) c w msg) (\<lambda>_. leads k n obj tgt c (\<lambda>st v.
    wd_Phase st = PhaseSuspended \<and> getReplicas k v = 0 \<and> HealthySince (wd_Status st) = HealthySince (wd_Status c))) s"
proof -
  note st = api_store_at_time [OF assms(1), of now]
  have acc: "responsive (at_time now k) obj tgt" and c: "active k c" "plain w" using assms(2,5) by (simp_all add: kept_def)
  have "\<not> needsEnforce (at_time now k) w" using c(2) assms(7) by (cases w) (simp_all add: needsEnforce_def)
  then show ?thesis
    using assms(3-8) c
    by (auto simp: stillSuspended_def Let_def handleSuspended_def kept_def stored_as_def intro!: setStatus_leads [OF st acc])
qed

section \<open>Two reports a window apart\<close>

lemma leads_stored:
  assumes "leads k n obj tgt c P s" and "undisturbed k (stock obj tgt s) (stock obj tgt t)"
    and "obj (env t) = Some wd" and "tgt (env t) = Some w"
  shows "\<exists>st v. wd_Status wd = wd_Status st \<and> getReplicas k w = getReplicas k v \<and> wd_Spec st = wd_Spec c \<and>
    kept k n st v \<and> kept k n wd w \<and> P st v"
proof -
  obtain st v where s: "obj (env s) = Some st" "tgt (env s) = Some v" "wd_Spec st = wd_Spec c" "kept k n st v" "P st v"
    using assms(1) by (auto simp: leads_def)
  with assms(2-4) have "wd_Status wd = wd_Status st" "getReplicas k w = getReplicas k v" "plain w" "active k wd"
    by (auto simp: stock_def kept_def)
  moreover from this s(4) have "kept k n wd w" by (auto simp: kept_def split: if_splits)
  ultimately show ?thesis using s by blast
qed

lemma Reconcile_leads:
  assumes "api_store k key obj tgt" and "finds (at_time now k) key s wd w ok" and "active k wd"
    and "\<And>msg u. obj (env u) = Some wd \<Longrightarrow> tgt (env u) = Some w \<Longrightarrow>
      wp (act (at_time now k) wd w ok msg now) (\<lambda>_. leads k n obj tgt wd P) u"
  shows "leads k n obj tgt wd P (snd (run_state (Reconcile (at_time now k) key) s))"
  using wp_Reconcile_finds [OF assms] by (simp add: wp_run)

lemma healthy_report:
  assumes "api_store k key obj tgt" and "responsive k obj tgt" and "kept k n c v" and "n \<noteq> 0" and "finds (at_time now k) key s c v True"
  shows "leads k n obj tgt c (recovering now c) (snd (run_state (Reconcile (at_time now k) key) s))"
proof -
  have a: "active k c" using assms(3) by (simp add: kept_def)
  have "act (at_time now k) c v True msg now = handleHealthy (at_time now k) c v now" for msg
    using assms(3) by (simp add: act_def kept_def active_def)
  then show ?thesis by (intro Reconcile_leads [OF assms(1,5) a]) (simp add: handleHealthy_leads [OF assms(1,2) _ _ assms(3,4)])
qed

lemma unhealthy_report:
  assumes "api_store k key obj tgt" and "responsive k obj tgt" and "kept k n c v" and "n \<noteq> 0" and "finds (at_time now k) key s c v False"
    and "wd_Phase c \<notin> {PhaseSuspended, PhaseReleased}"
  shows "leads k n obj tgt c (degrading k now c) (snd (run_state (Reconcile (at_time now k) key) s))"
proof -
  have a: "active k c" using assms(3) by (simp add: kept_def)
  have "act (at_time now k) c v False msg now = handleDegraded (at_time now k) c v msg now" for msg
    using assms(3,6) by (simp add: act_def kept_def active_def)
  then show ?thesis by (intro Reconcile_leads [OF assms(1,5) a]) (simp add: handleDegraded_leads [OF assms(1,2) _ _ assms(3,4,6)])
qed

lemma suspended_report:
  assumes "api_store k key obj tgt" and "responsive k obj tgt" and "kept k n c v" and "finds (at_time now k) key s c v False"
    and "wd_Phase c = PhaseSuspended" and "getReplicas k v = 0" and "\<not> 0 <s MaxSuspendDuration (OnDegraded (wd_Spec c))"
  shows "leads k n obj tgt c (\<lambda>st v.
      wd_Phase st = PhaseSuspended \<and> getReplicas k v = 0 \<and> HealthySince (wd_Status st) = HealthySince (wd_Status c))
    (snd (run_state (Reconcile (at_time now k) key) s))"
proof -
  have a: "active k c" using assms(3) by (simp add: kept_def)
  have "act (at_time now k) c v False msg now = stillSuspended (at_time now k) c v msg" for msg
    using assms(3,5) by (simp add: act_def kept_def active_def)
  then show ?thesis by (intro Reconcile_leads [OF assms(1,4) a]) (simp add: stillSuspended_leads [OF assms(1-2) _ _ assms(3,5-7)])
qed

end
