(* ===== verification/Memory_Store.thy ===== *)
theory Memory_Store
  imports Liveness
begin

text \<open>
  The in-memory cluster keeps the contract \<open>api_store\<close> and, when it refuses nothing, answers as
  \<open>responsive\<close> asks: the instance on which the theorems about the system are evaluated.
\<close>

section \<open>The in-memory cluster keeps the contract\<close>

definition mem_obj :: "NamespacedName \<Rightarrow> cluster \<Rightarrow> WorkloadDependency option" where
  "mem_obj key c = find (\<lambda>w. wd_key w = key) (cl_wds c)"

definition mem_tgt :: "NamespacedName \<Rightarrow> cluster \<Rightarrow> workloadAccessor option" where
  "mem_tgt key c =
     (case mem_obj key c of None \<Rightarrow> None
      | Some wd \<Rightarrow> (case read_target mem_kube wd c of Inr w \<Rightarrow> Some w | Inl _ \<Rightarrow> None))"

lemma first_some_map:
  assumes "first_some g ws = Some d" and "\<And>v. P v \<longleftrightarrow> g v \<noteq> None" and "g w = Some d'"
  shows "first_some g (map (\<lambda>v. if P v then w else v) ws) = Some d'"
  using assms(1) by (induction ws) (auto simp: assms(2,3) split: option.splits)

lemma first_some_member: "first_some g ws = Some d \<Longrightarrow> \<exists>v \<in> set ws. g v = Some d"
  by (induction ws) (auto split: option.splits)

lemma found_Inr: "found r = Inr d \<longleftrightarrow> r = Some d"
  by (simp add: found_def split: option.split)

lemma map_sum_Inr: "map_sum id f x = Inr y \<longleftrightarrow> (\<exists>d. x = Inr d \<and> y = f d)"
  by (cases x) auto

lemma get_patched:
  assumes "first_some g ws = Some d" and g: "\<And>v x. g v = Some x \<longleftrightarrow> v = C x \<and> at_name nn v"
    and same: "\<And>v x. same_workload v (C x) \<longleftrightarrow>
      (\<exists>y. v = C y) \<and> getName v = getName (C x) \<and> getNamespace v = getNamespace (C x)"
    and "same_workload (C d) (C d')"
  shows "first_some g (map (\<lambda>v. if same_workload v (C d') then C d' else v) ws) = Some d'"
proof -
  obtain v where "g v = Some d" using first_some_member [OF assms(1)] by blast
  then have "at_name nn (C d)" using g [of v d] by blast
  then have nn: "at_name nn v \<longleftrightarrow> getName v = getName (C d') \<and> getNamespace v = getNamespace (C d')" for v
    using assms(4) unfolding same at_name_def by simp
  have "same_workload v (C d') \<longleftrightarrow> (\<exists>x. g v = Some x)" for v
    unfolding same g nn by blast
  then show ?thesis
    by (intro first_some_map [OF assms(1)]) (auto simp: g nn)
qed

lemma read_target_patched:
  assumes "read_target mem_kube wd c = Inr b" and "same_workload b w"
  shows "read_target mem_kube wd (c\<lparr>cl_workloads := map (\<lambda>v. if same_workload v w then w else v) (cl_workloads c)\<rparr>) = Inr w"
proof -
  have same: "same_workload v (DeploymentAccessor d) \<longleftrightarrow> (\<exists>y. v = DeploymentAccessor y) \<and>
      getName v = getName (DeploymentAccessor d) \<and> getNamespace v = getNamespace (DeploymentAccessor d)"
    "same_workload v (StatefulSetAccessor x) \<longleftrightarrow> (\<exists>y. v = StatefulSetAccessor y) \<and>
      getName v = getName (StatefulSetAccessor x) \<and> getNamespace v = getNamespace (StatefulSetAccessor x)"
    "same_workload v (CronJobAccessor y) \<longleftrightarrow> (\<exists>x. v = CronJobAccessor x) \<and>
      getName v = getName (CronJobAccessor y) \<and> getNamespace v = getNamespace (CronJobAccessor y)"
    "same_workload v (RolloutAccessor z) \<longleftrightarrow> (\<exists>y. v = RolloutAccessor y) \<and>
      getName v = getName (RolloutAccessor z) \<and> getNamespace v = getNamespace (RolloutAccessor z)" for v d x y z
    by (cases v; auto simp: same_workload_def)+
  let ?nn = "\<lparr>nn_Namespace = dependentNS wd, nn_Name = ref_Name (Dependent (wd_Spec wd))\<rparr>"
  let ?put = "map (\<lambda>v. if same_workload v w then w else v) (cl_workloads c)"
  note unfold = read_target_def Let_def mem_kube_def map_sum_Inr found_Inr
  show ?thesis
  proof (cases w)
    case (DeploymentAccessor d)
    then obtain b' where b: "b = DeploymentAccessor b'" using assms(2) by (cases b) (auto simp: same_workload_def)
    let ?g = "\<lambda>v. case v of DeploymentAccessor d \<Rightarrow> if at_name ?nn v then Some d else None | _ \<Rightarrow> None"
    have "first_some ?g (cl_workloads c) = Some b' \<Longrightarrow> first_some ?g ?put = Some d"
      unfolding DeploymentAccessor
      by (rule get_patched [where nn = ?nn, OF _ _ same(1)])
         (use assms(2) b DeploymentAccessor in \<open>auto split: workloadAccessor.splits\<close>)
    then show ?thesis using assms(1) unfolding b by (auto simp: unfold DeploymentAccessor split: if_splits)
  next
    case (StatefulSetAccessor d)
    then obtain b' where b: "b = StatefulSetAccessor b'" using assms(2) by (cases b) (auto simp: same_workload_def)
    let ?g = "\<lambda>v. case v of StatefulSetAccessor d \<Rightarrow> if at_name ?nn v then Some d else None | _ \<Rightarrow> None"
    have "first_some ?g (cl_workloads c) = Some b' \<Longrightarrow> first_some ?g ?put = Some d"
      unfolding StatefulSetAccessor
      by (rule get_patched [where nn = ?nn, OF _ _ same(2)])
         (use assms(2) b StatefulSetAccessor in \<open>auto split: workloadAccessor.splits\<close>)
    then show ?thesis using assms(1) unfolding b by (auto simp: unfold StatefulSetAccessor split: if_splits)
  next
    case (CronJobAccessor d)
    then obtain b' where b: "b = CronJobAccessor b'" using assms(2) by (cases b) (auto simp: same_workload_def)
    let ?g = "\<lambda>v. case v of CronJobAccessor d \<Rightarrow> if at_name ?nn v then Some d else None | _ \<Rightarrow> None"
    have "first_some ?g (cl_workloads c) = Some b' \<Longrightarrow> first_some ?g ?put = Some d"
      unfolding CronJobAccessor
      by (rule get_patched [where nn = ?nn, OF _ _ same(3)])
         (use assms(2) b CronJobAccessor in \<open>auto split: workloadAccessor.splits\<close>)
    then show ?thesis using assms(1) unfolding b by (auto simp: unfold CronJobAccessor split: if_splits)
  next
    case (RolloutAccessor d)
    then obtain b' where b: "b = RolloutAccessor b'" using assms(2) by (cases b) (auto simp: same_workload_def)
    let ?g = "\<lambda>v. case v of RolloutAccessor d \<Rightarrow> if at_name ?nn v then Some d else None | _ \<Rightarrow> None"
    have "first_some ?g (cl_workloads c) = Some b' \<Longrightarrow> first_some ?g ?put = Some d"
      unfolding RolloutAccessor
      by (rule get_patched [where nn = ?nn, OF _ _ same(4)])
         (use assms(2) b RolloutAccessor in \<open>auto split: workloadAccessor.splits\<close>)
    then show ?thesis using assms(1) unfolding b by (auto simp: unfold RolloutAccessor split: if_splits)
  qed
qed

lemma put_wd_cases:
  assumes "put_wd wd c = (r, c')"
  shows "cl_workloads c' = cl_workloads c"
    and "r = Inl err \<Longrightarrow> c' = c"
    and "r = Inr wd' \<Longrightarrow> wd' = bump wd \<and> mem_obj (wd_key wd) c \<noteq> None \<and>
      cl_wds c' = map (\<lambda>w. if wd_key w = wd_key wd then bump wd else w) (cl_wds c)"
  using assms by (auto simp: put_wd_def mem_obj_def split: option.splits if_splits)

lemma find_put:
  assumes "find (\<lambda>w. wd_key w = key) ws = Some x" and "wd_key (bump wd) = wd_key wd"
  shows "find (\<lambda>w. wd_key w = key) (map (\<lambda>w. if wd_key w = wd_key wd then bump wd else w) ws) =
    Some (if wd_key wd = key then bump wd else x)"
  using assms(1)
  by (induction ws) (use assms(2) in \<open>auto split: if_splits\<close>)

lemma bump_sel [simp]:
  "wd_key (bump wd) = wd_key wd" "wd_Spec (bump wd) = wd_Spec wd" "wd_Status (bump wd) = wd_Status wd"
  "same_identity (bump wd) c = same_identity wd c"
  by (simp_all add: bump_def same_identity_def)

lemma mem_obj_key: "mem_obj key c = Some wd \<Longrightarrow> wd_key wd = key"
  by (auto simp: mem_obj_def find_Some_iff)

lemma mem_tgt_cong:
  assumes "mem_obj key c = Some wd" and "mem_obj key c' = Some wd'" and "cl_workloads c' = cl_workloads c"
    and "wd_Spec wd' = wd_Spec wd" and "wd_key wd' = wd_key wd"
  shows "mem_tgt key c' = mem_tgt key c"
proof -
  have "read_target mem_kube wd' c' = read_target mem_kube wd c"
    using assms(3-5) by (simp add: read_target_def mem_kube_def dependentNS_def Let_def)
  with assms(1,2) show ?thesis by (simp add: mem_tgt_def)
qed

lemma put_wd_stores:
  assumes "put_wd wd e = (r, e')" and "mem_obj key e = Some c" and "wd_Spec wd = wd_Spec c"
  shows "mem_tgt key e' = mem_tgt key e"
    and "r = Inl err \<Longrightarrow> e' = e"
    and "r = Inr wd' \<Longrightarrow> wd' = bump wd \<and> mem_obj key e' = Some (if wd_key wd = key then bump wd else c)"
proof -
  have key: "wd_key c = key" by (rule mem_obj_key [OF assms(2)])
  have put: "mem_obj key e' = Some (if wd_key wd = key then bump wd else c)" "wd' = bump wd" if "r = Inr wd'" for wd'
    using put_wd_cases(3) [OF assms(1) that] find_put [of key "cl_wds e" c wd] assms(2) by (simp_all add: mem_obj_def)
  then show "r = Inr wd' \<Longrightarrow> wd' = bump wd \<and> mem_obj key e' = Some (if wd_key wd = key then bump wd else c)" by simp
  show inl: "r = Inl err \<Longrightarrow> e' = e" by (rule put_wd_cases(2) [OF assms(1)])
  show "mem_tgt key e' = mem_tgt key e"
  proof (cases r)
    case (Inr wd')
    show ?thesis
      by (rule mem_tgt_cong [OF assms(2) put(1) [OF Inr] put_wd_cases(1) [OF assms(1)]]) (use assms(3) key in auto)
  qed (use put_wd_cases(2) [OF assms(1)] in simp)
qed

text \<open>The in-memory cluster, with a server that may refuse status updates.\<close>

definition moody_kube :: "(cluster \<Rightarrow> api_error option) \<Rightarrow> cluster kube" where
  "moody_kube refuse = mem_kube\<lparr>k_UpdateStatusWD :=
     (\<lambda>wd c. case refuse c of None \<Rightarrow> put_wd wd c | Some err \<Rightarrow> (Inl err, c))\<rparr>"

lemma moody_kube_sel:
  "k_Now (moody_kube f) = k_Now mem_kube" "k_GetWD (moody_kube f) = k_GetWD mem_kube"
  "k_ListWD (moody_kube f) = k_ListWD mem_kube" "k_GetDeployment (moody_kube f) = k_GetDeployment mem_kube"
  "k_GetStatefulSet (moody_kube f) = k_GetStatefulSet mem_kube" "k_GetCronJob (moody_kube f) = k_GetCronJob mem_kube"
  "k_GetRollout (moody_kube f) = k_GetRollout mem_kube" "k_GetSecret (moody_kube f) = k_GetSecret mem_kube"
  "k_Patch (moody_kube f) = k_Patch mem_kube" "k_UpdateWD (moody_kube f) = k_UpdateWD mem_kube"
  "read_target (moody_kube f) = read_target mem_kube"
  by (simp_all add: moody_kube_def read_target_def fun_eq_iff Let_def)

lemma moody_stores: "api_store (moody_kube f) key (mem_obj key) (mem_tgt key)"
  unfolding api_store_def
proof (intro conjI)
  show "reads_leave (moody_kube f) (mem_obj key) (mem_tgt key)"
    by (simp add: reads_leave_def moody_kube_sel mem_kube_def)
  show "reads_tell (moody_kube f) key (mem_obj key) (mem_tgt key)"
    by (auto simp: reads_tell_def moody_kube_sel mem_tgt_def found_Inr mem_obj_key simp flip: mem_obj_def split: sum.split)
  show "patches_stored (moody_kube f) (mem_obj key) (mem_tgt key)"
  proof -
    have "mem_tgt key (c\<lparr>cl_workloads := map (\<lambda>v. if same_workload v w then w else v) (cl_workloads c)\<rparr>) = Some w"
      if "mem_tgt key c = Some b" "same_workload b w" for b w c
      using that read_target_patched [OF _ that(2)] by (auto simp: mem_tgt_def mem_obj_def split: option.splits sum.splits)
    then show ?thesis by (auto simp: patches_stored_def moody_kube_sel mem_kube_def mem_obj_def)
  qed
  show "status_stored (moody_kube f) (mem_obj key) (mem_tgt key)"
    unfolding status_stored_def
  proof (intro allI impI)
    fix wd c e r e'
    assume k: "k_UpdateStatusWD (moody_kube f) wd e = (r, e')" and c: "mem_obj key e = Some c"
      and m: "wd_Meta wd = wd_Meta c" and sp: "wd_Spec wd = wd_Spec c"
    have key: "wd_key wd = key" using mem_obj_key [OF c] m by simp
    show "mem_tgt key e' = mem_tgt key e \<and> (case r of Inl _ \<Rightarrow> mem_obj key e' = mem_obj key e
      | Inr wd' \<Rightarrow> mem_obj key e' = Some wd' \<and> wd_Status wd' = wd_Status wd \<and> wd_Spec wd' = wd_Spec c \<and> same_identity wd' c)"
    proof (cases "f e")
      case None
      with k have p: "put_wd wd e = (r, e')" by (simp add: moody_kube_def)
      have "same_identity wd c" using m by (simp add: same_identity_def)
      with put_wd_stores [OF p c sp] key sp show ?thesis by (auto split: sum.split)
    qed (use k in \<open>auto simp: moody_kube_def\<close>)
  qed
  show "updates_stored (moody_kube f) (mem_obj key) (mem_tgt key)"
    unfolding updates_stored_def
  proof (intro allI impI)
    fix wd c e r e'
    assume "k_UpdateWD (moody_kube f) wd e = (r, e')" and c: "mem_obj key e = Some c"
      and sp: "wd_Spec wd = wd_Spec c" and st: "wd_Status wd = wd_Status c"
    then have "put_wd wd e = (r, e')" by (simp add: moody_kube_sel)
    from put_wd_stores [OF this c sp] st c show "mem_tgt key e' = mem_tgt key e \<and>
        (case mem_obj key e' of None \<Rightarrow> True | Some c' \<Rightarrow> wd_Status c' = wd_Status c)"
      by (cases r) auto
  qed
qed

lemma put_wd_current:
  assumes "mem_obj key e = Some c" and "wd_Meta wd = wd_Meta c"
  shows "fst (put_wd wd e) = Inr (bump wd)"
proof -
  have "wd_key wd = key" using mem_obj_key [OF assms(1)] assms(2) by simp
  then show ?thesis using assms by (simp add: put_wd_def mem_obj_def)
qed

abbreviation calm_kube :: "cluster kube" where
  "calm_kube \<equiv> moody_kube (\<lambda>_. None)"

lemma calm_responsive: "responsive calm_kube (mem_obj key) (mem_tgt key)"
  by (auto simp: responsive_def moody_kube_sel mem_kube_def)
     (simp add: moody_kube_def put_wd_current)

lemma run_mem_getWorkload:
  "run_state (getWorkload (at_time now calm_kube) kind name ns) s =
     (fst (run_state (getWorkload (at_time now calm_kube) kind name ns) s), s)"
  by (simp add: getWorkload_def getRollout_def Let_def run_simps moody_kube_sel mem_kube_def split: prod.splits)

lemma mem_finds:
  assumes "mem_obj key (env s) = Some wd" and "mem_tgt key (env s) = Some w"
    and "case fst (run_state (evalDependencies (at_time now calm_kube) wd (DependsOn (wd_Spec wd)) True []) s) of
      Inl _ \<Rightarrow> False | Inr (r, _) \<Rightarrow> r = ok"
  shows "finds (at_time now calm_kube) key s wd w ok"
proof -
  let ?get = "getWorkload (at_time now calm_kube) (ref_Kind (Dependent (wd_Spec wd))) (ref_Name (Dependent (wd_Spec wd))) (dependentNS wd)"
  have "k_GetWD (at_time now calm_kube) key (env s) = (Inr wd, env s)"
    using assms(1) by (simp add: moody_kube_sel mem_kube_def found_def mem_obj_def)
  moreover have "fst (run_state ?get s) = Inr w"
    using assms(1,2) unfolding getWorkload_read by (simp add: at_time_laws moody_kube_sel mem_tgt_def split: sum.splits)
  then have "run_state ?get s = (Inr w, s)" using run_mem_getWorkload by metis
  moreover obtain msg u where
    "run_state (evalDependencies (at_time now calm_kube) wd (DependsOn (wd_Spec wd)) True []) s = (Inr (ok, msg), u)"
    using assms(3) by (cases "run_state (evalDependencies (at_time now calm_kube) wd (DependsOn (wd_Spec wd)) True []) s")
      (auto split: sum.splits)
  ultimately show ?thesis unfolding finds_def by force
qed

section \<open>A cluster with a degraded dependency\<close>

lemma mem_start:
  "mem_obj (wd_key degraded_wd) (env (here degraded_wd)) = Some degraded_wd"
  "mem_tgt (wd_key degraded_wd) (env (here degraded_wd)) = Some running3"
  by (simp_all add: mem_obj_def mem_tgt_def read_target_def mem_kube_def sample_defs running3_def found_def at_name_def dependentNS_def)

lemma mem_at_time [simp]:
  "mem_obj key (c\<lparr>cl_now := now\<rparr>) = mem_obj key c" "mem_tgt key (c\<lparr>cl_now := now\<rparr>) = mem_tgt key c"
  by (simp_all add: mem_obj_def mem_tgt_def read_target_def mem_kube_def Let_def split: option.split)

lemma degraded_start:
  "active (moody_kube f) degraded_wd" "plain running3" "wd_Phase degraded_wd \<noteq> PhaseSuspended"
  "SavedReplicas (wd_Status degraded_wd) = None" "getReplicas (moody_kube f) running3 = 3" "wf_status (wd_Status degraded_wd)"
  by (simp_all add: active_def moody_kube_def sample_defs running3_def deployment_getReplicas_def wf_status_def AnnotationPaused_def)

text \<open>What a second reconciliation of the same cluster finds.\<close>

lemma mem_finds_next:
  assumes "case mem_obj key (env t) of None \<Rightarrow> False | Some wd \<Rightarrow> wd_Spec wd = spec \<and>
      (case fst (run_state (evalDependencies (at_time now calm_kube) wd (DependsOn (wd_Spec wd)) True []) t) of
         Inl _ \<Rightarrow> False | Inr (r, _) \<Rightarrow> r = ok)"
    and "case mem_tgt key (env t) of None \<Rightarrow> False | Some _ \<Rightarrow> True"
  obtains wd w where "finds (at_time now calm_kube) key t wd w ok" "wd_Spec wd = spec"
    "undisturbed calm_kube (stock (mem_obj key) (mem_tgt key) t) (stock (mem_obj key) (mem_tgt key) t)"
proof -
  obtain wd w where t: "mem_obj key (env t) = Some wd" "mem_tgt key (env t) = Some w" using assms by (auto split: option.splits)
  note wd = assms(1) [unfolded t(1) option.case]
  from that [OF mem_finds [OF t conjunct2 [OF wd]] conjunct1 [OF wd]] t show ?thesis by (simp add: stock_def)
qed

end
