(* ===== verification/Stranding.thy ===== *)
theory Stranding
  imports Liveness
begin

text \<open>
  An object that is not suspended: reconciliations that find no unhealthy dependency leave its dependent
  alone, whatever fails on the way, whether the object is paused, deleted or in any mode.
  The replicas that a suspension took are then out of reach.
\<close>

section \<open>Reconciliations that leave the dependent alone\<close>

definition idle ::
  "('e \<Rightarrow> WorkloadDependency option) \<Rightarrow> ('e \<Rightarrow> workloadAccessor option) \<Rightarrow> workloadAccessor option \<Rightarrow> 'e world \<Rightarrow> bool" where
  "idle obj tgt T t \<longleftrightarrow> tgt (env t) = T \<and> (\<forall>st. obj (env t) = Some st \<longrightarrow> wd_Phase st \<noteq> PhaseSuspended)"

lemma still_idle: "obj (env t) = Some c \<Longrightarrow> wd_Phase c \<noteq> PhaseSuspended \<Longrightarrow> tgt (env t) = T \<Longrightarrow> idle obj tgt T t"
  by (simp add: idle_def)

lemma setStatus_idle:
  assumes "api_store k key obj tgt" and "obj (env s) = Some c" and "wd_Phase c \<noteq> PhaseSuspended" and "tgt (env s) = T"
    and "wd_Meta wd = wd_Meta c" and "wd_Spec wd = wd_Spec c" and "phase \<noteq> PhaseSuspended"
  shows "wp (setStatus k wd phase msg res) (\<lambda>_. idle obj tgt T) s"
  by (rule wp_mono [OF setStatus_settles [OF assms(1,2,5,6)]])
     (use assms(3,4,7) in \<open>auto simp: settled_def idle_def records_def\<close>)

lemma updated_idle:
  assumes "api_store k key obj tgt" and "obj (env s) = Some c" and "wd_Phase c \<noteq> PhaseSuspended" and "tgt (env s) = T"
  shows "wp (r_Update k (c\<lparr>wd_Meta := m\<rparr>) \<bind> (\<lambda>r. case r of Inl err \<Rightarrow> return (f err) | Inr _ \<Rightarrow> return g)) (\<lambda>_. idle obj tgt T) s"
proof -
  obtain r e where u: "k_UpdateWD k (c\<lparr>wd_Meta := m\<rparr>) (env s) = (r, e)" by force
  note st = store_Update [OF assms(1) u assms(2)]
  have "wd_Status c' = wd_Status c" if "obj e = Some c'" for c' using st(2) [OF _ _ that] by simp
  moreover have "tgt e = T" using st(1) assms(4) by simp
  ultimately have "wp (r_Update k (c\<lparr>wd_Meta := m\<rparr>)) (\<lambda>_. idle obj tgt T) s"
    using u assms(3) by (auto simp: r_Update_def wp_simps idle_def)
  then show ?thesis unfolding wp_bind by (rule wp_mono) (simp add: wp_return split: sum.split)
qed

lemma ensureFinalizer_idle:
  assumes "api_store k key obj tgt" and "obj (env s) = Some c" and "wd_Phase c \<noteq> PhaseSuspended" and "tgt (env s) = T"
  shows "wp (ensureFinalizer k c) (\<lambda>_. idle obj tgt T) s"
  unfolding ensureFinalizer_def wp_bind [of "DetectCycle _ _"]
  by (rule wp_keeps_any [OF keeps_full_DetectCycle [OF assms(1)]])
     (use assms(2-4) in \<open>auto simp: Let_def full_def wp_bind [of "emit _"] wp_emit split: sum.split option.split
        intro!: updated_idle [OF assms(1)] setStatus_idle [OF assms(1), where c = c]\<close>)

lemma act_idle:
  assumes "api_store k key obj tgt" and "obj (env s) = Some c" and "wd_Phase c \<noteq> PhaseSuspended" and "tgt (env s) = T"
  shows "wp (act k c w True msg now) (\<lambda>_. idle obj tgt T) s"
  using assms(3) setStatus_idle [OF assms]
  by (auto simp: act_def handleHealthy_def)

lemma reconcileWorkloads_idle:
  fixes s :: "'e world"
  assumes "api_store k key obj tgt" and "obj (env s) = Some c" and "wd_Phase c \<noteq> PhaseSuspended" and "tgt (env s) = T"
    and "\<And>w v msg u. run_state (getWorkload k (ref_Kind (Dependent (wd_Spec c))) (ref_Name (Dependent (wd_Spec c))) (dependentNS c)) s = (Inr w, v) \<Longrightarrow>
      run_state (evalDependencies k c (DependsOn (wd_Spec c)) True []) v \<noteq> (Inr (False, msg), u)"
  shows "wp (reconcileWorkloads k c) (\<lambda>_. idle obj tgt T) s"
proof -
  let ?get = "getWorkload k (ref_Kind (Dependent (wd_Spec c))) (ref_Name (Dependent (wd_Spec c))) (dependentNS c)"
  let ?eval = "evalDependencies k c (DependsOn (wd_Spec c)) True []"
  obtain r v where g: "run_state ?get s = (r, v)" by force
  obtain x u where e: "run_state ?eval v = (x, u)" by force
  have "full obj tgt v = full obj tgt s"
    using keeps_full_getWorkload [OF assms(1)] g unfolding keeps_def by (metis snd_conv)
  moreover have "full obj tgt u = full obj tgt v"
    using keeps_full_evalDependencies [OF assms(1)] e unfolding keeps_def by (metis snd_conv)
  ultimately have v: "obj (env v) = Some c" "tgt (env v) = T" and u: "obj (env u) = Some c" "tgt (env u) = T"
    using assms(2,4) by (simp_all add: full_def)
  show ?thesis
  proof (cases r)
    case (Inl err)
    with g v assms(3) show ?thesis
      by (auto simp: reconcileWorkloads_def Let_def wp_bind wp_run [of ?get] wp_return
          intro!: still_idle setStatus_idle [OF assms(1), where c = c])
  next
    case (Inr w)
    have now: "wp (metav1_Now k \<bind> (\<lambda>now. act k c w True msg now)) (\<lambda>_. idle obj tgt T) u" for msg
      unfolding wp_bind
      by (rule wp_keeps_any [OF keeps_full_reads(1) [OF assms(1)]], rule act_idle [OF assms(1) _ assms(3)])
         (use u in \<open>simp_all add: full_def\<close>)
    have "\<forall>ok msg. x = Inr (ok, msg) \<longrightarrow> ok" using assms(5) g e Inr by auto
    then have "wp (case x of Inl err \<Rightarrow> return (emptyResult, Some err)
        | Inr (allOk, unhealthyMsg) \<Rightarrow> metav1_Now k \<bind> (\<lambda>now. act k c w allOk unhealthyMsg now)) (\<lambda>_. idle obj tgt T) u"
      using now still_idle [of obj u c tgt T] u assms(3) by (cases x) (auto simp: wp_return split: prod.split)
    with g e Inr show ?thesis
      by (simp add: reconcileWorkloads_def Let_def wp_bind [of ?get] wp_bind [of ?eval] wp_run [of ?get] wp_run [of ?eval])
  qed
qed

lemma Reconcile_idle:
  assumes "api_store k key obj tgt" and "obj (env s) = Some c" and "wd_Phase c \<noteq> PhaseSuspended"
    and "\<nexists>wd w. finds k key s wd w False"
  shows "wp (Reconcile k key) (\<lambda>_. idle obj tgt (tgt (env s))) s"
proof -
  obtain g e where g: "k_GetWD k key (env s) = (g, e)" by force
  let ?t = "s\<lparr>env := e\<rparr>"
  have t: "obj (env ?t) = Some c" "tgt (env ?t) = tgt (env s)" using store_GetWD(1,2) [OF assms(1) g] assms(2) by simp_all
  note at = assms(1) t(1) assms(3) t(2)
  have wd: "g = Inr wd \<Longrightarrow> wd = c" for wd using store_GetWD(3) [OF assms(1) g] assms(2) by simp
  have "wp (handleDeletion k c) (\<lambda>_. idle obj tgt (tgt (env s))) ?t"
    using updated_idle [OF at] assms(3) by (simp add: handleDeletion_def restore_on_deletion_def)
  moreover have "wp (setStatus k c PhasePaused msg res) (\<lambda>_. idle obj tgt (tgt (env s))) ?t" for msg res
    by (rule setStatus_idle [OF at]) simp_all
  moreover have "wp (reconcileWorkloads k c) (\<lambda>_. idle obj tgt (tgt (env s))) ?t" if "g = Inr c"
    by (rule reconcileWorkloads_idle [OF at]) (use assms(4) g that in \<open>unfold finds_def, blast\<close>)
  ultimately have "g = Inr c \<Longrightarrow> wp (reconcileObject k c) (\<lambda>_. idle obj tgt (tgt (env s))) ?t"
    using ensureFinalizer_idle [OF at] by (simp add: reconcileObject_def)
  moreover have "idle obj tgt (tgt (env s)) ?t" by (rule still_idle) (use t assms(3) in simp_all)
  ultimately show ?thesis
    using g wd by (cases g) (auto simp: Reconcile_def wp_bind wp_outside wp_return)
qed

section \<open>Runs without an unhealthy report\<close>

fun left_alone ::
  "'e kube \<Rightarrow> WorkloadDependency option \<times> workloadAccessor option \<Rightarrow> WorkloadDependency option \<times> workloadAccessor option \<Rightarrow> bool" where
  "left_alone k (c, T) (c', T') \<longleftrightarrow> unscaled k (c, T) (c', T') \<and> status_untouched (c, T) (c', T')"

lemma runs_idle:
  assumes "runs k key obj tgt (\<lambda>t. \<nexists>wd w. finds k key t wd w False) (left_alone k) s t"
    and "api_store k key obj tgt" and "idle obj tgt (Some w) s" and "getReplicas k w = 0"
  shows "\<exists>w. idle obj tgt (Some w) t \<and> getReplicas k w = 0"
  using assms
proof (induction rule: runs.induct)
  case (reconciled t)
  then obtain w where w: "idle obj tgt (Some w) t" "getReplicas k w = 0" by blast
  show ?case
  proof (cases "obj (env t)")
    case None
    then show ?thesis using Reconcile_absent [OF reconciled.prems(1), of t] w by (auto simp: wp_run idle_def)
  next
    case (Some c)
    then have "wd_Phase c \<noteq> PhaseSuspended" using w(1) by (simp add: idle_def)
    from Reconcile_idle [OF reconciled.prems(1) Some this reconciled.hyps(2)] w show ?thesis by (auto simp: wp_run idle_def)
  qed
next
  case (elsewhere t u)
  then obtain w where "idle obj tgt (Some w) t" "getReplicas k w = 0" by blast
  with elsewhere.hyps(2) show ?case by (fastforce simp: stock_def idle_def)
qed blast

text \<open>A reconciliation of a paused object whose status update is accepted.\<close>

lemma Reconcile_paused:
  assumes "api_store k key obj tgt" and "obj (env s) = Some c" and "tgt (env s) = T"
    and "meta_DeletionTimestamp (wd_Meta c) = None" and "ContainsFinalizer k (meta_Finalizers (wd_Meta c)) FinalizerName"
    and "meta_Annotations (wd_Meta c) AnnotationPaused = Some ''true''"
    and "list_ex accepted_status (new_effects (Reconcile k key) s)"
  shows "idle obj tgt T (snd (run_state (Reconcile k key) s))"
proof -
  obtain g e where g: "k_GetWD k key (env s) = (g, e)" by force
  let ?t = "s\<lparr>env := e\<rparr>"
  have t: "obj (env ?t) = Some c" "tgt (env ?t) = T" using store_GetWD(1,2) [OF assms(1) g] assms(2,3) by simp_all
  have wd: "g = Inr wd \<Longrightarrow> wd = c" for wd using store_GetWD(3) [OF assms(1) g] assms(2) by simp
  have "reconcileObject k c = setStatus k c PhasePaused ''manually paused via klink.dev/paused annotation'' None"
    using assms(4-6) by (simp add: reconcileObject_def)
  with setStatus_settles [OF assms(1) t(1) refl refl, of PhasePaused]
  have "wp (reconcileObject k c) (\<lambda>_. settled obj tgt c c PhasePaused ?t) ?t" by simp
  then have "wp (reconcileObject k c) (\<lambda>_ v. idle obj tgt T v \<or> unstored s v) ?t"
    by (rule wp_mono) (use t(2) in \<open>auto simp: settled_def idle_def records_def unstored_def\<close>)
  then have "wp (Reconcile k key) (\<lambda>_ v. idle obj tgt T v \<or> unstored s v) s"
    using g wd by (auto simp: Reconcile_def wp_bind wp_outside wp_return unstored_refl split: sum.split)
  then show ?thesis using assms(7)
    by (auto simp: wp_run unstored_def list_all_iff list_ex_iff dest!: new_effects_appended)
qed

end
