(* ===== verification/Operation.thy ===== *)
theory Operation
  imports Memory_Store Stranding
begin

text \<open>
  What the system of reconciler and API server keeps and what it reaches, in terms of what the server
  stores.
\<close>

section \<open>What the server stores\<close>

text \<open>
  C7.  From a well-formed status the object stored by the server always has a
  well-formed one, with a suspension time exactly in phase \<open>Suspended\<close> and at most one condition of
  each type, after any number of reconciliations, whichever calls fail, and whatever anybody else does to
  the object (its status excepted) and to the workloads in between.
\<close>

theorem status_stays_well_formed:
  assumes "api_store k key obj tgt" and "runs k key obj tgt (\<lambda>_. True) status_untouched s t"
    and "obj (env s) = Some wd0" and "wf_status (wd_Status wd0)" and "obj (env t) = Some wd"
  shows "wf_status (wd_Status wd)"
  using runs_wf [OF assms(2,1) _ assms(5)] assms(3,4) by simp

text \<open>
  C5.  A deployment or stateful set that runs with \<open>n > 0\<close> replicas and that only klink scales never
  loses its count: after any number of reconciliations, with any health reports, any clock and any call
  failing, it has \<open>n\<close> replicas, or it has none and the stored object is suspended and remembers \<open>n\<close>.
  The one exception is a reconciliation of which the suspension is accepted and no status update is.
\<close>

theorem no_replicas_lost:
  assumes "api_store k key obj tgt" and "runs k key obj tgt (\<lambda>t. \<not> unrecorded k (new_effects (Reconcile k key) t)) (undisturbed k) s t"
    and "obj (env s) = Some wd0" and "tgt (env s) = Some w0" and "active k wd0" and "plain w0"
    and "wd_Phase wd0 \<noteq> PhaseSuspended" and "getReplicas k w0 = n" and "n \<noteq> 0"
  shows "\<exists>wd w. obj (env t) = Some wd \<and> tgt (env t) = Some w \<and>
    (getReplicas k w = n \<or> getReplicas k w = 0 \<and> wd_Phase wd = PhaseSuspended \<and> SavedReplicas (wd_Status wd) = Some n)"
proof -
  have "stored_kept k n obj tgt s" using assms(3-8) by (simp add: stored_kept_def kept_def)
  from runs_kept [OF assms(2,1) this assms(9)] show ?thesis
    by (auto simp: stored_kept_def kept_def split: if_splits)
qed

text \<open>
  C31.  A reconciliation that loses the count has had the suspension accepted and none of its status
  updates, and the loss is final: as long as nobody else scales the dependent, it stays without replicas
  through any number of further reconciliations, whatever the health of its dependencies, the clock, and anybody else's
  changes of the object.
\<close>

theorem unrecorded_suspension_is_final:
  assumes "api_store k key obj tgt" and "obj (env s) = Some wd0" and "tgt (env s) = Some w0" and "active k wd0" and "plain w0"
    and "wd_Phase wd0 \<noteq> PhaseSuspended" and "SavedReplicas (wd_Status wd0) = None" and "getReplicas k w0 = n" and "n \<noteq> 0"
    and "t = snd (run_state (Reconcile k key) s)" and "\<not> stored_kept k n obj tgt t"
    and "runs k key obj tgt (\<lambda>_. True) (unscaled k) t u"
  shows "unrecorded k (new_effects (Reconcile k key) s) \<and> (\<exists>w. tgt (env u) = Some w \<and> getReplicas k w = 0)"
proof -
  have "stored_kept k n obj tgt s" using assms(2-8) by (simp add: stored_kept_def kept_def)
  from Reconcile_safe [OF assms(1) this assms(9)] assms(10,11) have l: "lost k obj tgt s t"
    by (simp add: wp_run safe_def)
  have "unrecorded k (new_effects (Reconcile k key) s)"
    using l assms(10) by (auto simp: lost_def dest: new_effects_appended)
  moreover have "(\<exists>w. tgt (env u) = Some w \<and> plain w \<and> getReplicas k w = 0) \<and>
      (\<forall>wd. obj (env u) = Some wd \<longrightarrow> SavedReplicas (wd_Status wd) = None)"
    by (rule runs_frozen [OF assms(12,1)]) (use l assms(2,7) in \<open>auto simp: lost_def\<close>)
  ultimately show ?thesis by blast
qed

theorem status_stays_well_formed_witness:
  "case mem_obj (wd_key degraded_wd) (env (snd (run_state (Reconcile (moody_kube (\<lambda>_. None)) (wd_key degraded_wd)) (here degraded_wd)))) of
     None \<Rightarrow> False | Some wd \<Rightarrow> wd_Phase wd = PhaseSuspended \<and> wf_status (wd_Status wd)"
proof -
  let ?k = "moody_kube (\<lambda>_. None)" and ?key = "wd_key degraded_wd"
  let ?t = "snd (run_state (Reconcile ?k ?key) (here degraded_wd))"
  have p: "case mem_obj ?key (env ?t) of None \<Rightarrow> False | Some wd \<Rightarrow> wd_Phase wd = PhaseSuspended" by code_simp
  have r: "runs ?k ?key (mem_obj ?key) (mem_tgt ?key) (\<lambda>_. True) status_untouched (here degraded_wd) ?t"
    by (intro runs.reconciled runs.none) simp
  from p obtain wd where wd: "mem_obj ?key (env ?t) = Some wd" by (cases "mem_obj ?key (env ?t)") auto
  from status_stays_well_formed [OF moody_stores r mem_start(1) degraded_start(6) wd] p show ?thesis unfolding wd by simp
qed

theorem no_replicas_lost_witness:
  "\<exists>wd w. mem_obj (wd_key degraded_wd) (env (snd (run_state (Reconcile (moody_kube (\<lambda>_. None)) (wd_key degraded_wd)) (here degraded_wd)))) = Some wd \<and>
     mem_tgt (wd_key degraded_wd) (env (snd (run_state (Reconcile (moody_kube (\<lambda>_. None)) (wd_key degraded_wd)) (here degraded_wd)))) = Some w \<and>
     getReplicas (moody_kube (\<lambda>_. None)) w = 0 \<and> SavedReplicas (wd_Status wd) = Some 3"
proof -
  let ?k = "moody_kube (\<lambda>_. None)" and ?key = "wd_key degraded_wd"
  let ?t = "snd (run_state (Reconcile ?k ?key) (here degraded_wd))"
  have "\<not> list_all (\<lambda>x. \<not> accepted_status x) (new_effects (Reconcile ?k ?key) (here degraded_wd))" by code_simp
  then have r: "runs ?k ?key (mem_obj ?key) (mem_tgt ?key) (\<lambda>t. \<not> unrecorded ?k (new_effects (Reconcile ?k ?key) t)) (undisturbed ?k) (here degraded_wd) ?t"
    by (intro runs.reconciled runs.none) (simp add: unrecorded_def)
  have z: "case mem_tgt ?key (env ?t) of None \<Rightarrow> False | Some w \<Rightarrow> getReplicas ?k w = 0" by code_simp
  from no_replicas_lost [OF moody_stores r mem_start degraded_start(1-3,5)] z show ?thesis by auto
qed

theorem unrecorded_suspension_is_final_witness:
  "\<exists>k t w. unrecorded k (new_effects (Reconcile k (wd_key degraded_wd)) (here degraded_wd)) \<and>
     t = snd (run_state (Reconcile k (wd_key degraded_wd)) (here degraded_wd)) \<and>
     mem_tgt (wd_key degraded_wd)
       (env (snd (run_state (Reconcile k (wd_key degraded_wd)) (t\<lparr>env := (env t)\<lparr>cl_now := 200000000000\<rparr>\<rparr>)))) = Some w \<and>
     getReplicas k w = 0"
proof -
  let ?k = "moody_kube (\<lambda>c. if cl_now c = 100000000000 then Some (OtherError ''timeout'') else None)" and ?key = "wd_key degraded_wd"
  let ?t = "snd (run_state (Reconcile ?k ?key) (here degraded_wd))"
  let ?u = "snd (run_state (Reconcile ?k ?key) (?t\<lparr>env := (env ?t)\<lparr>cl_now := 200000000000\<rparr>\<rparr>))"
  have "case mem_obj ?key (env ?t) of None \<Rightarrow> False | Some wd \<Rightarrow> wd_Phase wd = PhaseDegraded" by code_simp
  moreover have "case mem_tgt ?key (env ?t) of None \<Rightarrow> False | Some w \<Rightarrow> getReplicas ?k w = 0" by code_simp
  ultimately have lost: "\<not> stored_kept ?k 3 (mem_obj ?key) (mem_tgt ?key) ?t" by (auto simp: stored_kept_def kept_def)
  have "unscaled ?k x x" for x by (cases x) simp
  then have r: "runs ?k ?key (mem_obj ?key) (mem_tgt ?key) (\<lambda>_. True) (unscaled ?k) ?t ?u"
    by (intro runs.reconciled runs.elsewhere [OF runs.none]) (simp_all add: stock_def)
  from unrecorded_suspension_is_final [OF moody_stores mem_start degraded_start(1-5) _ refl lost r] show ?thesis by auto
qed

section \<open>Progress\<close>

text \<open>
  C10.  Two reconciliations that find the dependencies healthy, the second at least a recovery window
  after the first, bring the workload back: the server stores phase \<open>Healthy\<close> and the replicas the
  workload had, whatever phase the object was in before.
\<close>

theorem recovers_after_window:
  assumes "api_store k key obj tgt" and "responsive k obj tgt" and "kept k n wd w" and "n \<noteq> 0"
    and "finds (at_time t1 k) key s wd w True" and "pred_option (\<lambda>h. h \<le> t1) (HealthySince (wd_Status wd))"
    and "undisturbed k (stock obj tgt (snd (run_state (Reconcile (at_time t1 k) key) s))) (stock obj tgt t)"
    and "finds (at_time t2 k) key t wd' w' True" and "wd_Spec wd' = wd_Spec wd" and "recoveryWindow wd \<le>s sub_time t2 t1"
  shows "\<exists>st v. obj (env (snd (run_state (Reconcile (at_time t2 k) key) t))) = Some st \<and>
    tgt (env (snd (run_state (Reconcile (at_time t2 k) key) t))) = Some v \<and>
    wd_Phase st = PhaseHealthy \<and> getReplicas k v = n"
proof -
  have wd': "obj (env t) = Some wd'" "tgt (env t) = Some w'"
    using finds_stored [OF api_store_at_time [OF assms(1)] assms(8)] .
  from leads_stored [OF healthy_report [OF assms(1-5)] assms(7) wd'] obtain st v where
    k: "kept k n wd' w'" "wd_Status wd' = wd_Status st" and p: "recovering t1 wd st v" by blast
  have "\<not> sub_time t2 h <s recoveryWindow wd'" if "wd_Phase wd' = PhaseSuspended" "HealthySince (wd_Status wd') = Some h" for h
  proof -
    have "h \<le> t1" using that k(2) p assms(6) by (auto simp: recovering_def split: option.splits)
    from sub_time_mono [OF this assms(10)] show ?thesis using assms(9) by (simp add: recoveryWindow_def signed.not_less)
  qed
  moreover have "wd_Phase wd' = PhaseSuspended \<Longrightarrow> HealthySince (wd_Status wd') \<noteq> None"
    using k(2) p by (auto simp: recovering_def)
  ultimately show ?thesis
    using healthy_report [OF assms(1,2) k(1) assms(4,8)] by (auto simp: leads_def kept_def recovering_def split: option.splits)
qed

text \<open>
  C11.  Two reconciliations that find a dependency unhealthy, the second at least a degraded window
  after the first, suspend a running workload, when the suspension has no maximal duration: the server stores
  phase \<open>Suspended\<close>, no replicas, and the count the workload had.
\<close>

theorem suspends_after_window:
  assumes "api_store k key obj tgt" and "responsive k obj tgt" and "kept k n wd w" and "n \<noteq> 0"
    and "wd_Phase wd \<notin> {PhaseSuspended, PhaseReleased}" and "\<not> 0 <s MaxSuspendDuration (OnDegraded (wd_Spec wd))"
    and "finds (at_time t1 k) key s wd w False" and "pred_option (\<lambda>d. d \<le> t1) (DegradedSince (wd_Status wd))"
    and "undisturbed k (stock obj tgt (snd (run_state (Reconcile (at_time t1 k) key) s))) (stock obj tgt t)"
    and "finds (at_time t2 k) key t wd' w' False" and "wd_Spec wd' = wd_Spec wd" and "degradedWindow wd \<le>s sub_time t2 t1"
  shows "\<exists>st v. obj (env (snd (run_state (Reconcile (at_time t2 k) key) t))) = Some st \<and>
    tgt (env (snd (run_state (Reconcile (at_time t2 k) key) t))) = Some v \<and>
    wd_Phase st = PhaseSuspended \<and> getReplicas k v = 0 \<and> SavedReplicas (wd_Status st) = Some n"
proof -
  have wd': "obj (env t) = Some wd'" "tgt (env t) = Some w'"
    using finds_stored [OF api_store_at_time [OF assms(1)] assms(10)] .
  from leads_stored [OF unhealthy_report [OF assms(1-4,7,5)] assms(9) wd'] obtain st v where
    k: "kept k n wd' w'" "wd_Status wd' = wd_Status st" "getReplicas k w' = getReplicas k v" and p: "degrading k t1 wd st v" by blast
  have "leads k n obj tgt wd' (\<lambda>st v. wd_Phase st = PhaseSuspended \<and> getReplicas k v = 0)
      (snd (run_state (Reconcile (at_time t2 k) key) t))"
  proof (cases "wd_Phase wd' = PhaseSuspended")
    case True
    with k p have "getReplicas k w' = 0" by (auto simp: degrading_def)
    with True show ?thesis using suspended_report [OF assms(1,2) k(1) assms(10)] assms(6,11) by (auto simp: leads_def)
  next
    case False
    then obtain d where d: "DegradedSince (wd_Status wd') = Some d" "wd_Phase wd' \<notin> {PhaseSuspended, PhaseReleased}" and "d \<le> t1"
      using k(2) p assms(8) by (auto simp: degrading_def split: option.splits)
    from sub_time_mono [OF this(3) assms(12)] have "\<not> sub_time t2 d <s degradedWindow wd'"
      using assms(11) by (simp add: degradedWindow_def signed.not_less)
    with unhealthy_report [OF assms(1,2) k(1) assms(4,10) d(2)] show ?thesis by (simp add: degrading_def d(1) leads_def)
  qed
  then show ?thesis by (auto simp: leads_def kept_def)
qed

text \<open>The clusters of the witnesses: the dependency of \<open>a\<close> on \<open>b\<close> with \<open>b\<close> healthy, and with \<open>b\<close> unhealthy.\<close>

abbreviation recovered :: "cluster world" where
  "recovered \<equiv> start (pair_cluster suspended_wd 0 4)"

lemma recovered_stores:
  "mem_obj (wd_key suspended_wd) (env recovered) = Some suspended_wd"
  "mem_tgt (wd_key suspended_wd) (env recovered) = Some stopped"
  by (simp_all add: mem_obj_def mem_tgt_def read_target_def mem_kube_def sample_defs stopped_def found_def at_name_def dependentNS_def)

theorem recovers_after_window_witness:
  "\<exists>t st v. t = snd (run_state (Reconcile (at_time 20000000000 calm_kube) (wd_key suspended_wd)) recovered) \<and>
     mem_obj (wd_key suspended_wd) (env (snd (run_state (Reconcile (at_time 90000000000 calm_kube) (wd_key suspended_wd)) t))) = Some st \<and>
     mem_tgt (wd_key suspended_wd) (env (snd (run_state (Reconcile (at_time 90000000000 calm_kube) (wd_key suspended_wd)) t))) = Some v \<and>
     wd_Phase st = PhaseHealthy \<and> getReplicas calm_kube v = 3"
proof -
  let ?key = "wd_key suspended_wd" and ?k1 = "at_time 20000000000 calm_kube" and ?k2 = "at_time 90000000000 calm_kube"
  let ?t = "snd (run_state (Reconcile ?k1 ?key) recovered)"
  have kept: "kept calm_kube 3 suspended_wd stopped"
    by (simp add: kept_def active_def moody_kube_def sample_defs stopped_def deployment_getReplicas_def AnnotationPaused_def)
  have f1: "finds ?k1 ?key recovered suspended_wd stopped True"
    by (rule mem_finds [OF recovered_stores]) code_simp
  have t: "case mem_obj ?key (env ?t) of None \<Rightarrow> False | Some wd \<Rightarrow> wd_Spec wd = wd_Spec suspended_wd \<and>
      (case fst (run_state (evalDependencies ?k2 wd (DependsOn (wd_Spec wd)) True []) ?t) of Inl _ \<Rightarrow> False | Inr (r, _) \<Rightarrow> r = True)"
    by code_simp
  have w: "case mem_tgt ?key (env ?t) of None \<Rightarrow> False | Some _ \<Rightarrow> True" by code_simp
  obtain wd' w' where n: "finds ?k2 ?key ?t wd' w' True" "wd_Spec wd' = wd_Spec suspended_wd"
    "undisturbed calm_kube (stock (mem_obj ?key) (mem_tgt ?key) ?t) (stock (mem_obj ?key) (mem_tgt ?key) ?t)"
    by (rule mem_finds_next [OF t w])
  have win: "recoveryWindow suspended_wd \<le>s sub_time 90000000000 20000000000" by code_simp
  have h: "pred_option (\<lambda>h. h \<le> 20000000000) (HealthySince (wd_Status suspended_wd))" by (simp add: sample_defs)
  from recovers_after_window [OF moody_stores calm_responsive kept _ f1 h n(3,1,2) win] show ?thesis by auto
qed

text \<open>A dependency that has just failed.\<close>

definition failing_wd :: WorkloadDependency where
  "failing_wd = sample_wd ''w'' ''a'' [''b''] ModeSoft"

theorem suspends_after_window_witness:
  "\<exists>t st v. t = snd (run_state (Reconcile (at_time 5000000000 calm_kube) (wd_key failing_wd)) (here failing_wd)) \<and>
     mem_obj (wd_key failing_wd) (env (snd (run_state (Reconcile (at_time 40000000000 calm_kube) (wd_key failing_wd)) t))) = Some st \<and>
     mem_tgt (wd_key failing_wd) (env (snd (run_state (Reconcile (at_time 40000000000 calm_kube) (wd_key failing_wd)) t))) = Some v \<and>
     wd_Phase st = PhaseSuspended \<and> getReplicas calm_kube v = 0 \<and> SavedReplicas (wd_Status st) = Some 3"
proof -
  let ?key = "wd_key failing_wd" and ?k1 = "at_time 5000000000 calm_kube" and ?k2 = "at_time 40000000000 calm_kube"
  let ?t = "snd (run_state (Reconcile ?k1 ?key) (here failing_wd))"
  have s: "mem_obj ?key (env (here failing_wd)) = Some failing_wd" "mem_tgt ?key (env (here failing_wd)) = Some running3"
    by (simp_all add: mem_obj_def mem_tgt_def read_target_def mem_kube_def sample_defs failing_wd_def running3_def found_def
        at_name_def dependentNS_def)
  have wd: "kept calm_kube 3 failing_wd running3" "wd_Phase failing_wd \<notin> {PhaseSuspended, PhaseReleased}"
    "\<not> 0 <s MaxSuspendDuration (OnDegraded (wd_Spec failing_wd))" "pred_option (\<lambda>d. d \<le> 5000000000) (DegradedSince (wd_Status failing_wd))"
    by (simp_all add: kept_def active_def moody_kube_def sample_defs failing_wd_def running3_def deployment_getReplicas_def AnnotationPaused_def)
  have f1: "finds ?k1 ?key (here failing_wd) failing_wd running3 False" by (rule mem_finds [OF s]) code_simp
  have t: "case mem_obj ?key (env ?t) of None \<Rightarrow> False | Some wd \<Rightarrow> wd_Spec wd = wd_Spec failing_wd \<and>
      (case fst (run_state (evalDependencies ?k2 wd (DependsOn (wd_Spec wd)) True []) ?t) of Inl _ \<Rightarrow> False | Inr (r, _) \<Rightarrow> r = False)"
    by code_simp
  have w: "case mem_tgt ?key (env ?t) of None \<Rightarrow> False | Some _ \<Rightarrow> True" by code_simp
  obtain wd' w' where n: "finds ?k2 ?key ?t wd' w' False" "wd_Spec wd' = wd_Spec failing_wd"
    "undisturbed calm_kube (stock (mem_obj ?key) (mem_tgt ?key) ?t) (stock (mem_obj ?key) (mem_tgt ?key) ?t)"
    by (rule mem_finds_next [OF t w])
  have win: "degradedWindow failing_wd \<le>s sub_time 40000000000 5000000000" by code_simp
  from suspends_after_window [OF moody_stores calm_responsive wd(1) _ wd(2,3) f1 wd(4) n(3,1,2) win] show ?thesis by auto
qed

section \<open>Where the windows and the saved count end\<close>

text \<open>
  C33.  The recovery window is not restarted when a dependency fails again before it is over:
  a workload whose dependencies were seen healthy at \<open>h\<close> is restored by the first healthy
  report a window after \<open>h\<close>, however short the time since an unhealthy one.
\<close>

theorem flap_does_not_restart_recovery:
  assumes "api_store k key obj tgt" and "responsive k obj tgt" and "kept k n wd w" and "n \<noteq> 0"
    and "wd_Phase wd = PhaseSuspended" and "getReplicas k w = 0" and "HealthySince (wd_Status wd) = Some h"
    and "\<not> 0 <s MaxSuspendDuration (OnDegraded (wd_Spec wd))" and "finds (at_time t1 k) key s wd w False"
    and "undisturbed k (stock obj tgt (snd (run_state (Reconcile (at_time t1 k) key) s))) (stock obj tgt t)"
    and "finds (at_time t2 k) key t wd' w' True" and "wd_Spec wd' = wd_Spec wd" and "recoveryWindow wd \<le>s sub_time t2 h"
  shows "\<exists>st v. obj (env (snd (run_state (Reconcile (at_time t2 k) key) t))) = Some st \<and>
    tgt (env (snd (run_state (Reconcile (at_time t2 k) key) t))) = Some v \<and>
    wd_Phase st = PhaseHealthy \<and> getReplicas k v = n"
proof -
  have wd': "obj (env t) = Some wd'" "tgt (env t) = Some w'"
    using finds_stored [OF api_store_at_time [OF assms(1)] assms(11)] .
  from leads_stored [OF suspended_report [OF assms(1-3,9,5,6,8)] assms(10) wd']
  have k: "kept k n wd' w'" "HealthySince (wd_Status wd') = Some h" by (auto simp: assms(7))
  have "\<not> sub_time t2 h <s recoveryWindow wd'"
    using assms(12,13) by (simp add: recoveryWindow_def signed.not_less)
  with k(2) healthy_report [OF assms(1,2) k(1) assms(4,11)] show ?thesis
    by (auto simp: leads_def kept_def recovering_def)
qed

text \<open>
  C32.  Pausing an object whose dependent is scaled to zero strands the dependent: once the phase \<open>Paused\<close> is
  stored no number of reconciliations brings a replica back, with the annotation removed, as long as no dependency is found
  unhealthy and nobody else scales the dependent or writes the status.
\<close>

theorem pause_strands_workload:
  assumes "api_store k key obj tgt" and "obj (env s) = Some wd" and "tgt (env s) = Some w" and "getReplicas k w = 0"
    and "meta_DeletionTimestamp (wd_Meta wd) = None" and "ContainsFinalizer k (meta_Finalizers (wd_Meta wd)) FinalizerName"
    and "meta_Annotations (wd_Meta wd) AnnotationPaused = Some ''true''"
    and "list_ex accepted_status (new_effects (Reconcile k key) s)" and "t = snd (run_state (Reconcile k key) s)"
    and "runs k key obj tgt (\<lambda>t. \<nexists>wd w. finds k key t wd w False) (left_alone k) t u"
  shows "\<exists>w. tgt (env u) = Some w \<and> getReplicas k w = 0 \<and> (\<forall>wd. obj (env u) = Some wd \<longrightarrow> wd_Phase wd \<noteq> PhaseSuspended)"
proof -
  have "idle obj tgt (Some w) t" unfolding assms(9) by (rule Reconcile_paused [OF assms(1-3,5-8)])
  from runs_idle [OF assms(10,1) this assms(4)] show ?thesis by (auto simp: idle_def)
qed

text \<open>The clusters of the witnesses: \<open>b\<close> fails once more during the recovery window, and an object paused while suspended.\<close>

definition recovering_wd :: WorkloadDependency where
  "recovering_wd = upd_status (\<lambda>s. s\<lparr>HealthySince := Some 10000000000\<rparr>) suspended_wd"

definition paused_wd :: WorkloadDependency where
  "paused_wd = suspended_wd\<lparr>wd_Meta := (wd_Meta suspended_wd)\<lparr>meta_Annotations := [AnnotationPaused \<mapsto> ''true'']\<rparr>\<rparr>"

definition heal :: "cluster world \<Rightarrow> cluster world" where
  "heal s = s\<lparr>env := (env s)\<lparr>cl_workloads := cl_workloads (pair_cluster suspended_wd 0 4)\<rparr>\<rparr>"

definition unpause :: "cluster world \<Rightarrow> cluster world" where
  "unpause s = s\<lparr>env := (env s)\<lparr>cl_wds := map (\<lambda>wd. wd\<lparr>wd_Meta := (wd_Meta wd)\<lparr>meta_Annotations := Map.empty\<rparr>\<rparr>) (cl_wds (env s))\<rparr>\<rparr>"

theorem flap_does_not_restart_recovery_witness:
  "\<exists>t st v. t = heal (snd (run_state (Reconcile (at_time 70000000000 calm_kube) (wd_key recovering_wd)) (start (pair_cluster recovering_wd 0 1)))) \<and>
     mem_obj (wd_key recovering_wd) (env (snd (run_state (Reconcile (at_time 70000000001 calm_kube) (wd_key recovering_wd)) t))) = Some st \<and>
     mem_tgt (wd_key recovering_wd) (env (snd (run_state (Reconcile (at_time 70000000001 calm_kube) (wd_key recovering_wd)) t))) = Some v \<and>
     wd_Phase st = PhaseHealthy \<and> getReplicas calm_kube v = 3"
proof -
  let ?key = "wd_key recovering_wd" and ?k1 = "at_time 70000000000 calm_kube" and ?k2 = "at_time 70000000001 calm_kube"
  let ?s = "start (pair_cluster recovering_wd 0 1)"
  let ?u = "snd (run_state (Reconcile ?k1 ?key) ?s)"
  have s: "mem_obj ?key (env ?s) = Some recovering_wd" "mem_tgt ?key (env ?s) = Some stopped"
    by (simp_all add: mem_obj_def mem_tgt_def read_target_def mem_kube_def sample_defs recovering_wd_def stopped_def found_def
        at_name_def dependentNS_def)
  have wd: "kept calm_kube 3 recovering_wd stopped" "wd_Phase recovering_wd = PhaseSuspended" "getReplicas calm_kube stopped = 0"
    "HealthySince (wd_Status recovering_wd) = Some 10000000000" "\<not> 0 <s MaxSuspendDuration (OnDegraded (wd_Spec recovering_wd))"
    by (simp_all add: kept_def active_def moody_kube_def sample_defs recovering_wd_def stopped_def deployment_getReplicas_def AnnotationPaused_def)
  have f1: "finds ?k1 ?key ?s recovering_wd stopped False" by (rule mem_finds [OF s]) code_simp
  have t: "case mem_obj ?key (env (heal ?u)) of None \<Rightarrow> False | Some wd \<Rightarrow> wd_Spec wd = wd_Spec recovering_wd \<and>
      (case fst (run_state (evalDependencies ?k2 wd (DependsOn (wd_Spec wd)) True []) (heal ?u)) of Inl _ \<Rightarrow> False | Inr (r, _) \<Rightarrow> r = True)"
    by code_simp
  have w: "case mem_tgt ?key (env (heal ?u)) of None \<Rightarrow> False | Some w \<Rightarrow> plain w \<and> getReplicas calm_kube w = 0" by code_simp
  have v: "case mem_tgt ?key (env ?u) of None \<Rightarrow> False | Some w \<Rightarrow> plain w \<and> getReplicas calm_kube w = 0" by code_simp
  have o: "mem_obj ?key (env (heal ?u)) = mem_obj ?key (env ?u)" by (simp add: heal_def mem_obj_def)
  obtain wd' w' where n: "finds ?k2 ?key (heal ?u) wd' w' True" "wd_Spec wd' = wd_Spec recovering_wd"
    by (rule mem_finds_next [OF t]) (use w in \<open>auto split: option.splits\<close>)
  have "undisturbed calm_kube (stock (mem_obj ?key) (mem_tgt ?key) ?u) (stock (mem_obj ?key) (mem_tgt ?key) (heal ?u))"
    using o v w by (auto simp: stock_def split: option.splits)
  moreover have "recoveryWindow recovering_wd \<le>s sub_time 70000000001 10000000000" by code_simp
  ultimately show ?thesis
    using flap_does_not_restart_recovery [OF moody_stores calm_responsive wd(1) _ wd(2-5) f1 _ n] by auto
qed

theorem pause_strands_workload_witness:
  "\<exists>k t w. k = at_time 900000000000 calm_kube \<and> SavedReplicas (wd_Status paused_wd) = Some 3 \<and>
     t = unpause (snd (run_state (Reconcile k (wd_key paused_wd)) (start (pair_cluster paused_wd 0 4)))) \<and>
     \<not> (\<exists>wd w. finds k (wd_key paused_wd) t wd w False) \<and>
     mem_tgt (wd_key paused_wd) (env (snd (run_state (Reconcile k (wd_key paused_wd)) t))) = Some w \<and> getReplicas k w = 0"
proof -
  let ?key = "wd_key paused_wd" and ?k = "at_time 900000000000 calm_kube"
  let ?s = "start (pair_cluster paused_wd 0 4)"
  let ?t = "snd (run_state (Reconcile ?k ?key) ?s)"
  have s: "mem_obj ?key (env ?s) = Some paused_wd" "mem_tgt ?key (env ?s) = Some stopped"
    by (simp_all add: mem_obj_def mem_tgt_def read_target_def mem_kube_def sample_defs paused_wd_def stopped_def found_def
        at_name_def dependentNS_def)
  have wd: "getReplicas ?k stopped = 0" "meta_DeletionTimestamp (wd_Meta paused_wd) = None"
    "ContainsFinalizer ?k (meta_Finalizers (wd_Meta paused_wd)) FinalizerName"
    "meta_Annotations (wd_Meta paused_wd) AnnotationPaused = Some ''true''" "SavedReplicas (wd_Status paused_wd) = Some 3"
    by (simp_all add: moody_kube_def sample_defs paused_wd_def stopped_def deployment_getReplicas_def)
  have acc: "list_ex accepted_status (new_effects (Reconcile ?k ?key) ?s)" by code_simp
  have t: "case mem_obj ?key (env (unpause ?t)) of None \<Rightarrow> False | Some wd \<Rightarrow> wd_Spec wd = wd_Spec paused_wd \<and>
      (case fst (run_state (evalDependencies ?k wd (DependsOn (wd_Spec wd)) True []) (unpause ?t)) of Inl _ \<Rightarrow> False | Inr (r, _) \<Rightarrow> r = True)"
    by code_simp
  have w: "case mem_tgt ?key (env (unpause ?t)) of None \<Rightarrow> False | Some w \<Rightarrow> plain w \<and> getReplicas ?k w = 0" by code_simp
  have v: "case mem_tgt ?key (env ?t) of None \<Rightarrow> False | Some w \<Rightarrow> plain w \<and> getReplicas ?k w = 0" by code_simp
  have o: "case mem_obj ?key (env ?t) of None \<Rightarrow> False | Some a \<Rightarrow> (case mem_obj ?key (env (unpause ?t)) of None \<Rightarrow> False
      | Some b \<Rightarrow> wd_Status b = wd_Status a)" by code_simp
  obtain wd' w' where n: "finds ?k ?key (unpause ?t) wd' w' True"
    by (rule mem_finds_next [OF t]) (use w in \<open>auto split: option.splits\<close>)
  have healthy: "\<nexists>wd w. finds ?k ?key (unpause ?t) wd w False" using finds_unique [OF n] by blast
  have "left_alone ?k (stock (mem_obj ?key) (mem_tgt ?key) ?t) (stock (mem_obj ?key) (mem_tgt ?key) (unpause ?t))"
    using o v w by (auto simp: stock_def split: option.splits)
  then have "runs ?k ?key (mem_obj ?key) (mem_tgt ?key) (\<lambda>t. \<nexists>wd w. finds ?k ?key t wd w False) (left_alone ?k) ?t
      (snd (run_state (Reconcile ?k ?key) (unpause ?t)))"
    using healthy by (intro runs.reconciled runs.elsewhere [OF runs.none])
  from pause_strands_workload [OF api_store_at_time [OF moody_stores] s wd(1-4) acc refl this] wd(5) healthy show ?thesis by blast
qed

end
