(* ===== verification/TLS.thy ===== *)
theory TLS
  imports Memory_Cluster
begin

text \<open>
  \<^verbatim>\<open>internal/webhook/tls.go\<close>: the self-signed certificate of the webhook server, its renewal, its
  Secret, and the copy of it in the webhook configurations.  Key generation, the X.509 and PEM
  codecs and the API calls are the interface \<open>pki\<close>; what the theorems need of the codecs is
  stated as \<open>x509_laws\<close>, and what they need of time as \<open>runs_forward\<close>.
\<close>

section \<open>Certificates and the interface\<close>

datatype key_usage = KeyUsageKeyEncipherment | KeyUsageDigitalSignature | KeyUsageCertSign

datatype ext_key_usage = ExtKeyUsageServerAuth

record Certificate =
  cert_SerialNumber :: nat
  cert_Organization :: "string list"
  cert_CommonName :: string
  cert_DNSNames :: "string list"
  cert_NotBefore :: gotime
  cert_NotAfter :: gotime
  cert_KeyUsage :: "key_usage list"
  cert_ExtKeyUsage :: "ext_key_usage list"
  cert_BasicConstraintsValid :: bool
  cert_IsCA :: bool

record pem_block =
  pem_Type :: string
  pem_Bytes :: string

text \<open>
  \<open>'e\<close> is the environment, \<open>'p\<close> the private keys, \<open>'c\<close> the key pairs a TLS server can load.
  \<open>p_CreateCertificate\<close> takes the template, the parent and the key that signs and is certified.
\<close>

record ('e, 'p, 'c) pki =
  p_Now :: "'e \<Rightarrow> gotime \<times> 'e"
  p_GetSecret :: "NamespacedName \<Rightarrow> 'e \<Rightarrow> (api_error + Secret) \<times> 'e"
  p_CreateSecret :: "Secret \<Rightarrow> 'e \<Rightarrow> api_error option \<times> 'e"
  p_UpdateSecret :: "Secret \<Rightarrow> 'e \<Rightarrow> api_error option \<times> 'e"
  p_GetWebhookConfiguration :: "string \<Rightarrow> 'e \<Rightarrow> (api_error + WebhookConfiguration) \<times> 'e"
  p_PatchWebhookConfiguration :: "WebhookConfiguration \<Rightarrow> WebhookConfiguration \<Rightarrow> 'e \<Rightarrow> api_error option \<times> 'e"
  p_GenerateKey :: "nat \<Rightarrow> 'e \<Rightarrow> (string + 'p) \<times> 'e"
  p_RandInt :: "nat \<Rightarrow> 'e \<Rightarrow> (string + nat) \<times> 'e"
  p_CreateCertificate :: "Certificate \<Rightarrow> Certificate \<Rightarrow> 'p \<Rightarrow> 'e \<Rightarrow> (string + string) \<times> 'e"
  p_ParseCertificate :: "string \<Rightarrow> string + Certificate"
  p_MarshalPKCS1PrivateKey :: "'p \<Rightarrow> string"
  p_EncodePEM :: "pem_block \<Rightarrow> string + string"
  p_DecodePEM :: "string \<Rightarrow> pem_block option"
  p_X509KeyPair :: "string \<Rightarrow> string \<Rightarrow> string + 'c"

section \<open>The manager\<close>

definition certRenewBefore :: duration where
  "certRenewBefore = 30 * 24 * Hour"

definition certValidity :: duration where
  "certValidity = 365 * 24 * Hour"

definition tlsSecretName :: string where
  "tlsSecretName = ''klink-webhook-tls''"

definition webhookConfigName :: string where
  "webhookConfigName = ''klink-gate''"

definition wdValidatorName :: string where
  "wdValidatorName = ''klink-wd-validator''"

record TLSManager =
  tm_namespace :: string
  tm_svcName :: string

definition tls_key :: "TLSManager \<Rightarrow> NamespacedName" where
  "tls_key m = \<lparr>nn_Namespace = tm_namespace m, nn_Name = tlsSecretName\<rparr>"

text \<open>Reading a missing key of a Go map gives nil.\<close>

definition secret_data :: "Secret \<Rightarrow> string \<Rightarrow> string" where
  "secret_data sec key = (case map_of (sec_Data sec) key of None \<Rightarrow> [] | Some v \<Rightarrow> v)"

section \<open>Certificates\<close>

definition certNeedsRenewal :: "('e, 'p, 'c) pki \<Rightarrow> string \<Rightarrow> ('e, bool) go" where
  "certNeedsRenewal p certPEM =
     (case p_DecodePEM p certPEM of
        None \<Rightarrow> return True
      | Some block \<Rightarrow>
          (case p_ParseCertificate p (pem_Bytes block) of
             Inl err \<Rightarrow> return True
           | Inr cert \<Rightarrow> do {
               now \<leftarrow> outside (p_Now p);
               return (sub_time (cert_NotAfter cert) now <s certRenewBefore) }))"

definition dnsNames :: "TLSManager \<Rightarrow> string list" where
  "dnsNames m =
    [tm_svcName m,
     tm_svcName m @ ''.'' @ tm_namespace m,
     tm_svcName m @ ''.'' @ tm_namespace m @ ''.svc'',
     tm_svcName m @ ''.'' @ tm_namespace m @ ''.svc.cluster.local'']"

definition cert_template :: "TLSManager \<Rightarrow> nat \<Rightarrow> gotime \<Rightarrow> Certificate" where
  "cert_template m serial now =
    \<lparr>cert_SerialNumber = serial,
     cert_Organization = [''klink''],
     cert_CommonName = dnsNames m ! 2,
     cert_DNSNames = dnsNames m,
     cert_NotBefore = now - sint Minute,
     cert_NotAfter = now + sint certValidity,
     cert_KeyUsage = [KeyUsageKeyEncipherment, KeyUsageDigitalSignature, KeyUsageCertSign],
     cert_ExtKeyUsage = [ExtKeyUsageServerAuth],
     cert_BasicConstraintsValid = True,
     cert_IsCA = True\<rparr>"

definition encode_pair :: "('e, 'p, 'c) pki \<Rightarrow> string \<Rightarrow> 'p \<Rightarrow> string + string \<times> string" where
  "encode_pair p certDER key =
     (case p_EncodePEM p \<lparr>pem_Type = ''CERTIFICATE'', pem_Bytes = certDER\<rparr> of
        Inl err \<Rightarrow> Inl err
      | Inr certPEM \<Rightarrow>
          map_sum id (Pair certPEM)
            (p_EncodePEM p \<lparr>pem_Type = ''RSA PRIVATE KEY'', pem_Bytes = p_MarshalPKCS1PrivateKey p key\<rparr>))"

definition generateCert :: "('e, 'p, 'c) pki \<Rightarrow> TLSManager \<Rightarrow> ('e, string + string \<times> string) go" where
  "generateCert p m = do {
     r \<leftarrow> outside (p_GenerateKey p 2048);
     case r of
       Inl err \<Rightarrow> return (Inl err)
     | Inr key \<Rightarrow> do {
         now \<leftarrow> outside (p_Now p);
         r \<leftarrow> outside (p_RandInt p (2 ^ 128));
         case r of
           Inl err \<Rightarrow> return (Inl err)
         | Inr serial \<Rightarrow>
             let template = cert_template m serial now in do {
               r \<leftarrow> outside (p_CreateCertificate p template template key);
               case r of
                 Inl err \<Rightarrow> return (Inl err)
               | Inr certDER \<Rightarrow> return (encode_pair p certDER key) } } }"

section \<open>The webhook configurations\<close>

fun patch_bundles :: "('e, 'p, 'c) pki \<Rightarrow> string \<Rightarrow> string list \<Rightarrow> ('e, api_error option) go" where
  "patch_bundles p caPEM [] = return None"
| "patch_bundles p caPEM (name # names) = do {
     r \<leftarrow> outside (p_GetWebhookConfiguration p name);
     case r of
       Inl err \<Rightarrow> if err = NotFound then patch_bundles p caPEM names else return (Some err)
     | Inr whc \<Rightarrow>
         let patched = whc\<lparr>whc_CABundles := map (\<lambda>_. caPEM) (whc_CABundles whc)\<rparr> in do {
           r \<leftarrow> outside (p_PatchWebhookConfiguration p whc patched);
           emit (PatchWebhookConfiguration whc patched r);
           case r of
             Some err \<Rightarrow> return (Some err)
           | None \<Rightarrow> patch_bundles p caPEM names } }"

definition patchWebhookCABundle :: "('e, 'p, 'c) pki \<Rightarrow> string \<Rightarrow> ('e, api_error option) go" where
  "patchWebhookCABundle p caPEM = patch_bundles p caPEM [webhookConfigName, wdValidatorName]"

definition PatchCABundle :: "('e, 'p, 'c) pki \<Rightarrow> TLSManager \<Rightarrow> ('e, api_error option) go" where
  "PatchCABundle p m = do {
     r \<leftarrow> outside (p_GetSecret p (tls_key m));
     case r of
       Inl err \<Rightarrow> return (Some err)
     | Inr sec \<Rightarrow> patchWebhookCABundle p (secret_data sec ''tls.crt'') }"

section \<open>The Secret\<close>

datatype tls_error =
    GetTLSSecret api_error
  | GenerateCert string
  | CreateTLSSecret api_error
  | UpdateTLSSecret api_error

text \<open>
  Saving the new pair.  The error of the first read is gone by then (\<^verbatim>\<open>err\<close> was assigned by
  \<open>generateCert\<close>), so only the name of the object read tells whether there was one.
\<close>

definition save_pair ::
  "('e, 'p, 'c) pki \<Rightarrow> TLSManager \<Rightarrow> Secret \<Rightarrow> string \<Rightarrow> string \<Rightarrow> ('e, tls_error option) go" where
  "save_pair p m secret certPEM keyPEM =
     (let newSecret = \<lparr>sec_Name = tlsSecretName, sec_Namespace = tm_namespace m,
            sec_Type = ''kubernetes.io/tls'', sec_Data = [(''tls.crt'', certPEM), (''tls.key'', keyPEM)]\<rparr> in
      if sec_Name secret = [] then do {
        r \<leftarrow> outside (p_CreateSecret p newSecret);
        emit (CreateSecret newSecret r);
        return (map_option CreateTLSSecret r) }
      else let secret = secret\<lparr>sec_Data := sec_Data newSecret\<rparr> in do {
        r \<leftarrow> outside (p_UpdateSecret p secret);
        emit (UpdateSecret secret r);
        return (map_option UpdateTLSSecret r) })"

text \<open>The second half of \<open>EnsureCert\<close>, with the object read before (a zero value if there was none).\<close>

definition rotate_pair ::
  "('e, 'p, 'c) pki \<Rightarrow> TLSManager \<Rightarrow> Secret \<Rightarrow> ('e, tls_error + string \<times> string) go" where
  "rotate_pair p m secret = do {
     g \<leftarrow> generateCert p m;
     case g of
       Inl err \<Rightarrow> return (Inl (GenerateCert err))
     | Inr (certPEM, keyPEM) \<Rightarrow> do {
         err \<leftarrow> save_pair p m secret certPEM keyPEM;
         case err of
           Some err \<Rightarrow> return (Inl err)
         | None \<Rightarrow> do {
             patchErr \<leftarrow> patchWebhookCABundle p certPEM;
             return (Inr (certPEM, keyPEM)) } } }"

definition zero_secret :: Secret where
  "zero_secret = \<lparr>sec_Name = [], sec_Namespace = [], sec_Type = [], sec_Data = []\<rparr>"

definition EnsureCert ::
  "('e, 'p, 'c) pki \<Rightarrow> TLSManager \<Rightarrow> ('e, tls_error + string \<times> string) go" where
  "EnsureCert p m = do {
     r \<leftarrow> outside (p_GetSecret p (tls_key m));
     case r of
       Inr secret \<Rightarrow>
         let certPEM = secret_data secret ''tls.crt''; keyPEM = secret_data secret ''tls.key'' in do {
           due \<leftarrow> certNeedsRenewal p certPEM;
           if due then rotate_pair p m secret
           else do {
             patchErr \<leftarrow> patchWebhookCABundle p certPEM;
             return (Inr (certPEM, keyPEM)) } }
     | Inl err \<Rightarrow>
         if err = NotFound then rotate_pair p m zero_secret
         else return (Inl (GetTLSSecret err)) }"

text \<open>\<^verbatim>\<open>StartRotationLoop\<close>, for a context that is cancelled after the given number of ticks.\<close>

fun StartRotationLoop :: "('e, 'p, 'c) pki \<Rightarrow> TLSManager \<Rightarrow> nat \<Rightarrow> ('e, unit) go" where
  "StartRotationLoop p m 0 = return ()"
| "StartRotationLoop p m (Suc ticks) = do {
     r \<leftarrow> EnsureCert p m;
     case r of
       Inl err \<Rightarrow> StartRotationLoop p m ticks
     | Inr _ \<Rightarrow> do {
         patchErr \<leftarrow> PatchCABundle p m;
         StartRotationLoop p m ticks } }"

section \<open>Laws of the interface\<close>

text \<open>X.509 times have whole seconds.\<close>

definition whole_seconds :: "gotime \<Rightarrow> gotime" where
  "whole_seconds t = t - t mod 1000000000"

text \<open>What is encoded as PEM decodes to itself, and a created certificate parses, with its end of validity.\<close>

definition x509_laws :: "('e, 'p, 'c) pki \<Rightarrow> bool" where
  "x509_laws p \<longleftrightarrow>
     (\<forall>b out. p_EncodePEM p b = Inr out \<longrightarrow> p_DecodePEM p out = Some b) \<and>
     (\<forall>template key e der. fst (p_CreateCertificate p template template key e) = Inr der \<longrightarrow>
        (\<exists>c. p_ParseCertificate p der = Inr c \<and> cert_NotAfter c = whole_seconds (cert_NotAfter template)))"

text \<open>The clock shows a time between the beginning and the end of the call, and no call moves it back.\<close>

definition runs_forward :: "('e, 'p, 'c) pki \<Rightarrow> ('e \<Rightarrow> gotime) \<Rightarrow> bool" where
  "runs_forward p clock \<longleftrightarrow>
     (\<forall>e. clock e \<le> fst (p_Now p e) \<and> fst (p_Now p e) \<le> clock (snd (p_Now p e))) \<and>
     (\<forall>nn e. clock e \<le> clock (snd (p_GetSecret p nn e))) \<and>
     (\<forall>sec e. clock e \<le> clock (snd (p_CreateSecret p sec e)) \<and> clock e \<le> clock (snd (p_UpdateSecret p sec e))) \<and>
     (\<forall>n e. clock e \<le> clock (snd (p_GetWebhookConfiguration p n e))) \<and>
     (\<forall>b w e. clock e \<le> clock (snd (p_PatchWebhookConfiguration p b w e))) \<and>
     (\<forall>n e. clock e \<le> clock (snd (p_GenerateKey p n e)) \<and> clock e \<le> clock (snd (p_RandInt p n e))) \<and>
     (\<forall>t u key e. clock e \<le> clock (snd (p_CreateCertificate p t u key e)))"

text \<open>A computation that takes time, and one whose result is right at some moment while it runs.\<close>

definition advances :: "('e \<Rightarrow> gotime) \<Rightarrow> ('e, 'a) go \<Rightarrow> bool" where
  "advances clock m \<longleftrightarrow> (\<forall>s. clock (env s) \<le> clock (env (snd (run_state m s))))"

definition stamped :: "('e \<Rightarrow> gotime) \<Rightarrow> ('e, 'a) go \<Rightarrow> ('a \<Rightarrow> gotime \<Rightarrow> bool) \<Rightarrow> bool" where
  "stamped clock m Q \<longleftrightarrow> (\<forall>s. \<exists>t. clock (env s) \<le> t \<and> t \<le> clock (env (snd (run_state m s))) \<and>
     Q (fst (run_state m s)) t)"

named_theorems advances_intros \<open>computations that take time\<close>

lemma advances_return [advances_intros]: "advances clock (State_Monad.return a)"
  by (simp add: advances_def)

lemma advances_bind [advances_intros]:
  "advances clock m \<Longrightarrow> (\<And>a. advances clock (f a)) \<Longrightarrow> advances clock (State_Monad.bind m f)"
  by (simp add: advances_def split: prod.splits) (metis order_trans snd_conv)

lemma advances_emit [advances_intros]: "advances clock (emit x)"
  by (simp add: advances_def run_simps)

lemma advances_outside: "(\<And>e. clock e \<le> clock (snd (f e))) \<Longrightarrow> advances clock (outside f)"
  by (simp add: advances_def run_simps split: prod.splits) (metis snd_conv)

lemma advances_if [advances_intros]:
  "(b \<Longrightarrow> advances clock m) \<Longrightarrow> (\<not> b \<Longrightarrow> advances clock n) \<Longrightarrow> advances clock (if b then m else n)"
  by simp

lemma advances_case_sum [advances_intros]:
  "(\<And>x. r = Inl x \<Longrightarrow> advances clock (f x)) \<Longrightarrow> (\<And>y. r = Inr y \<Longrightarrow> advances clock (g y)) \<Longrightarrow>
    advances clock (case r of Inl x \<Rightarrow> f x | Inr y \<Rightarrow> g y)"
  by (cases r) simp_all

lemma advances_case_option [advances_intros]:
  "(r = None \<Longrightarrow> advances clock f) \<Longrightarrow> (\<And>y. r = Some y \<Longrightarrow> advances clock (g y)) \<Longrightarrow>
    advances clock (case r of None \<Rightarrow> f | Some y \<Rightarrow> g y)"
  by (cases r) simp_all

lemma advances_case_prod [advances_intros]:
  "(\<And>x y. r = (x, y) \<Longrightarrow> advances clock (f x y)) \<Longrightarrow> advances clock (case r of (x, y) \<Rightarrow> f x y)"
  by (cases r) simp

lemma stamped_return: "(\<And>t. Q a t) \<Longrightarrow> stamped clock (State_Monad.return a) Q"
  by (auto simp: stamped_def)

lemma stamped_mono: "stamped clock m R \<Longrightarrow> (\<And>a t. R a t \<Longrightarrow> Q a t) \<Longrightarrow> stamped clock m Q"
  by (fastforce simp: stamped_def)

lemma stamped_advances: "stamped clock m R \<Longrightarrow> advances clock m"
  unfolding stamped_def advances_def by (meson order_trans)

lemma stamped_yields: "advances clock m \<Longrightarrow> yields m R \<Longrightarrow> stamped clock m (\<lambda>a t. R a)"
  by (fastforce simp: stamped_def advances_def yields_def)

text \<open>The moment is in the second part, or in the first, whose verdict the second part keeps.\<close>

lemma stamped_bind:
  assumes "stamped clock m R"
    and "\<And>a t. R a t \<Longrightarrow> stamped clock (f a) Q \<or> advances clock (f a) \<and> yields (f a) (\<lambda>b. Q b t)"
  shows "stamped clock (State_Monad.bind m f) Q"
  unfolding stamped_def
proof
  fix s
  obtain a s' where m: "run_state m s = (a, s')" by force
  with assms(1) obtain t where t: "clock (env s) \<le> t" "t \<le> clock (env s')" "R a t"
    by (metis stamped_def fst_conv snd_conv)
  from assms(2) [OF t(3)]
  have "\<exists>t. clock (env s) \<le> t \<and> t \<le> clock (env (snd (run_state (f a) s'))) \<and> Q (fst (run_state (f a) s')) t"
  proof
    assume "stamped clock (f a) Q"
    with t show ?thesis unfolding stamped_def by (meson order_trans)
  next
    assume "advances clock (f a) \<and> yields (f a) (\<lambda>b. Q b t)"
    with t show ?thesis unfolding advances_def yields_def by (meson order_trans)
  qed
  with m show "\<exists>t. clock (env s) \<le> t \<and> t \<le> clock (env (snd (run_state (State_Monad.bind m f) s))) \<and>
      Q (fst (run_state (State_Monad.bind m f) s)) t"
    by simp
qed

lemma stamped_skip:
  "advances clock m \<Longrightarrow> (\<And>a. stamped clock (f a) Q) \<Longrightarrow> stamped clock (State_Monad.bind m f) Q"
  by (rule stamped_bind [OF stamped_yields [OF _ yields_any]]) auto

lemma stamped_now: "runs_forward p clock \<Longrightarrow> stamped clock (outside (p_Now p)) (\<lambda>now t. now = t)"
  by (simp add: stamped_def run_simps runs_forward_def split: prod.splits) (metis fst_conv snd_conv)

lemma pki_advances:
  assumes "runs_forward p clock"
  shows "advances clock (outside (p_Now p))" "advances clock (outside (p_GetSecret p nn))"
    "advances clock (outside (p_CreateSecret p sec))" "advances clock (outside (p_UpdateSecret p sec))"
    "advances clock (outside (p_GetWebhookConfiguration p name))"
    "advances clock (outside (p_PatchWebhookConfiguration p b w))"
    "advances clock (outside (p_GenerateKey p n))" "advances clock (outside (p_RandInt p n))"
    "advances clock (outside (p_CreateCertificate p t u key))"
  using assms by (auto simp: runs_forward_def intro!: advances_outside elim: order_trans)

lemma advances_patchWebhookCABundle:
  assumes "runs_forward p clock"
  shows "advances clock (patchWebhookCABundle p caPEM)"
proof -
  have "advances clock (patch_bundles p caPEM names)" for names
    by (induction names) (simp_all only: patch_bundles.simps Let_def,
      auto intro!: advances_intros pki_advances [OF assms])
  then show ?thesis unfolding patchWebhookCABundle_def .
qed

lemma advances_save_pair: "runs_forward p clock \<Longrightarrow> advances clock (save_pair p m sec c k)"
  unfolding save_pair_def Let_def by (auto intro!: advances_intros pki_advances)

section \<open>The certificate in use is not about to expire\<close>

definition lasts_until :: "('e, 'p, 'c) pki \<Rightarrow> string \<Rightarrow> gotime \<Rightarrow> bool" where
  "lasts_until p certPEM t \<longleftrightarrow>
     (\<exists>block c. p_DecodePEM p certPEM = Some block \<and> p_ParseCertificate p (pem_Bytes block) = Inr c \<and>
        t \<le> cert_NotAfter c)"

lemma sint_certRenewBefore: "sint certRenewBefore = 30 * 86400 * 1000000000"
  by (simp add: certRenewBefore_def duration_defs)

lemma sint_certValidity: "sint certValidity = 365 * 86400 * 1000000000"
  by (simp add: certValidity_def duration_defs)

lemma not_due:
  assumes "\<not> sub_time t now <s certRenewBefore"
  shows "now + sint certRenewBefore \<le> t"
  using assms by (auto simp: word_sless_alt sint_sub_time sint_certRenewBefore int64_bounds)

lemma stamped_certNeedsRenewal:
  assumes "runs_forward p clock"
  shows "stamped clock (certNeedsRenewal p certPEM)
    (\<lambda>due t. \<not> due \<longrightarrow> lasts_until p certPEM (t + sint certRenewBefore))"
proof (cases "p_DecodePEM p certPEM")
  case None
  then show ?thesis by (simp add: certNeedsRenewal_def stamped_return)
next
  case (Some block)
  show ?thesis
  proof (cases "p_ParseCertificate p (pem_Bytes block)")
    case (Inl err)
    with Some show ?thesis by (simp add: certNeedsRenewal_def stamped_return)
  next
    case (Inr cert)
    with Some show ?thesis
      by (auto simp: certNeedsRenewal_def lasts_until_def intro!: stamped_bind [OF stamped_now [OF assms]] disjI2
          advances_return yields_return not_due)
  qed
qed

lemma encode_pair_lasts:
  assumes "x509_laws p" and "encode_pair p der key = Inr (c, k)"
    and "p_ParseCertificate p der = Inr cert" and "t \<le> cert_NotAfter cert"
  shows "lasts_until p c t"
  using assms
  by (auto simp: encode_pair_def lasts_until_def x509_laws_def map_sum_def split: sum.splits)

definition fresh_pair :: "('e, 'p, 'c) pki \<Rightarrow> 'x + string \<times> string \<Rightarrow> gotime \<Rightarrow> bool" where
  "fresh_pair p r t \<longleftrightarrow> (\<forall>c k. r = Inr (c, k) \<longrightarrow> lasts_until p c (t + sint certRenewBefore))"

lemma fresh_template:
  assumes "x509_laws p" and "fst (p_CreateCertificate p (cert_template m serial now) (cert_template m serial now) key e) = Inr der"
  shows "fresh_pair p (encode_pair p der key) now"
proof -
  obtain cert where cert: "p_ParseCertificate p der = Inr cert"
      "cert_NotAfter cert = whole_seconds (now + sint certValidity)"
    using assms unfolding x509_laws_def by (force simp: cert_template_def)
  then have "now + sint certRenewBefore \<le> cert_NotAfter cert"
    by (simp add: whole_seconds_def sint_certRenewBefore sint_certValidity)
  with cert(1) assms(1) show ?thesis
    by (auto simp: fresh_pair_def intro: encode_pair_lasts)
qed

lemma fresh_pair_Inl [simp]: "fresh_pair p (Inl err) t"
  by (simp add: fresh_pair_def)

lemma stamped_generateCert:
  assumes "x509_laws p" and "runs_forward p clock"
  shows "stamped clock (generateCert p m) (fresh_pair p)"
proof -
  let ?sign = "\<lambda>key serial now. outside (p_CreateCertificate p (cert_template m serial now) (cert_template m serial now) key)"
  have fresh: "yields (do { r \<leftarrow> ?sign key serial now; case r of Inl err \<Rightarrow> return (Inl err)
      | Inr certDER \<Rightarrow> return (encode_pair p certDER key) }) (\<lambda>r. fresh_pair p r now)" for key serial now
    by (rule yields_read [where R = "\<lambda>r. \<forall>der. r = Inr der \<longrightarrow> fresh_pair p (encode_pair p der key) now"])
       (auto intro!: yields_return intro: fresh_template [OF assms(1)] split: sum.splits)
  show ?thesis
    unfolding generateCert_def Let_def
    by (auto intro!: stamped_skip stamped_bind [OF stamped_now [OF assms(2)]] disjI2 advances_intros
        pki_advances [OF assms(2)] yields_bind [OF yields_any] yields_return stamped_return fresh
        split: sum.splits)
qed

lemma stamped_rotate_pair:
  assumes "x509_laws p" and "runs_forward p clock"
  shows "stamped clock (rotate_pair p m sec) (fresh_pair p)"
  unfolding rotate_pair_def
  by (rule stamped_bind [OF stamped_generateCert [OF assms]])
     (auto simp: fresh_pair_def intro!: disjI2 advances_intros advances_save_pair advances_patchWebhookCABundle assms
        yields_return yields_bind [OF yields_any] split: sum.splits option.splits)

lemma stamped_EnsureCert:
  assumes "x509_laws p" and "runs_forward p clock"
  shows "stamped clock (EnsureCert p m) (fresh_pair p)"
proof -
  have keep: "stamped clock (do { due \<leftarrow> certNeedsRenewal p c;
      if due then rotate_pair p m sec
      else do { patchErr \<leftarrow> patchWebhookCABundle p c; return (Inr (c, key)) } }) (fresh_pair p)" for c key sec
    by (rule stamped_bind [OF stamped_certNeedsRenewal [OF assms(2)]])
       (auto simp: fresh_pair_def stamped_rotate_pair [OF assms] intro!: advances_intros
          advances_patchWebhookCABundle [OF assms(2)] yields_return yields_bind [OF yields_any])
  show ?thesis
    unfolding EnsureCert_def Let_def
    by (auto intro!: stamped_skip pki_advances [OF assms(2)] stamped_return stamped_rotate_pair [OF assms] keep
        split: sum.splits)
qed

text \<open>
  C3.  Whenever \<open>EnsureCert\<close> returns a certificate, that certificate parses and, at some moment
  while the call ran, had at least thirty more days to go, whether it was found in the Secret or
  generated.
\<close>

theorem EnsureCert_lasts:
  assumes "x509_laws p" and "runs_forward p clock"
    and "run_state (EnsureCert p m) s = (Inr (certPEM, keyPEM), s')"
  shows "\<exists>t. clock (env s) \<le> t \<and> t \<le> clock (env s') \<and> lasts_until p certPEM (t + sint certRenewBefore)"
  using stamped_EnsureCert [OF assms(1,2), of m] assms(3)
  unfolding stamped_def fresh_pair_def by (metis fst_conv snd_conv)

section \<open>What is returned, stored and trusted is the same certificate\<close>

fun bundles_carry :: "string \<Rightarrow> effect \<Rightarrow> bool" where
  "bundles_carry caPEM (PatchWebhookConfiguration base whc r) \<longleftrightarrow>
     whc = base\<lparr>whc_CABundles := replicate (length (whc_CABundles base)) caPEM\<rparr>"
| "bundles_carry caPEM _ = False"

lemma emits_patchWebhookCABundle: "emits (bundles_carry caPEM) (patchWebhookCABundle p caPEM)"
proof -
  have "emits (bundles_carry caPEM) (patch_bundles p caPEM names)" for names
    by (induction names) (simp_all only: patch_bundles.simps Let_def, auto simp: map_replicate_const intro!: emits_intros)
  then show ?thesis unfolding patchWebhookCABundle_def .
qed

lemma emits_generateCert: "emits P (generateCert p m)"
  unfolding generateCert_def Let_def by (intro emits_intros)

lemma emits_certNeedsRenewal: "emits P (certNeedsRenewal p c)"
  unfolding certNeedsRenewal_def by (intro emits_intros)

text \<open>The writes of a call: to the Secret first, if any, then to the webhook configurations.\<close>

definition stores :: "TLSManager \<Rightarrow> string \<Rightarrow> string \<Rightarrow> api_error option \<Rightarrow> effect \<Rightarrow> bool" where
  "stores m certPEM keyPEM err x \<longleftrightarrow>
     (\<exists>sec. sec_Data sec = [(''tls.crt'', certPEM), (''tls.key'', keyPEM)] \<and>
        (x = CreateSecret sec err \<and> sec_Name sec = tlsSecretName \<and> sec_Namespace sec = tm_namespace m \<or>
         x = UpdateSecret sec err))"

lemma run_save_pair:
  assumes "run_state (save_pair p m sec c k) s = (r, s')"
  shows "\<exists>x err. trace s' = trace s @ [x] \<and> stores m c k err x \<and> (err = None \<longleftrightarrow> r = None)"
  using assms by (auto simp: save_pair_def Let_def run_simps stores_def split: if_splits prod.splits)

lemma emits_trace:
  assumes "emits P m" and "run_state m s = (a, s')"
  shows "\<exists>xs. trace s' = trace s @ xs \<and> list_all P xs"
  using assms unfolding emits_def by (metis snd_conv)

definition rotated :: "TLSManager \<Rightarrow> effect list \<Rightarrow> tls_error + string \<times> string \<Rightarrow> bool" where
  "rotated m xs r \<longleftrightarrow>
     (case r of
        Inl err \<Rightarrow> xs = [] \<or> (\<exists>x c k e. xs = [x] \<and> stores m c k (Some e) x)
      | Inr (c, k) \<Rightarrow> \<exists>x bundles. xs = x # bundles \<and> stores m c k None x \<and> list_all (bundles_carry c) bundles)"

lemma run_rotate_pair:
  assumes "run_state (rotate_pair p m sec) s = (r, s')"
  shows "\<exists>xs. trace s' = trace s @ xs \<and> rotated m xs r"
proof -
  obtain g s1 where g: "run_state (generateCert p m) s = (g, s1)" by force
  then have t1: "trace s1 = trace s" by (rule silent_trace [OF emits_generateCert])
  show ?thesis
  proof (cases g)
    case (Inl err)
    with assms g t1 show ?thesis by (auto simp: rotate_pair_def rotated_def)
  next
    case (Inr ck)
    obtain c k where ck: "ck = (c, k)" by force
    obtain e s2 where sv: "run_state (save_pair p m sec c k) s1 = (e, s2)" by force
    from run_save_pair [OF sv] obtain x err where x: "trace s2 = trace s @ [x]" "stores m c k err x" "err = None \<longleftrightarrow> e = None"
      using t1 by auto
    show ?thesis
    proof (cases e)
      case (Some err')
      with assms g Inr ck sv x show ?thesis by (fastforce simp: rotate_pair_def rotated_def)
    next
      case None
      obtain b s3 where b: "run_state (patchWebhookCABundle p c) s2 = (b, s3)" by force
      from emits_trace [OF emits_patchWebhookCABundle b] obtain ys where
        "trace s3 = trace s2 @ ys" "list_all (bundles_carry c) ys" by blast
      with assms g Inr ck sv x None b show ?thesis by (fastforce simp: rotate_pair_def rotated_def)
    qed
  qed
qed


section \<open>Which configurations are patched\<close>

definition absent_or_patched :: "(string \<Rightarrow> api_error + WebhookConfiguration) \<Rightarrow> effect list \<Rightarrow> string \<Rightarrow> bool" where
  "absent_or_patched conf xs name \<longleftrightarrow>
     conf name = Inl NotFound \<or> (\<exists>whc w. conf name = Inr whc \<and> PatchWebhookConfiguration whc w None \<in> set xs)"

lemma patchedI: "conf name = Inr whc \<Longrightarrow> absent_or_patched conf (PatchWebhookConfiguration whc w None # xs) name"
  unfolding absent_or_patched_def by (metis list.set_intros(1))

lemma absent_or_patched_Cons: "absent_or_patched conf xs name \<Longrightarrow> absent_or_patched conf (x # xs) name"
  unfolding absent_or_patched_def by (metis list.set_intros(2))

lemma run_patch_bundles:
  assumes conf: "\<And>name e. fst (p_GetWebhookConfiguration p name e) = conf name"
    and "run_state (patch_bundles p ca names) s = (None, s')"
  shows "\<exists>xs. trace s' = trace s @ xs \<and> (\<forall>name \<in> set names. absent_or_patched conf xs name)"
  using assms(2)
proof (induction names arbitrary: s)
  case (Cons name names)
  obtain e where q: "p_GetWebhookConfiguration p name (env s) = (conf name, e)"
    using conf by (metis prod.collapse)
  show ?case
  proof (cases "conf name")
    case (Inl err)
    with Cons.prems q have "err = NotFound" and r: "run_state (patch_bundles p ca names) (s\<lparr>env := e\<rparr>) = (None, s')"
      by (auto simp: run_simps split: if_splits)
    with Cons.IH [OF r] Inl show ?thesis by (auto simp: absent_or_patched_def)
  next
    case (Inr whc)
    let ?w = "whc\<lparr>whc_CABundles := map (\<lambda>_. ca) (whc_CABundles whc)\<rparr>"
    obtain r e' where r: "p_PatchWebhookConfiguration p whc ?w e = (r, e')" by force
    with Cons.prems q Inr have rn: "r = None" and
      n: "run_state (patch_bundles p ca names) (s\<lparr>env := e', trace := trace s @ [PatchWebhookConfiguration whc ?w r]\<rparr>) = (None, s')"
      by (auto simp: run_simps Let_def split: option.splits)
    from Cons.IH [OF n] obtain xs where xs: "trace s' = trace s @ PatchWebhookConfiguration whc ?w r # xs"
      "\<forall>name \<in> set names. absent_or_patched conf xs name" by auto
    have "absent_or_patched conf (PatchWebhookConfiguration whc ?w r # xs) n'" if "n' \<in> set (name # names)" for n'
      using that xs(2) Inr rn by (auto intro: patchedI absent_or_patched_Cons)
    with xs(1) show ?thesis by blast
  qed
qed simp

text \<open>
  If the webhook configurations do not change meanwhile and \<open>patchWebhookCABundle\<close>
  reports success, then each of the two is either not installed or was patched without an error.
\<close>

theorem patchWebhookCABundle_complete:
  assumes "\<And>name e. fst (p_GetWebhookConfiguration p name e) = conf name"
    and "run_state (patchWebhookCABundle p caPEM) s = (None, s')"
  shows "list_all (absent_or_patched conf (new_effects (patchWebhookCABundle p caPEM) s)) [''klink-gate'', ''klink-wd-validator'']"
proof -
  have "run_state (patch_bundles p caPEM [webhookConfigName, wdValidatorName]) s = (None, s')"
    using assms(2) by (simp only: patchWebhookCABundle_def)
  from run_patch_bundles [OF assms(1) this]
  obtain xs where "trace s' = trace s @ xs" "\<forall>name \<in> set [webhookConfigName, wdValidatorName]. absent_or_patched conf xs name"
    by blast
  with assms(2) show ?thesis
    by (simp add: new_effects_def webhookConfigName_def wdValidatorName_def)
qed

section \<open>An instance in memory\<close>

text \<open>
  An environment with a Secret and webhook configurations, and codecs that satisfy the laws: a
  certificate is the decimal number of its last second, a PEM block its type, with the length in
  unary, followed by its bytes.
\<close>

record pki_env =
  pe_now :: gotime
  pe_secret :: "Secret option"
  pe_configs :: "WebhookConfiguration list"

fun read_digits :: "nat \<Rightarrow> string \<Rightarrow> nat" where
  "read_digits acc [] = acc"
| "read_digits acc (c # cs) = read_digits (acc * 10 + (of_char c - 48)) cs"

fun read_int :: "string \<Rightarrow> int" where
  "read_int (CHR ''-'' # cs) = - int (read_digits 0 cs)"
| "read_int cs = int (read_digits 0 cs)"

definition mem_EncodePEM :: "pem_block \<Rightarrow> string" where
  "mem_EncodePEM b = replicate (length (pem_Type b)) CHR ''x'' @ '':'' @ pem_Type b @ pem_Bytes b"

definition mem_DecodePEM :: "string \<Rightarrow> pem_block option" where
  "mem_DecodePEM out =
     (let n = length (takeWhile (\<lambda>c. c = CHR ''x'') out); rest = drop (Suc n) out in
      if length out \<le> n then None else Some \<lparr>pem_Type = take n rest, pem_Bytes = drop n rest\<rparr>)"

definition mem_cert :: "gotime \<Rightarrow> Certificate" where
  "mem_cert t = (cert_template \<lparr>tm_namespace = [], tm_svcName = []\<rparr> 0 0)\<lparr>cert_NotAfter := t\<rparr>"

definition mem_pki :: "(pki_env, string, string \<times> string) pki" where
  "mem_pki =
    \<lparr>p_Now = (\<lambda>e. (pe_now e, e)),
     p_GetSecret = (\<lambda>nn e. (case pe_secret e of None \<Rightarrow> Inl NotFound | Some sec \<Rightarrow> Inr sec, e)),
     p_CreateSecret = (\<lambda>sec e. (None, e\<lparr>pe_secret := Some sec\<rparr>)),
     p_UpdateSecret = (\<lambda>sec e. (None, e\<lparr>pe_secret := Some sec\<rparr>)),
     p_GetWebhookConfiguration = (\<lambda>name e.
       (case find (\<lambda>w. whc_Name w = name) (pe_configs e) of None \<Rightarrow> Inl NotFound | Some w \<Rightarrow> Inr w, e)),
     p_PatchWebhookConfiguration = (\<lambda>b w e.
       (None, e\<lparr>pe_configs := map (\<lambda>v. if whc_Name v = whc_Name w then w else v) (pe_configs e)\<rparr>)),
     p_GenerateKey = (\<lambda>n e. (Inr ''key'', e)),
     p_RandInt = (\<lambda>n e. (Inr 7, e)),
     p_CreateCertificate = (\<lambda>t u key e. (Inr (show_int (cert_NotAfter t div 1000000000)), e)),
     p_ParseCertificate = (\<lambda>der. Inr (mem_cert (read_int der * 1000000000))),
     p_MarshalPKCS1PrivateKey = id,
     p_EncodePEM = (\<lambda>b. Inr (mem_EncodePEM b)),
     p_DecodePEM = mem_DecodePEM,
     p_X509KeyPair = (\<lambda>cert key. if key = [] then Inl ''failed to find any PEM data in key input'' else Inr (cert, key))\<rparr>"

definition sample_tls :: TLSManager where
  "sample_tls = \<lparr>tm_namespace = ''klink-system'', tm_svcName = ''klink-webhook''\<rparr>"

definition sample_configs :: "WebhookConfiguration list" where
  "sample_configs = [\<lparr>whc_Name = ''klink-gate'', whc_CABundles = [[]]\<rparr>, \<lparr>whc_Name = ''klink-wd-validator'', whc_CABundles = [[]]\<rparr>]"

definition fresh_pki :: pki_env where
  "fresh_pki = \<lparr>pe_now = 1700000000123456789, pe_secret = None, pe_configs = sample_configs\<rparr>"

lemma mem_PEM_round_trip: "mem_DecodePEM (mem_EncodePEM b) = Some b"
  by (simp add: mem_DecodePEM_def mem_EncodePEM_def Let_def takeWhile_append)

lemma read_digits_append: "read_digits acc (xs @ [c]) = read_digits acc xs * 10 + (of_char c - 48)"
  by (induction xs arbitrary: acc) simp_all

lemma read_digits_show_nat: "read_digits 0 (show_nat n) = n"
proof (induction n rule: show_nat.induct)
  case (1 n)
  then show ?case by (subst show_nat.simps) (auto simp: read_digits_append digit_def)
qed

lemma digit_not_minus: "n < 10 \<Longrightarrow> digit n \<noteq> CHR ''-''"
proof
  assume "n < 10" and "digit n = CHR ''-''"
  then have "(of_char (digit n) :: nat) = 45" by simp
  with \<open>n < 10\<close> show False by (simp add: digit_def)
qed

lemma show_nat_not_minus: "CHR ''-'' \<notin> set (show_nat n)"
proof (induction n rule: show_nat.induct)
  case (1 n)
  then show ?case
    using digit_not_minus [of n] digit_not_minus [of "n mod 10"] by (subst show_nat.simps) auto
qed

lemma read_int_digits: "CHR ''-'' \<notin> set cs \<Longrightarrow> read_int cs = int (read_digits 0 cs)"
  by (cases cs rule: read_int.cases) auto

lemma read_int_show_int: "read_int (show_int i) = i"
  by (simp add: show_int_def read_int_digits [OF show_nat_not_minus] read_digits_show_nat)

lemma mem_x509_laws: "x509_laws mem_pki"
  by (auto simp: x509_laws_def mem_pki_def mem_PEM_round_trip read_int_show_int mem_cert_def whole_seconds_def
      minus_mod_eq_div_mult)

lemma mem_runs_forward: "runs_forward mem_pki pe_now"
  by (simp add: runs_forward_def mem_pki_def)

text \<open>The first start of the server, with both configurations installed.\<close>

definition first_start :: "(tls_error + string \<times> string) \<times> pki_env world" where
  "first_start = run_state (EnsureCert mem_pki sample_tls) (start fresh_pki)"

lemmas mem_defs = Let_def mem_pki_def start_def fresh_pki_def sample_configs_def webhookConfigName_def wdValidatorName_def

lemma first_start_pair:
  "\<exists>certPEM keyPEM s'. first_start = (Inr (certPEM, keyPEM), s') \<and> length (trace s') = 3 \<and> keyPEM \<noteq> []"
  by (simp add: mem_EncodePEM_def first_start_def EnsureCert_def rotate_pair_def generateCert_def encode_pair_def save_pair_def
      zero_secret_def patchWebhookCABundle_def mem_defs run_simps)

theorem EnsureCert_lasts_witness:
  "\<exists>certPEM keyPEM s' t. first_start = (Inr (certPEM, keyPEM), s') \<and> 1700000000123456789 \<le> t \<and>
     lasts_until mem_pki certPEM (t + sint certRenewBefore)"
proof -
  obtain c k s' where r: "first_start = (Inr (c, k), s')" using first_start_pair by blast
  from EnsureCert_lasts [OF mem_x509_laws mem_runs_forward r [unfolded first_start_def]] r
  show ?thesis by (auto simp: start_def fresh_pki_def)
qed


text \<open>Only the gate is installed.\<close>

definition gate_only_pki :: "(pki_env, string, string \<times> string) pki" where
  "gate_only_pki = mem_pki\<lparr>p_GetWebhookConfiguration := (\<lambda>name e.
     (if name = ''klink-gate'' then Inr \<lparr>whc_Name = ''klink-gate'', whc_CABundles = [[]]\<rparr> else Inl NotFound, e))\<rparr>"

theorem patchWebhookCABundle_complete_witness:
  "\<exists>w. PatchWebhookConfiguration \<lparr>whc_Name = ''klink-gate'', whc_CABundles = [[]]\<rparr> w None
     \<in> set (new_effects (patchWebhookCABundle gate_only_pki ''PEM'') (start fresh_pki))"
proof -
  let ?conf = "\<lambda>name. if name = ''klink-gate'' then Inr \<lparr>whc_Name = ''klink-gate'', whc_CABundles = [[]]\<rparr> else Inl NotFound"
  have "fst (run_state (patchWebhookCABundle gate_only_pki ''PEM'') (start fresh_pki)) = None"
    by (simp add: patchWebhookCABundle_def gate_only_pki_def mem_defs run_simps)
  then obtain s' where "run_state (patchWebhookCABundle gate_only_pki ''PEM'') (start fresh_pki) = (None, s')"
    by (metis prod.collapse)
  from patchWebhookCABundle_complete [of gate_only_pki ?conf, OF _ this]
  show ?thesis by (auto simp: gate_only_pki_def absent_or_patched_def)
qed

end
