(* ===== verification/Admission.thy ===== *)
theory Admission
  imports Memory_Cluster
begin

text \<open>
  What the two admission webhooks share: requests, responses, HTTP replies, and the contract of a
  handler.  The bytes of a body are represented by what decoding makes of them, and a recovered
  panic by the reply the deferred function writes.
\<close>

section \<open>Requests and replies\<close>

datatype Operation = Create | Update | Delete | Connect

text \<open>
  \<open>'o\<close> is what the handler decodes an embedded object to.
\<close>

record 'o AdmissionRequest =
  ar_UID :: string
  ar_Operation :: Operation
  ar_Kind :: string
  ar_Name :: string
  ar_Namespace :: string
  ar_Object :: 'o
  ar_OldObject :: 'o

record AdmissionResponse =
  resp_UID :: string
  Allowed :: bool
  resp_Code :: int
  resp_Message :: string
  resp_Reason :: string

text \<open>
  The body of an HTTP request: reading it fails, or it has a length and decodes to an admission
  review or not; a review may come without a request (a nil pointer).
\<close>

datatype 'o http_body =
    ReadError
  | Body nat "'o AdmissionRequest option option"

datatype http_reply = HttpError int string | HttpReview AdmissionResponse

section \<open>The contract of a handler\<close>

definition refuses :: "('e, http_reply) go \<Rightarrow> bool" where
  "refuses m \<longleftrightarrow> (\<exists>code msg. m = return (HttpError code msg) \<and> 400 \<le> code)"

lemma refuses_HttpError [intro!]: "400 \<le> code \<Longrightarrow> refuses (return (HttpError code msg))"
  by (auto simp: refuses_def)

text \<open>
  A handler validates a request and answers it under the request's own identifier; anything that
  is not a review with a request is an HTTP error, never an admission decision.
\<close>

locale admission_handler =
  fixes serve :: "'o http_body \<Rightarrow> ('e, http_reply) go"
    and validate :: "'o AdmissionRequest \<Rightarrow> ('e, AdmissionResponse) go"
  assumes serve_request: "0 < n \<Longrightarrow> serve (Body n (Some (Some req))) = do {
      resp \<leftarrow> validate req;
      return (HttpReview (resp\<lparr>resp_UID := ar_UID req\<rparr>)) }"
    and serve_junk: "refuses (serve ReadError)" "refuses (serve (Body n None))" "refuses (serve (Body n (Some None)))"
begin

lemma answers_under_uid:
  assumes "0 < n"
  shows "yields (serve (Body n (Some (Some req))))
    (\<lambda>reply. \<exists>resp. reply = HttpReview resp \<and> resp_UID resp = ar_UID req)"
  unfolding serve_request [OF assms]
  by (rule yields_bind [OF yields_any], rule yields_return) simp

lemma decision_needs_request:
  assumes "run_state (serve (Body n r)) s = (HttpReview resp, s')"
  shows "\<exists>req. r = Some (Some req)"
proof (rule ccontr)
  assume "\<nexists>req. r = Some (Some req)"
  then have "r = None \<or> r = Some None" by (metis not_Some_eq)
  with serve_junk(2,3) [of n] assms show False by (auto simp: refuses_def)
qed

lemma decision_is_validate:
  assumes "run_state (serve (Body n (Some (Some req)))) s = (HttpReview resp, s')" and "0 < n"
  shows "\<exists>resp'. run_state (validate req) s = (resp', s') \<and> resp = resp'\<lparr>resp_UID := ar_UID req\<rparr>"
  using assms(1) unfolding serve_request [OF assms(2)] by (auto split: prod.splits)

end

end
