(* ===== verification/Gate.thy ===== *)
theory Gate
  imports Admission
begin

text \<open>
  \<^verbatim>\<open>internal/webhook/gate.go\<close>: the webhook that refuses to scale up a workload in gate mode while a
  dependency is unhealthy.  The lemmas characterise the decision, show where it fails open, and show
  which requests it never sees.
\<close>

section \<open>Responses\<close>

definition allow :: AdmissionResponse where
  "allow = \<lparr>resp_UID = [], Allowed = True, resp_Code = 200, resp_Message = [], resp_Reason = []\<rparr>"

definition deny :: "string \<Rightarrow> AdmissionResponse" where
  "deny reason =
    \<lparr>resp_UID = [], Allowed = False, resp_Code = 403, resp_Message = reason, resp_Reason = ''Forbidden''\<rparr>"

section \<open>Replicas in a raw object\<close>

text \<open>
  A raw embedded object: absent, not JSON, or a JSON value.  \<^verbatim>\<open>json.Unmarshal\<close> into a
  \<^verbatim>\<open>map[string]interface{}\<close> accepts an object and \<^verbatim>\<open>null\<close>, and makes every number a double.
\<close>

datatype raw = RawNil | RawInvalid | RawJSON json

fun unmarshal_map :: "raw \<Rightarrow> (string \<times> json) list option" where
  "unmarshal_map (RawJSON (JObject fs)) = Some fs"
| "unmarshal_map (RawJSON JNull) = Some []"
| "unmarshal_map _ = None"

text \<open>A failed type assertion to a map gives a nil map, which reads as empty.\<close>

fun as_map :: "json option \<Rightarrow> (string \<times> json) list" where
  "as_map (Some (JObject fs)) = fs"
| "as_map _ = []"

text \<open>The pair is the result and whether there was an error.\<close>

definition extractReplicas :: "('a go_lib_scheme) \<Rightarrow> raw \<Rightarrow> string \<Rightarrow> int32 \<times> bool" where
  "extractReplicas lib r kind =
     (if r = RawNil then (0, False)
      else case unmarshal_map r of
        None \<Rightarrow> (0, True)
      | Some obj \<Rightarrow>
          let spec = as_map (map_of obj ''spec'') in
          if kind = ''CronJob'' then
            if map_of spec ''suspend'' = Some (JBool True) then (0, False) else (1, False)
          else case map_of spec ''replicas'' of
            Some (JFloat x) \<Rightarrow> (int32_of_float (float_to_int32 lib) x, False)
          | _ \<Rightarrow> (1, False))"

section \<open>Health of a dependency\<close>

definition checkReplicaHealth ::
  "('a go_lib_scheme) \<Rightarrow> int32 option \<Rightarrow> int32 \<Rightarrow> HealthCondition \<Rightarrow> string \<Rightarrow> bool \<times> string" where
  "checkReplicaHealth lib desired ready cond name =
     (case desired of
        None \<Rightarrow> (False, name @ '' has 0 desired replicas'')
      | Some d \<Rightarrow>
          if d = 0 then (False, name @ '' has 0 desired replicas'')
          else
            let minPercent = (if MinReadyPercent cond = 0 then 100 else MinReadyPercent cond);
                readyPercent = ready_percent (float_to_int32 lib) ready d
            in if readyPercent <s minPercent
               then (False, show_int (sint ready) @ ''/'' @ show_int (sint d) @ '' ready ('' @
                 show_int (sint readyPercent) @ ''% < '' @ show_int (sint minPercent) @ ''%)'')
               else (True, []))"

definition rollout_health :: "('a go_lib_scheme) \<Rightarrow> Unstructured \<Rightarrow> bool \<times> string" where
  "rollout_health lib obj =
     (case NestedString lib (u_Object obj) [''status'', ''phase''] of (phase, _, _) \<Rightarrow>
        if phase \<in> {''Healthy'', ''Progressing'', ''Paused''} then (True, [])
        else (False, ''phase='' @ phase))"

definition isDependencyHealthy ::
  "'e kube \<Rightarrow> string \<Rightarrow> string \<Rightarrow> string \<Rightarrow> HealthCondition \<Rightarrow> ('e, api_error + bool \<times> string) go" where
  "isDependencyHealthy k kind name ns cond =
     (let key = \<lparr>nn_Namespace = ns, nn_Name = name\<rparr> in
      if kind = ''Rollout'' then do {
        r \<leftarrow> outside (k_GetRollout k key);
        return (map_sum id (rollout_health k) r) }
      else if kind = ''StatefulSet'' then do {
        r \<leftarrow> outside (k_GetStatefulSet k key);
        return (map_sum id (\<lambda>sts. checkReplicaHealth k (s_Replicas sts) (s_ReadyReplicas sts) cond name) r) }
      else do {
        r \<leftarrow> outside (k_GetDeployment k key);
        return (map_sum id (\<lambda>dep. checkReplicaHealth k (d_Replicas dep) (d_ReadyReplicas dep) cond name) r) })"

section \<open>The decision\<close>

definition deny_reason :: "WorkloadDependency \<Rightarrow> DependsOnEntry \<Rightarrow> string \<Rightarrow> string" where
  "deny_reason wd dep msg =
     ''klink gate: scale blocked by WorkloadDependency/'' @ wd_Name wd @ '' '' @ em_dash @ '' dependency '' @
     dep_Kind dep @ ''/'' @ dep_Name dep @ '' is not healthy: '' @ msg"

text \<open>The inner loop over the dependencies of one object: the reason to deny, if any.\<close>

fun check_dependencies ::
  "'e kube \<Rightarrow> WorkloadDependency \<Rightarrow> DependsOnEntry list \<Rightarrow> ('e, string option) go" where
  "check_dependencies k wd [] = return None"
| "check_dependencies k wd (dep # deps) = do {
     r \<leftarrow> isDependencyHealthy k (dep_Kind dep) (dep_Name dep) (dependencyNS wd dep) (dep_Condition dep);
     case r of
       Inl err \<Rightarrow> check_dependencies k wd deps
     | Inr (healthy, msg) \<Rightarrow>
         if \<not> healthy then return (Some (deny_reason wd dep msg))
         else check_dependencies k wd deps }"

definition gate_applies :: "raw AdmissionRequest \<Rightarrow> WorkloadDependency \<Rightarrow> bool" where
  "gate_applies req wd \<longleftrightarrow>
     Mode (wd_Spec wd) = ModeGate \<and>
     ref_Kind (Dependent (wd_Spec wd)) = ar_Kind req \<and> ref_Name (Dependent (wd_Spec wd)) = ar_Name req \<and>
     dependentNS wd = ar_Namespace req"

fun check_gates ::
  "'e kube \<Rightarrow> raw AdmissionRequest \<Rightarrow> WorkloadDependency list \<Rightarrow> ('e, AdmissionResponse) go" where
  "check_gates k req [] = return allow"
| "check_gates k req (wd # wds) =
     (if \<not> gate_applies req wd then check_gates k req wds
      else do {
        r \<leftarrow> check_dependencies k wd (DependsOn (wd_Spec wd));
        case r of
          Some reason \<Rightarrow> return (deny reason)
        | None \<Rightarrow> check_gates k req wds })"

definition gate_validate :: "'e kube \<Rightarrow> raw AdmissionRequest \<Rightarrow> ('e, AdmissionResponse) go" where
  "gate_validate k req =
     (if ar_Operation req = Create then return allow
      else case extractReplicas k (ar_Object req) (ar_Kind req) of (newReplicas, failed) \<Rightarrow>
        if failed then return allow
        else let oldReplicas = fst (extractReplicas k (ar_OldObject req) (ar_Kind req)) in
          if newReplicas \<le>s oldReplicas then return allow
          else do {
            r \<leftarrow> outside (k_ListWD k (InNamespace (ar_Namespace req)));
            case r of
              Inl err \<Rightarrow> return allow
            | Inr items \<Rightarrow> check_gates k req items })"

text \<open>
  \<^verbatim>\<open>ServeHTTP\<close>.  A review without a request is dereferenced by \<open>validate\<close>; the panic is recovered
  and answered with status 500.
\<close>

fun gate_ServeHTTP :: "'e kube \<Rightarrow> raw http_body \<Rightarrow> ('e, http_reply) go" where
  "gate_ServeHTTP k ReadError = return (HttpError 400 ''failed to read body'')"
| "gate_ServeHTTP k (Body n None) = return (HttpError 400 ''failed to decode admission review'')"
| "gate_ServeHTTP k (Body n (Some None)) = return (HttpError 500 ''internal server error'')"
| "gate_ServeHTTP k (Body n (Some (Some req))) = do {
     resp \<leftarrow> gate_validate k req;
     return (HttpReview (resp\<lparr>resp_UID := ar_UID req\<rparr>)) }"

interpretation gate_hook: admission_handler "gate_ServeHTTP k" "gate_validate k" for k
  by unfold_locales auto

section \<open>Sample requests\<close>

text \<open>A request that scales the workload \<open>a\<close> from zero to three replicas.\<close>

definition replicas_json :: "int \<Rightarrow> raw" where
  "replicas_json n = RawJSON (JObject [(''spec'', JObject [(''replicas'', JFloat (float_of_int n))])])"

definition scale_request :: "string \<Rightarrow> raw AdmissionRequest" where
  "scale_request kind =
    \<lparr>ar_UID = ''u'', ar_Operation = Update, ar_Kind = kind, ar_Name = ''a'', ar_Namespace = ''ns'',
     ar_Object = replicas_json 3, ar_OldObject = replicas_json 0\<rparr>"

definition gate_wd :: WorkloadDependency where
  "gate_wd = sample_wd ''w'' ''a'' [''b''] ModeGate"

definition foreign_gate_wd :: WorkloadDependency where
  "foreign_gate_wd = gate_wd\<lparr>
     wd_Meta := (wd_Meta gate_wd)\<lparr>meta_Namespace := ''other''\<rparr>,
     wd_Spec := (wd_Spec gate_wd)\<lparr>Dependent := \<lparr>ref_Kind = ''Deployment'', ref_Name = ''a'', ref_Namespace = ''ns''\<rparr>\<rparr>\<rparr>"

lemma mem_quiet: "quiet mem_kube e"
  by (simp add: quiet_def mem_kube_def)

section \<open>When a request is denied\<close>

text \<open>The health of a dependency as a function of the environment, when reads disturb nothing.\<close>

definition gate_health :: "'e kube \<Rightarrow> 'e \<Rightarrow> WorkloadDependency \<Rightarrow> DependsOnEntry \<Rightarrow> api_error + bool \<times> string" where
  "gate_health k e wd dep =
     (let key = \<lparr>nn_Namespace = dependencyNS wd dep, nn_Name = dep_Name dep\<rparr>; cond = dep_Condition dep; name = dep_Name dep in
      if dep_Kind dep = ''Rollout'' then map_sum id (rollout_health k) (fst (k_GetRollout k key e))
      else if dep_Kind dep = ''StatefulSet''
      then map_sum id (\<lambda>sts. checkReplicaHealth k (s_Replicas sts) (s_ReadyReplicas sts) cond name)
             (fst (k_GetStatefulSet k key e))
      else map_sum id (\<lambda>d. checkReplicaHealth k (d_Replicas d) (d_ReadyReplicas d) cond name)
             (fst (k_GetDeployment k key e)))"

definition known_unhealthy :: "'e kube \<Rightarrow> 'e \<Rightarrow> WorkloadDependency \<Rightarrow> DependsOnEntry \<Rightarrow> bool" where
  "known_unhealthy k e wd dep \<longleftrightarrow> (\<exists>msg. gate_health k e wd dep = Inr (False, msg))"

definition scales_up :: "'e kube \<Rightarrow> raw AdmissionRequest \<Rightarrow> bool" where
  "scales_up k req \<longleftrightarrow>
     \<not> snd (extractReplicas k (ar_Object req) (ar_Kind req)) \<and>
     fst (extractReplicas k (ar_OldObject req) (ar_Kind req)) <s fst (extractReplicas k (ar_Object req) (ar_Kind req))"

lemma run_isDependencyHealthy:
  assumes "quiet k (env s)"
  shows "run_state (isDependencyHealthy k (dep_Kind dep) (dep_Name dep) (dependencyNS wd dep) (dep_Condition dep)) s =
    (gate_health k (env s) wd dep, s)"
  by (simp add: isDependencyHealthy_def gate_health_def Let_def run_quiet_reads [OF assms])

lemma run_check_dependencies:
  assumes "quiet k (env s)"
  shows "\<exists>r. run_state (check_dependencies k wd deps) s = (r, s) \<and>
    (r = None \<longleftrightarrow> (\<forall>dep \<in> set deps. \<not> known_unhealthy k (env s) wd dep))"
proof (induction deps)
  case (Cons dep deps)
  then show ?case
    by (auto simp: run_isDependencyHealthy [OF assms] known_unhealthy_def split: sum.splits prod.splits)
qed simp

lemma run_check_gates:
  assumes "quiet k (env s)"
  shows "\<exists>resp. run_state (check_gates k req wds) s = (resp, s) \<and>
    (Allowed resp \<longleftrightarrow> (\<forall>wd \<in> set wds. gate_applies req wd \<longrightarrow>
       (\<forall>dep \<in> set (DependsOn (wd_Spec wd)). \<not> known_unhealthy k (env s) wd dep)))"
proof (induction wds)
  case Nil
  show ?case by (simp add: allow_def)
next
  case (Cons wd wds)
  obtain r where r: "run_state (check_dependencies k wd (DependsOn (wd_Spec wd))) s = (r, s)"
    "r = None \<longleftrightarrow> (\<forall>dep \<in> set (DependsOn (wd_Spec wd)). \<not> known_unhealthy k (env s) wd dep)"
    using run_check_dependencies [OF assms] by blast
  show ?case
    using Cons.IH r by (cases r) (auto simp: deny_def)
qed

text \<open>
  C4.  With nobody else writing meanwhile, a request is denied exactly when it is not a
  creation, raises the replica count, and some object of the request's namespace gates this
  workload and names a dependency that could be read and is unhealthy.
\<close>

theorem gate_decision:
  assumes "quiet k (env s)" and "fst (k_ListWD k (InNamespace (ar_Namespace req)) (env s)) = Inr items"
  shows "\<exists>resp. run_state (gate_validate k req) s = (resp, s) \<and>
    (\<not> Allowed resp \<longleftrightarrow> ar_Operation req \<noteq> Create \<and> scales_up k req \<and>
       (\<exists>wd \<in> set items. gate_applies req wd \<and>
          (\<exists>dep \<in> set (DependsOn (wd_Spec wd)). known_unhealthy k (env s) wd dep)))"
proof -
  obtain resp where r: "run_state (check_gates k req items) s = (resp, s)"
    "Allowed resp \<longleftrightarrow> (\<forall>wd \<in> set items. gate_applies req wd \<longrightarrow>
       (\<forall>dep \<in> set (DependsOn (wd_Spec wd)). \<not> known_unhealthy k (env s) wd dep))"
    using run_check_gates [OF assms(1)] by blast
  have "Allowed allow" by (simp add: allow_def)
  with r assms(2) show ?thesis
    by (auto simp: gate_validate_def scales_up_def run_quiet_reads [OF assms(1)] Let_def signed.not_le
        split: prod.splits)
qed

theorem gate_decision_witness:
  "\<exists>resp s'. run_state (gate_validate mem_kube (scale_request ''Deployment'')) (start (pair_cluster gate_wd 0 1)) = (resp, s') \<and>
     \<not> Allowed resp"
proof -
  let ?s = "start (pair_cluster gate_wd 0 1)" and ?r = "scale_request ''Deployment''"
  have l: "fst (k_ListWD mem_kube (InNamespace (ar_Namespace ?r)) (env ?s)) = Inr [gate_wd]"
    by (simp add: scale_request_def gate_wd_def sample_defs)
  have "\<exists>resp. run_state (gate_validate mem_kube ?r) ?s = (resp, ?s) \<and>
    (\<not> Allowed resp \<longleftrightarrow> ar_Operation ?r \<noteq> Create \<and> scales_up mem_kube ?r \<and>
       (\<exists>wd \<in> set [gate_wd]. gate_applies ?r wd \<and>
          (\<exists>dep \<in> set (DependsOn (wd_Spec wd)). known_unhealthy mem_kube (env ?s) wd dep)))"
    by (rule gate_decision [OF mem_quiet l])
  moreover have "\<not> Allowed (fst (run_state (gate_validate mem_kube ?r) ?s))" by code_simp
  ultimately show ?thesis by (metis fst_conv)
qed

section \<open>Requests the gate lets through\<close>

lemma yields_check_gates_none:
  "(\<And>wd. wd \<in> set wds \<Longrightarrow> \<not> gate_applies req wd) \<Longrightarrow> check_gates k req wds = return allow"
  by (induction wds) simp_all

lemma yields_gate_validate:
  assumes "\<And>e items. fst (k_ListWD k (InNamespace (ar_Namespace req)) e) = Inr items \<Longrightarrow>
      yields (check_gates k req items) (\<lambda>r. r = allow)"
  shows "yields (gate_validate k req) (\<lambda>r. r = allow)"
  unfolding gate_validate_def Let_def
  by (auto intro!: yields_return yields_read [where R = "\<lambda>r. \<forall>items. r = Inr items \<longrightarrow>
      yields (check_gates k req items) (\<lambda>r. r = allow)"] assms split: prod.splits sum.splits)

text \<open>
  C25.  The gate fails open: when no workload can be read, or the objects cannot be
  listed, every request is allowed.
\<close>

theorem gate_fails_open:
  assumes "\<And>nn e. \<exists>err. fst (k_GetRollout k nn e) = Inl err"
    and "\<And>nn e. \<exists>err. fst (k_GetStatefulSet k nn e) = Inl err"
    and "\<And>nn e. \<exists>err. fst (k_GetDeployment k nn e) = Inl err"
  shows "yields (gate_validate k req) (\<lambda>r. r = allow)"
proof (rule yields_gate_validate)
  have dep: "yields (isDependencyHealthy k kind name ns cond) (\<lambda>r. \<exists>err. r = Inl err)" for kind name ns cond
    unfolding isDependencyHealthy_def Let_def
    by (auto intro!: yields_read [where R = "\<lambda>r. \<exists>err. r = Inl err"] yields_return assms)
  have deps: "yields (check_dependencies k wd deps) (\<lambda>r. r = None)" for wd deps
    by (induction deps) (auto intro!: yields_return yields_bind [OF dep])
  show "yields (check_gates k req items) (\<lambda>r. r = allow)" for items
    by (induction items) (auto intro!: yields_return yields_bind [OF deps])
qed

theorem gate_fails_open_witness:
  "fst (run_state (gate_validate (mem_kube\<lparr>k_GetRollout := (\<lambda>nn c. (Inl NotFound, c)),
       k_GetStatefulSet := (\<lambda>nn c. (Inl NotFound, c)), k_GetDeployment := (\<lambda>nn c. (Inl (OtherError ''timeout''), c))\<rparr>)
     (scale_request ''Deployment'')) (start (pair_cluster gate_wd 0 1))) = allow"
  using gate_fails_open [of "mem_kube\<lparr>k_GetRollout := (\<lambda>nn c. (Inl NotFound, c)),
       k_GetStatefulSet := (\<lambda>nn c. (Inl NotFound, c)), k_GetDeployment := (\<lambda>nn c. (Inl (OtherError ''timeout''), c))\<rparr>"
      "scale_request ''Deployment''"]
  by (simp add: yields_def)

text \<open>
  C34.  A request on the scale subresource carries an object of kind \<open>Scale\<close>; as no object
  has a dependent of that kind, the gate allows every such request, healthy dependencies or not.
\<close>

theorem gate_ignores_scale_subresource:
  assumes "ar_Kind req = ''Scale''"
    and "\<And>opt e items wd. fst (k_ListWD k opt e) = Inr items \<Longrightarrow> wd \<in> set items \<Longrightarrow>
      ref_Kind (Dependent (wd_Spec wd)) \<in> {''Deployment'', ''StatefulSet'', ''CronJob'', ''Rollout''}"
  shows "yields (gate_validate k req) (\<lambda>r. r = allow)"
proof (rule yields_gate_validate)
  fix e items
  assume l: "fst (k_ListWD k (InNamespace (ar_Namespace req)) e) = Inr items"
  have "\<not> gate_applies req wd" if "wd \<in> set items" for wd
    using assms(2) [OF l that] assms(1) by (auto simp: gate_applies_def)
  then show "yields (check_gates k req items) (\<lambda>r. r = allow)"
    by (simp add: yields_check_gates_none yields_return)
qed

theorem gate_ignores_scale_subresource_witness:
  "fst (run_state (gate_validate (listing_kube [gate_wd]) (scale_request ''Scale'')) (start (pair_cluster gate_wd 0 1))) = allow \<and>
   \<not> Allowed (fst (run_state (gate_validate (listing_kube [gate_wd]) (scale_request ''Deployment'')) (start (pair_cluster gate_wd 0 1))))"
proof (rule conjI)
  have "ref_Kind (Dependent (wd_Spec wd)) \<in> {''Deployment'', ''StatefulSet'', ''CronJob'', ''Rollout''}"
    if "fst (k_ListWD (listing_kube [gate_wd]) opt e) = Inr items" "wd \<in> set items" for opt e items wd
  proof -
    have "items = filter (list_matches opt) [gate_wd]" using that(1) by (simp add: listing_kube_def)
    with that(2) have "wd = gate_wd" by (simp only: set_filter list.set) blast
    then show ?thesis by (simp add: gate_wd_def sample_defs)
  qed
  note gate_ignores_scale_subresource [of "scale_request ''Scale''" "listing_kube [gate_wd]", OF _ this]
  then show "fst (run_state (gate_validate (listing_kube [gate_wd]) (scale_request ''Scale'')) (start (pair_cluster gate_wd 0 1))) = allow"
    by (simp add: yields_def scale_request_def)
qed code_simp

text \<open>
  Only the objects of the workload's own namespace gate it: an object of another
  namespace whose dependent is this workload, which the reconciler honours, is never
  consulted.
\<close>

theorem gate_ignores_other_namespaces:
  assumes "\<And>e items wd. fst (k_ListWD k (InNamespace (ar_Namespace req)) e) = Inr items \<Longrightarrow> wd \<in> set items \<Longrightarrow>
      wd_Namespace wd = ar_Namespace req \<and> wd \<in> set all"
    and "\<And>wd. wd \<in> set all \<Longrightarrow> gate_applies req wd \<Longrightarrow> wd_Namespace wd \<noteq> ar_Namespace req"
  shows "yields (gate_validate k req) (\<lambda>r. r = allow)"
proof (rule yields_gate_validate)
  fix e items
  assume l: "fst (k_ListWD k (InNamespace (ar_Namespace req)) e) = Inr items"
  have "\<not> gate_applies req wd" if "wd \<in> set items" for wd
    using assms(1) [OF l that] assms(2) by blast
  then show "yields (check_gates k req items) (\<lambda>r. r = allow)"
    by (simp add: yields_check_gates_none yields_return)
qed

theorem gate_ignores_other_namespaces_witness:
  "gate_applies (scale_request ''Deployment'') foreign_gate_wd \<and>
   fst (run_state (gate_validate (listing_kube [foreign_gate_wd]) (scale_request ''Deployment''))
     (start (pair_cluster foreign_gate_wd 0 1))) = allow"
proof (rule conjI)
  have 1: "wd_Namespace wd = ar_Namespace (scale_request ''Deployment'') \<and> wd \<in> set [foreign_gate_wd]"
    if "fst (k_ListWD (listing_kube [foreign_gate_wd]) (InNamespace (ar_Namespace (scale_request ''Deployment''))) e) = Inr items"
      "wd \<in> set items" for e items wd
  proof -
    have "items = []"
      using that(1) by (simp add: listing_kube_def foreign_gate_wd_def gate_wd_def scale_request_def sample_defs)
    with that(2) show ?thesis by simp
  qed
  have 2: "wd_Namespace wd \<noteq> ar_Namespace (scale_request ''Deployment'')" if "wd \<in> set [foreign_gate_wd]" for wd
  proof -
    have "wd = foreign_gate_wd" using that by (simp only: list.set) blast
    then show ?thesis by (simp add: foreign_gate_wd_def gate_wd_def scale_request_def sample_defs)
  qed
  note gate_ignores_other_namespaces [where k = "listing_kube [foreign_gate_wd]", OF 1 2]
  then show "fst (run_state (gate_validate (listing_kube [foreign_gate_wd]) (scale_request ''Deployment''))
     (start (pair_cluster foreign_gate_wd 0 1))) = allow"
    by (simp add: yields_def)
  show "gate_applies (scale_request ''Deployment'') foreign_gate_wd" by code_simp
qed

end
