(* ===== verification/WD_Validator.thy ===== *)
theory WD_Validator
  imports Admission
begin

text \<open>
  \<^verbatim>\<open>internal/webhook/wd_validator.go\<close>: the webhook that validates dependency objects.  The embedded
  object is represented by what decoding makes of it, an error text or an object.  The lemmas
  characterise the accepted objects.
\<close>

section \<open>The rules\<close>

text \<open>The two loops over \<^verbatim>\<open>spec.dependsOn\<close>, with the index of the first entry.\<close>

fun dep_identity_errors :: "nat \<Rightarrow> DependsOnEntry list \<Rightarrow> string list" where
  "dep_identity_errors i [] = []"
| "dep_identity_errors i (dep # deps) =
     (if dep_Kind dep = ''CronJob''
      then [''spec.dependsOn['' @ show_nat i @ '']: CronJob cannot be used as a dependency (no replicas to check); use it as a dependent instead'']
      else []) @
     (if dep_Name dep = '''' then [''spec.dependsOn['' @ show_nat i @ ''].name is required''] else []) @
     dep_identity_errors (Suc i) deps"

fun dep_window_errors :: "nat \<Rightarrow> DependsOnEntry list \<Rightarrow> string list" where
  "dep_window_errors i [] = []"
| "dep_window_errors i (dep # deps) =
     (if Window (dep_Condition dep) <s 0
      then [''spec.dependsOn['' @ show_nat i @ ''].condition.window must be positive''] else []) @
     (if RecoveryWindow (dep_Condition dep) <s 0
      then [''spec.dependsOn['' @ show_nat i @ ''].condition.recoveryWindow must be positive''] else []) @
     dep_window_errors (Suc i) deps"

definition notify_errors :: "NotifySpec option \<Rightarrow> string list" where
  "notify_errors notify =
     (case notify of
        None \<Rightarrow> []
      | Some n \<Rightarrow>
          (if Webhook n \<noteq> '''' \<and> WebhookSecretRef n \<noteq> None
           then [''spec.notify: set either webhook or webhookSecretRef, not both''] else []) @
          (if Webhook n = '''' \<and> WebhookSecretRef n = None
           then [''spec.notify: must set either webhook or webhookSecretRef''] else []))"

definition validateWD :: "WorkloadDependency \<Rightarrow> string list" where
  "validateWD wd =
     (let spec = wd_Spec wd in
      (if ref_Kind (Dependent spec) = '''' then [''spec.dependent.kind is required''] else []) @
      (if ref_Name (Dependent spec) = '''' then [''spec.dependent.name is required''] else []) @
      (if DependsOn spec = [] then [''spec.dependsOn must have at least one entry''] else []) @
      dep_identity_errors 0 (DependsOn spec) @
      (if MaxSuspendDuration (OnDegraded spec) <s 0
       then [''spec.onDegraded.maxSuspendDuration must be positive''] else []) @
      dep_window_errors 0 (DependsOn spec) @
      notify_errors (Notify spec))"

section \<open>The handler\<close>

definition wdAllow :: AdmissionResponse where
  "wdAllow = \<lparr>resp_UID = [], Allowed = True, resp_Code = 200, resp_Message = [], resp_Reason = []\<rparr>"

definition wdDeny :: "string \<Rightarrow> AdmissionResponse" where
  "wdDeny reason =
    \<lparr>resp_UID = [], Allowed = False, resp_Code = 422, resp_Message = reason, resp_Reason = ''Invalid''\<rparr>"

definition wd_validate :: "(string + WorkloadDependency) AdmissionRequest \<Rightarrow> AdmissionResponse" where
  "wd_validate req =
     (case ar_Object req of
        Inl err \<Rightarrow> wdDeny (''failed to decode WorkloadDependency: '' @ err)
      | Inr wd \<Rightarrow>
          (case validateWD wd of
             [] \<Rightarrow> wdAllow
           | err # _ \<Rightarrow> wdDeny (''validation failed: '' @ err)))"

fun wd_ServeHTTP :: "(string + WorkloadDependency) http_body \<Rightarrow> ('e, http_reply) go" where
  "wd_ServeHTTP ReadError = return (HttpError 400 ''failed to read body'')"
| "wd_ServeHTTP (Body n review) =
     (if n = 0 then return (HttpError 400 ''failed to read body'')
      else case review of
        Some (Some req) \<Rightarrow> return (HttpReview ((wd_validate req)\<lparr>resp_UID := ar_UID req\<rparr>))
      | _ \<Rightarrow> return (HttpError 400 ''invalid admission review''))"

interpretation wd_hook: admission_handler wd_ServeHTTP "\<lambda>req. return (wd_validate req)"
  by unfold_locales auto

section \<open>The accepted objects\<close>

definition valid_dep :: "DependsOnEntry \<Rightarrow> bool" where
  "valid_dep dep \<longleftrightarrow> dep_Kind dep \<noteq> ''CronJob'' \<and> dep_Name dep \<noteq> '''' \<and>
     0 \<le>s Window (dep_Condition dep) \<and> 0 \<le>s RecoveryWindow (dep_Condition dep)"

definition valid_spec :: "WorkloadDependencySpec \<Rightarrow> bool" where
  "valid_spec spec \<longleftrightarrow>
     ref_Kind (Dependent spec) \<noteq> '''' \<and> ref_Name (Dependent spec) \<noteq> '''' \<and>
     DependsOn spec \<noteq> [] \<and> list_all valid_dep (DependsOn spec) \<and>
     0 \<le>s MaxSuspendDuration (OnDegraded spec) \<and>
     pred_option (\<lambda>n. (Webhook n \<noteq> '''') \<noteq> (WebhookSecretRef n \<noteq> None)) (Notify spec)"

lemma dep_errors_Nil:
  "dep_identity_errors i deps = [] \<and> dep_window_errors j deps = [] \<longleftrightarrow> list_all valid_dep deps"
  by (induction deps arbitrary: i j) (auto simp: valid_dep_def signed.not_less)

lemma notify_errors_Nil:
  "notify_errors notify = [] \<longleftrightarrow> pred_option (\<lambda>n. (Webhook n \<noteq> '''') \<noteq> (WebhookSecretRef n \<noteq> None)) notify"
  by (auto simp: notify_errors_def split: option.splits)

lemma validateWD_Nil: "validateWD wd = [] \<longleftrightarrow> valid_spec (wd_Spec wd)"
  using dep_errors_Nil [of 0 "DependsOn (wd_Spec wd)" 0]
  by (auto simp: validateWD_def valid_spec_def Let_def notify_errors_Nil signed.not_less)

text \<open>
  C15.  The webhook answers every review under the request's identifier, and admits
  exactly the objects that decode and whose specification is valid: a named dependent, at least
  one dependency, none of them a cron job or nameless, no negative duration, and exactly one
  destination for notifications; metadata and status play no role.  Anything else is answered
  with status 422 and the first broken rule.
\<close>

theorem validator_decision:
  assumes "0 < n"
  shows "\<exists>resp. wd_ServeHTTP (Body n (Some (Some req))) = return (HttpReview resp) \<and> resp_UID resp = ar_UID req \<and>
    (Allowed resp \<longleftrightarrow> (\<exists>wd. ar_Object req = Inr wd \<and> valid_spec (wd_Spec wd))) \<and>
    (\<not> Allowed resp \<longrightarrow> resp_Code resp = 422 \<and> resp_Reason resp = ''Invalid'' \<and> resp_Message resp \<noteq> [])"
  using assms
  by (auto simp: wd_validate_def wdAllow_def wdDeny_def validateWD_Nil [symmetric]
      split: sum.splits list.splits)

theorem validator_decision_witness:
  "\<exists>resp. wd_ServeHTTP (Body 1 (Some (Some \<lparr>ar_UID = ''u'', ar_Operation = Create, ar_Kind = ''WorkloadDependency'',
       ar_Name = ''w'', ar_Namespace = ''ns'', ar_Object = Inr (sample_wd ''w'' ''a'' [''''] ModeStrict),
       ar_OldObject = Inl []\<rparr>))) = return (HttpReview resp) \<and> \<not> Allowed resp"
  using validator_decision [of 1 "\<lparr>ar_UID = ''u'', ar_Operation = Create, ar_Kind = ''WorkloadDependency'',
       ar_Name = ''w'', ar_Namespace = ''ns'', ar_Object = Inr (sample_wd ''w'' ''a'' [''''] ModeStrict),
       ar_OldObject = Inl []\<rparr>"]
  by (force simp: valid_spec_def valid_dep_def sample_defs)

end
