(* ===== verification/Server.thy ===== *)
theory Server
  imports TLS Gate WD_Validator
begin

text \<open>
  \<^verbatim>\<open>internal/webhook/server.go\<close>: the HTTPS server of the webhooks, its certificate holder and its
  rotation loop.  The holder's lock makes reading and replacing the certificate atomic, so the
  server is a sequence of atomic events: ticks of the rotation loop, handshakes, requests, and the
  end.
\<close>

section \<open>The certificate holder\<close>

record 'c certHolder =
  holder_cert :: "'c option"

definition holder_get :: "'c certHolder \<Rightarrow> 'c option" where
  "holder_get h = holder_cert h"

definition holder_set :: "'c \<Rightarrow> 'c certHolder \<Rightarrow> 'c certHolder" where
  "holder_set cert h = h\<lparr>holder_cert := Some cert\<rparr>"

section \<open>Routing\<close>

text \<open>
  A request to the server: its path, and its body as each of the two handlers decodes it.  An
  unregistered path is answered by the multiplexer itself.
\<close>

record web_request =
  wr_Path :: string
  wr_Gate :: "raw http_body"
  wr_WD :: "(string + WorkloadDependency) http_body"

datatype web_reply = FromHandler http_reply | StatusOnly int

definition mux :: "'e kube \<Rightarrow> web_request \<Rightarrow> ('e, web_reply) go" where
  "mux k req =
     (if wr_Path req = ''/validate'' then do {
        reply \<leftarrow> gate_ServeHTTP k (wr_Gate req);
        return (FromHandler reply) }
      else if wr_Path req = ''/validate-wd'' then do {
        reply \<leftarrow> wd_ServeHTTP (wr_WD req);
        return (FromHandler reply) }
      else if wr_Path req = ''/healthz'' then return (StatusOnly 200)
      else return (StatusOnly 404))"

section \<open>Starting and running\<close>

datatype start_error =
    EnsureWebhookCert tls_error
  | LoadWebhookKeypair string
  | WebhookServer string

text \<open>The part of \<^verbatim>\<open>Start\<close> before the server listens.\<close>

definition prepare :: "('e, 'p, 'c) pki \<Rightarrow> TLSManager \<Rightarrow> ('e, start_error + 'c certHolder) go" where
  "prepare p m = do {
     r \<leftarrow> EnsureCert p m;
     case r of
       Inl err \<Rightarrow> return (Inl (EnsureWebhookCert err))
     | Inr (certPEM, keyPEM) \<Rightarrow>
         (case p_X509KeyPair p certPEM keyPEM of
            Inl err \<Rightarrow> return (Inl (LoadWebhookKeypair err))
          | Inr cert \<Rightarrow> return (Inr (holder_set cert \<lparr>holder_cert = None\<rparr>))) }"

text \<open>One tick of \<open>runRotationLoop\<close>.\<close>

definition rotation_tick :: "('e, 'p, 'c) pki \<Rightarrow> TLSManager \<Rightarrow> 'c certHolder \<Rightarrow> ('e, 'c certHolder) go" where
  "rotation_tick p m holder = do {
     r \<leftarrow> EnsureCert p m;
     case r of
       Inl err \<Rightarrow> return holder
     | Inr (certPEM, keyPEM) \<Rightarrow>
         (case p_X509KeyPair p certPEM keyPEM of
            Inl err \<Rightarrow> return holder
          | Inr cert \<Rightarrow> return (holder_set cert holder)) }"

text \<open>
  What happens to a running server: \<open>Tick\<close> and \<open>Handshake\<close>; \<open>Pass\<close> is anything else the
  environment does meanwhile; \<open>Closed\<close> is the shutdown after the context ended, \<open>Broken\<close> any other error of
  \<^verbatim>\<open>ListenAndServeTLS\<close>.
\<close>

datatype 'e server_event = Tick | Handshake | Pass "'e \<Rightarrow> 'e" | Closed | Broken string

text \<open>
  The events of a server from the moment it listens: the certificates it presented, oldest first, and its
  error, if it ended with one.  The list of events may stop before the server does.
\<close>

fun serve :: "('e, 'p, 'c) pki \<Rightarrow> TLSManager \<Rightarrow> 'c certHolder \<Rightarrow> 'e server_event list
    \<Rightarrow> ('e, 'c option list \<times> start_error option) go" where
  "serve p m holder [] = return ([], None)"
| "serve p m holder (Tick # evs) = do { holder' \<leftarrow> rotation_tick p m holder; serve p m holder' evs }"
| "serve p m holder (Handshake # evs) = do {
     r \<leftarrow> serve p m holder evs;
     return (holder_get holder # fst r, snd r) }"
| "serve p m holder (Pass f # evs) = do { _ \<leftarrow> outside (\<lambda>e. ((), f e)); serve p m holder evs }"
| "serve p m holder (Closed # evs) = return ([], None)"
| "serve p m holder (Broken err # evs) = return ([], Some (WebhookServer err))"

definition Start ::
  "('e, 'p, 'c) pki \<Rightarrow> TLSManager \<Rightarrow> 'e server_event list \<Rightarrow> ('e, 'c option list \<times> start_error option) go" where
  "Start p m evs = do {
     r \<leftarrow> prepare p m;
     case r of
       Inl err \<Rightarrow> return ([], Some err)
     | Inr holder \<Rightarrow> serve p m holder evs }"

section \<open>The certificate presented is never about to expire\<close>

text \<open>
  A loaded pair that is good until a time: it was loaded from a certificate valid until then.
\<close>

definition good_until :: "('e, 'p, 'c) pki \<Rightarrow> 'c \<Rightarrow> gotime \<Rightarrow> bool" where
  "good_until p cert t \<longleftrightarrow> (\<exists>certPEM keyPEM. p_X509KeyPair p certPEM keyPEM = Inr cert \<and> lasts_until p certPEM t)"

definition fresh_since :: "('e, 'p, 'c) pki \<Rightarrow> 'c certHolder \<Rightarrow> gotime \<Rightarrow> bool" where
  "fresh_since p holder t \<longleftrightarrow>
     (\<exists>cert. holder_get holder = Some cert \<and> good_until p cert (t + sint certRenewBefore))"

lemma lasts_until_mono: "lasts_until p c t \<Longrightarrow> t' \<le> t \<Longrightarrow> lasts_until p c t'"
  by (auto simp: lasts_until_def)

lemma fresh_since_mono: "fresh_since p holder t \<Longrightarrow> t' \<le> t \<Longrightarrow> fresh_since p holder t'"
  unfolding fresh_since_def good_until_def by (meson add_right_mono lasts_until_mono)

lemma fresh_since_set:
  "fresh_pair p (Inr (c, k) :: tls_error + string \<times> string) t \<Longrightarrow> p_X509KeyPair p c k = Inr cert \<Longrightarrow>
    fresh_since p (holder_set cert holder) t"
  by (auto simp: fresh_since_def good_until_def fresh_pair_def holder_get_def holder_set_def)

lemma stamped_prepare:
  assumes "x509_laws p" and "runs_forward p clock"
  shows "stamped clock (prepare p m) (\<lambda>r t. \<forall>holder. r = Inr holder \<longrightarrow> fresh_since p holder t)"
  unfolding prepare_def
  by (rule stamped_bind [OF stamped_EnsureCert [OF assms]])
     (rule disjI2, auto intro!: advances_intros yields_return intro: fresh_since_set split: sum.splits)

lemma stamped_rotation_tick:
  assumes "x509_laws p" and "runs_forward p clock"
  shows "stamped clock (rotation_tick p m holder) (\<lambda>holder' t. holder' = holder \<or> fresh_since p holder' t)"
  unfolding rotation_tick_def
  by (rule stamped_bind [OF stamped_EnsureCert [OF assms]])
     (rule disjI2, auto intro!: advances_intros yields_return intro: fresh_since_set split: sum.splits)

fun forward_event :: "('e \<Rightarrow> gotime) \<Rightarrow> 'e server_event \<Rightarrow> bool" where
  "forward_event clock (Pass f) \<longleftrightarrow> (\<forall>e. clock e \<le> clock (f e))"
| "forward_event clock _ = True"

definition presents_until :: "('e, 'p, 'c) pki \<Rightarrow> gotime \<Rightarrow> 'c option \<Rightarrow> bool" where
  "presents_until p t c \<longleftrightarrow> (\<exists>cert. c = Some cert \<and> good_until p cert (t + sint certRenewBefore))"

text \<open>A server whose certificate is fresh since some time presents none that is older.\<close>

lemma serve_fresh:
  assumes "x509_laws p" and "runs_forward p clock" and "list_all (forward_event clock) evs"
    and "fresh_since p holder t" and "t \<le> clock (env s)"
  shows "list_all (presents_until p t) (fst (fst (run_state (serve p m holder evs) s)))"
  using assms
proof (induction p m holder evs arbitrary: s rule: serve.induct)
  case (2 p m holder evs)
  obtain holder' s' where r: "run_state (rotation_tick p m holder) s = (holder', s')" by force
  from stamped_rotation_tick [OF 2(2,3), of m holder] r
  obtain t' where t': "clock (env s) \<le> t'" "t' \<le> clock (env s')" "holder' = holder \<or> fresh_since p holder' t'"
    unfolding stamped_def by (metis fst_conv snd_conv)
  then have "fresh_since p holder' t" using 2(5,6) by (auto intro: fresh_since_mono)
  with 2 t' r show ?case by simp
next
  case (4 p m holder f evs)
  then have "t \<le> clock (f (env s))" by (auto intro: order_trans)
  with 4 show ?case by (simp add: run_simps)
next
  case (3 p m holder evs)
  then show ?case by (auto simp: presents_until_def fresh_since_def case_prod_beta)
qed simp_all

text \<open>
  C18.  Whatever happens after the start of the server, even if every later renewal fails, it presents only
  certificates that were loaded from a Secret or generated and that stay valid for at least thirty
  days after the start.
\<close>

theorem Start_presents_valid:
  assumes "x509_laws p" and "runs_forward p clock" and "list_all (forward_event clock) evs"
  shows "list_all (presents_until p (clock (env s))) (fst (fst (run_state (Start p m evs) s)))"
proof -
  obtain r s' where r: "run_state (prepare p m) s = (r, s')" by force
  from stamped_prepare [OF assms(1,2), of m] r
  obtain t where t: "clock (env s) \<le> t" "t \<le> clock (env s')" "\<forall>holder. r = Inr holder \<longrightarrow> fresh_since p holder t"
    unfolding stamped_def by (metis fst_conv snd_conv)
  show ?thesis
  proof (cases r)
    case (Inr holder)
    with t have "fresh_since p holder (clock (env s))" by (auto intro: fresh_since_mono)
    from serve_fresh [OF assms this, of s'] t r Inr show ?thesis by (simp add: Start_def)
  qed (use r in \<open>simp add: Start_def\<close>)
qed

text \<open>
  C16.  A tick of the rotation loop that obtains a certificate and loads it makes every later handshake
  present a certificate valid for at least thirty days after the tick, however many renewals fail
  afterwards; so one success in thirty days, out of sixty ticks, keeps the server's certificate valid.
\<close>

theorem rotation_renews:
  assumes "x509_laws p" and "runs_forward p clock" and "list_all (forward_event clock) evs"
    and "fst (run_state (EnsureCert p m) s) = Inr (certPEM, keyPEM)" and "p_X509KeyPair p certPEM keyPEM = Inr cert"
  shows "list_all (presents_until p (clock (env s))) (fst (fst (run_state (serve p m holder (Tick # evs)) s)))"
proof -
  obtain s' where r: "run_state (EnsureCert p m) s = (Inr (certPEM, keyPEM), s')"
    using assms(4) by (metis prod.collapse)
  from stamped_EnsureCert [OF assms(1,2), of m] r
  obtain t where t: "clock (env s) \<le> t" "t \<le> clock (env s')"
      "fresh_pair p (Inr (certPEM, keyPEM) :: tls_error + string \<times> string) t"
    unfolding stamped_def by (metis fst_conv snd_conv)
  then have "fresh_since p (holder_set cert holder) (clock (env s))"
    using assms(5) by (meson fresh_since_mono fresh_since_set)
  from serve_fresh [OF assms(1-3) this, of s' m] t r assms(5) show ?thesis
    by (simp add: rotation_tick_def)
qed

fun no_secret_write :: "effect \<Rightarrow> bool" where
  "no_secret_write (CreateSecret _ _) = False"
| "no_secret_write (UpdateSecret _ _) = False"
| "no_secret_write _ = True"


section \<open>Decisions of the server\<close>

text \<open>An empty body is not a review.\<close>

fun body_ok :: "'o http_body \<Rightarrow> bool" where
  "body_ok (Body n review) \<longleftrightarrow> (n = 0 \<longrightarrow> review = None)"
| "body_ok ReadError = True"


section \<open>Witnesses\<close>

definition gate_request :: web_request where
  "gate_request = \<lparr>wr_Path = ''/validate'', wr_Gate = Body 9 (Some (Some (scale_request ''Deployment''))), wr_WD = Body 9 None\<rparr>"


theorem Start_presents_valid_witness:
  "length (fst (fst (run_state (Start mem_pki sample_tls [Handshake, Handshake]) (start fresh_pki)))) = 2 \<and>
   list_all (presents_until mem_pki 1700000000123456789)
     (fst (fst (run_state (Start mem_pki sample_tls [Handshake, Handshake]) (start fresh_pki))))"
proof -
  obtain c k s' where "run_state (EnsureCert mem_pki sample_tls) (start fresh_pki) = (Inr (c, k), s')" "k \<noteq> []"
    using first_start_pair unfolding first_start_def by blast
  then have "length (fst (fst (run_state (Start mem_pki sample_tls [Handshake, Handshake]) (start fresh_pki)))) = 2"
    by (simp add: Start_def prepare_def mem_pki_def)
  with Start_presents_valid [OF mem_x509_laws mem_runs_forward, of "[Handshake, Handshake]" "start fresh_pki" sample_tls]
  show ?thesis by (simp add: start_def fresh_pki_def)
qed

theorem rotation_renews_witness:
  "length (fst (fst (run_state (serve mem_pki sample_tls \<lparr>holder_cert = None\<rparr> [Tick, Handshake]) (start fresh_pki)))) = 1 \<and>
   list_all (presents_until mem_pki 1700000000123456789)
     (fst (fst (run_state (serve mem_pki sample_tls \<lparr>holder_cert = None\<rparr> [Tick, Handshake]) (start fresh_pki))))"
proof -
  obtain c k s' where e: "run_state (EnsureCert mem_pki sample_tls) (start fresh_pki) = (Inr (c, k), s')" and "k \<noteq> []"
    using first_start_pair unfolding first_start_def by blast
  then have l: "p_X509KeyPair mem_pki c k = Inr (c, k)" by (simp add: mem_pki_def)
  with e have "length (fst (fst (run_state (serve mem_pki sample_tls \<lparr>holder_cert = None\<rparr> [Tick, Handshake]) (start fresh_pki)))) = 1"
    by (simp add: rotation_tick_def)
  with rotation_renews [OF mem_x509_laws mem_runs_forward _ _ l, of "[Handshake]" sample_tls "start fresh_pki"] e
  show ?thesis by (simp add: start_def fresh_pki_def)
qed

definition keyless :: Secret where
  "keyless = \<lparr>sec_Name = tlsSecretName, sec_Namespace = ''klink-system'', sec_Type = ''kubernetes.io/tls'',
     sec_Data = [(''tls.crt'', mem_EncodePEM \<lparr>pem_Type = ''CERTIFICATE'', pem_Bytes = ''9''\<rparr>)]\<rparr>"

text \<open>An interface that always reads that Secret, with a clock that stands still long before the certificate ends.\<close>

definition keyless_pki :: "(pki_env, string, string \<times> string) pki" where
  "keyless_pki = mem_pki\<lparr>p_Now := (\<lambda>e. (- 9000000000000000, e)), p_GetSecret := (\<lambda>nn e. (Inr keyless, e))\<rparr>"


end
