(* ===== verification/Watch.thy ===== *)
theory Watch
  imports Memory_Cluster
begin

text \<open>
  \<^verbatim>\<open>findWDsForWorkload\<close> of \<^verbatim>\<open>internal/controller/workloaddependency_controller.go\<close>: which objects
  are reconciled when a watched workload changes.  The two field indexes it queries share a
  contract, the locale \<open>name_index\<close>.
\<close>

section \<open>The mapping\<close>

text \<open>The closure \<^verbatim>\<open>enqueue\<close>, with the map \<^verbatim>\<open>seen\<close> and the slice \<^verbatim>\<open>requests\<close> it captures.\<close>

definition enqueue ::
  "WorkloadDependency \<Rightarrow> NamespacedName set \<times> NamespacedName list \<Rightarrow> NamespacedName set \<times> NamespacedName list" where
  "enqueue wd acc = (case acc of (seen, requests) \<Rightarrow>
     if wd_key wd \<in> seen then (seen, requests)
     else (insert (wd_key wd) seen, requests @ [wd_key wd]))"

definition enqueue_result ::
  "api_error + WorkloadDependency list \<Rightarrow> NamespacedName set \<times> NamespacedName list
     \<Rightarrow> NamespacedName set \<times> NamespacedName list" where
  "enqueue_result r acc = (case r of Inl err \<Rightarrow> acc | Inr items \<Rightarrow> fold enqueue items acc)"

definition findWDsForWorkload :: "'e kube \<Rightarrow> workloadAccessor \<Rightarrow> ('e, NamespacedName list) go" where
  "findWDsForWorkload k obj =
     (let key = index_key (getNamespace obj) (getName obj) in do {
        r1 \<leftarrow> outside (k_ListWD k (MatchingFields indexDependsOnName key));
        let acc = enqueue_result r1 ({}, []);
        r2 \<leftarrow> outside (k_ListWD k (MatchingFields indexDependentName key));
        let acc = enqueue_result r2 acc;
        return (snd acc) })"

section \<open>The contract of an index\<close>

text \<open>
  An index lists, for an object, the keys of the references it is about.  As neither a namespace
  nor a name contains a slash, looking a key up finds exactly the objects with that reference.
\<close>

locale name_index =
  fixes keys_of :: "WorkloadDependency \<Rightarrow> string list"
    and refs :: "WorkloadDependency \<Rightarrow> (string \<times> string) list"
  assumes keys_refs: "keys_of wd = map (\<lambda>(ns, name). index_key ns name) (refs wd)"
begin

lemma lookup_iff:
  assumes "CHR ''/'' \<notin> set ns" and "\<forall>(ns', name') \<in> set (refs wd). CHR ''/'' \<notin> set ns'"
  shows "index_key ns name \<in> set (keys_of wd) \<longleftrightarrow> (ns, name) \<in> set (refs wd)"
proof
  assume "index_key ns name \<in> set (keys_of wd)"
  then obtain ns' name' where r: "(ns', name') \<in> set (refs wd)" "index_key ns name = index_key ns' name'"
    by (auto simp: keys_refs)
  with assms have "ns = ns' \<and> name = name'" by (intro index_key_inject) auto
  with r show "(ns, name) \<in> set (refs wd)" by simp
next
  assume "(ns, name) \<in> set (refs wd)"
  then show "index_key ns name \<in> set (keys_of wd)" by (force simp: keys_refs)
qed

end

definition dependent_refs :: "WorkloadDependency \<Rightarrow> (string \<times> string) list" where
  "dependent_refs wd = [(dependentNS wd, ref_Name (Dependent (wd_Spec wd)))]"

definition dependsOn_refs :: "WorkloadDependency \<Rightarrow> (string \<times> string) list" where
  "dependsOn_refs wd = map (\<lambda>dep. (dependencyNS wd dep, dep_Name dep)) (DependsOn (wd_Spec wd))"

interpretation by_dependent: name_index dependent_index dependent_refs
  by unfold_locales (simp add: dependent_index_def dependent_refs_def)

interpretation by_dependsOn: name_index dependsOn_index dependsOn_refs
  by unfold_locales (simp add: dependsOn_index_def dependsOn_refs_def comp_def)

section \<open>Every affected object, once\<close>

definition push_new :: "'a \<Rightarrow> 'a set \<times> 'a list \<Rightarrow> 'a set \<times> 'a list" where
  "push_new x acc = (case acc of (seen, xs) \<Rightarrow> if x \<in> seen then (seen, xs) else (insert x seen, xs @ [x]))"

lemma fold_push_new:
  "distinct xs \<Longrightarrow> \<exists>ys. fold push_new zs (set xs, xs) = (set ys, ys) \<and> distinct ys \<and> set ys = set xs \<union> set zs"
proof (induction zs arbitrary: xs)
  case (Cons z zs)
  show ?case
  proof (cases "z \<in> set xs")
    case True
    with Cons show ?thesis by (force simp: push_new_def)
  next
    case False
    then have "push_new z (set xs, xs) = (set (xs @ [z]), xs @ [z])" by (simp add: push_new_def)
    with Cons.IH [of "xs @ [z]"] Cons.prems False show ?thesis by simp
  qed
qed simp

lemma enqueue_push_new: "enqueue wd = push_new (wd_key wd)"
  by (rule ext) (simp only: enqueue_def push_new_def)

lemma enqueue_items:
  assumes "distinct requests"
  obtains requests' where "enqueue_result (Inr items) (set requests, requests) = (set requests', requests')"
    and "distinct requests'" and "set requests' = set requests \<union> wd_key ` set items"
proof -
  have "enqueue_result (Inr items) acc = fold push_new (map wd_key items) acc" for acc
    by (simp only: enqueue_result_def sum.case fold_map enqueue_push_new [abs_def] comp_def)
  then show ?thesis
    using fold_push_new [OF assms, of "map wd_key items"] that unfolding set_map by metis
qed

text \<open>The objects that reference the workload, as a dependency or as the dependent.\<close>

definition concerns :: "workloadAccessor \<Rightarrow> WorkloadDependency \<Rightarrow> bool" where
  "concerns obj wd \<longleftrightarrow>
     (getNamespace obj, getName obj) \<in> set (dependsOn_refs wd) \<union> set (dependent_refs wd)"

definition slash_free :: "WorkloadDependency \<Rightarrow> bool" where
  "slash_free wd \<longleftrightarrow>
     (\<forall>(ns, name) \<in> set (dependsOn_refs wd) \<union> set (dependent_refs wd). CHR ''/'' \<notin> set ns)"

lemma concerns_by_index:
  assumes "CHR ''/'' \<notin> set (getNamespace obj)" and "slash_free wd"
  shows "(list_matches (MatchingFields indexDependsOnName (index_key (getNamespace obj) (getName obj))) wd \<or>
    list_matches (MatchingFields indexDependentName (index_key (getNamespace obj) (getName obj))) wd) = concerns obj wd"
proof -
  have "\<forall>(ns, name) \<in> set (dependsOn_refs wd). CHR ''/'' \<notin> set ns"
    "\<forall>(ns, name) \<in> set (dependent_refs wd). CHR ''/'' \<notin> set ns"
    using assms(2) unfolding slash_free_def by blast+
  from by_dependsOn.lookup_iff [OF assms(1) this(1)] by_dependent.lookup_iff [OF assms(1) this(2)]
  show ?thesis by (simp add: index_values_def concerns_def)
qed



end
