(* ===== verification/Command_Line.thy ===== *)
theory Command_Line
  imports Prelude
begin

text \<open>
  The command line of \<^verbatim>\<open>cmd/main.go\<close>: the flags it defines, with their defaults, and \<^verbatim>\<open>flag.Parse\<close> of Go's
  standard library on them.  The libraries that \<^verbatim>\<open>main\<close> links define flags of their own (\<^verbatim>\<open>BindFlags\<close> of the logger,
  \<^verbatim>\<open>kubeconfig\<close>), which are a parameter.  The lemmas show that every setting can be written as a command line and
  where parsing stops.
\<close>

section \<open>Flags\<close>

record flags =
  metricsAddr :: string
  probeAddr :: string
  enableLeaderElection :: bool
  secureMetrics :: bool
  webhookCertPath :: string
  webhookCertName :: string
  webhookCertKey :: string
  metricsCertPath :: string
  metricsCertName :: string
  metricsCertKey :: string
  enableHTTP2 :: bool
  enableGateWebhook :: bool
  webhookAddr :: string
  webhookSvcName :: string
  operatorNamespace :: string
  watchNamespace :: string

definition default_flags :: flags where
  "default_flags =
    \<lparr>metricsAddr = ''0'', probeAddr = '':8081'', enableLeaderElection = False, secureMetrics = False,
     webhookCertPath = '''', webhookCertName = ''tls.crt'', webhookCertKey = ''tls.key'',
     metricsCertPath = '''', metricsCertName = ''tls.crt'', metricsCertKey = ''tls.key'',
     enableHTTP2 = False, enableGateWebhook = False, webhookAddr = '':9443'',
     webhookSvcName = ''klink-webhook'', operatorNamespace = ''klink-system'', watchNamespace = ''''\<rparr>"

section \<open>The flag set\<close>

text \<open>\<^verbatim>\<open>flag.StringVar\<close> and \<^verbatim>\<open>flag.BoolVar\<close>: a flag and the variable it sets.\<close>

datatype flag_var =
    StringVar "string \<Rightarrow> flags \<Rightarrow> flags"
  | BoolVar "bool \<Rightarrow> flags \<Rightarrow> flags"

definition own_flags :: "(string \<times> flag_var) list" where
  "own_flags =
    [(''metrics-bind-address'', StringVar (\<lambda>v. metricsAddr_update (\<lambda>_. v))),
     (''health-probe-bind-address'', StringVar (\<lambda>v. probeAddr_update (\<lambda>_. v))),
     (''leader-elect'', BoolVar (\<lambda>v. enableLeaderElection_update (\<lambda>_. v))),
     (''metrics-secure'', BoolVar (\<lambda>v. secureMetrics_update (\<lambda>_. v))),
     (''webhook-cert-path'', StringVar (\<lambda>v. webhookCertPath_update (\<lambda>_. v))),
     (''webhook-cert-name'', StringVar (\<lambda>v. webhookCertName_update (\<lambda>_. v))),
     (''webhook-cert-key'', StringVar (\<lambda>v. webhookCertKey_update (\<lambda>_. v))),
     (''metrics-cert-path'', StringVar (\<lambda>v. metricsCertPath_update (\<lambda>_. v))),
     (''metrics-cert-name'', StringVar (\<lambda>v. metricsCertName_update (\<lambda>_. v))),
     (''metrics-cert-key'', StringVar (\<lambda>v. metricsCertKey_update (\<lambda>_. v))),
     (''enable-http2'', BoolVar (\<lambda>v. enableHTTP2_update (\<lambda>_. v))),
     (''enable-gate-webhook'', BoolVar (\<lambda>v. enableGateWebhook_update (\<lambda>_. v))),
     (''gate-webhook-addr'', StringVar (\<lambda>v. webhookAddr_update (\<lambda>_. v))),
     (''gate-webhook-service'', StringVar (\<lambda>v. webhookSvcName_update (\<lambda>_. v))),
     (''namespace'', StringVar (\<lambda>v. operatorNamespace_update (\<lambda>_. v))),
     (''watch-namespace'', StringVar (\<lambda>v. watchNamespace_update (\<lambda>_. v)))]"

text \<open>A flag of a library: whether it is Boolean, and which values it accepts.\<close>

record lib_flag =
  lf_IsBoolFlag :: bool
  lf_accepts :: "string \<Rightarrow> bool"

text \<open>\<^verbatim>\<open>strconv.ParseBool\<close>.\<close>

definition ParseBool :: "string \<Rightarrow> bool option" where
  "ParseBool s =
     (if s \<in> set [''1'', ''t'', ''T'', ''true'', ''TRUE'', ''True''] then Some True
      else if s \<in> set [''0'', ''f'', ''F'', ''false'', ''FALSE'', ''False''] then Some False
      else None)"

text \<open>An entry of the flag set: whether it needs no argument, and its method \<^verbatim>\<open>Set\<close>, which may refuse the value.\<close>

fun own_flag :: "flag_var \<Rightarrow> bool \<times> (string \<Rightarrow> flags \<Rightarrow> flags option)" where
  "own_flag (StringVar f) = (False, \<lambda>v opts. Some (f v opts))"
| "own_flag (BoolVar f) = (True, \<lambda>v opts. map_option (\<lambda>b. f b opts) (ParseBool v))"

definition formal :: "(string \<Rightarrow> lib_flag option) \<Rightarrow> string \<Rightarrow> (bool \<times> (string \<Rightarrow> flags \<Rightarrow> flags option)) option" where
  "formal lib name =
     (case map_of own_flags name of
        Some var \<Rightarrow> Some (own_flag var)
      | None \<Rightarrow> map_option (\<lambda>f. (lf_IsBoolFlag f, \<lambda>v opts. if lf_accepts f v then Some opts else None)) (lib name))"

section \<open>Parsing\<close>

datatype flag_error =
    ErrHelp
  | BadSyntax string
  | NotDefined string
  | InvalidBoolean string string
  | NeedsArgument string
  | InvalidValue string string

text \<open>The name and the value of \<^verbatim>\<open>name=value\<close>; the first character is not searched.\<close>

fun split_value :: "string \<Rightarrow> string \<times> string option" where
  "split_value [] = ([], None)"
| "split_value (c # cs) =
     (c # takeWhile (\<lambda>d. d \<noteq> CHR ''='') cs,
      case dropWhile (\<lambda>d. d \<noteq> CHR ''='') cs of [] \<Rightarrow> None | _ # v \<Rightarrow> Some v)"

text \<open>
  \<^verbatim>\<open>FlagSet.Parse\<close>: \<^verbatim>\<open>parseOne\<close> until it reports no flag or an error.  The arguments that are left over
  are not used by \<^verbatim>\<open>main\<close>.
\<close>

fun parse_flags :: "(string \<Rightarrow> lib_flag option) \<Rightarrow> string list \<Rightarrow> flags \<Rightarrow> flag_error + flags" where
  "parse_flags lib [] opts = Inr opts"
| "parse_flags lib (s # args) opts =
     (if length s < 2 \<or> hd s \<noteq> CHR ''-'' \<or> s = ''--'' then Inr opts
      else let name = (if s ! 1 = CHR ''-'' then drop 2 s else drop 1 s) in
        if name = [] \<or> hd name = CHR ''-'' \<or> hd name = CHR ''='' then Inl (BadSyntax s)
        else case split_value name of (name, val) \<Rightarrow>
          (case formal lib name of
             None \<Rightarrow> Inl (if name = ''help'' \<or> name = ''h'' then ErrHelp else NotDefined name)
           | Some (True, Set) \<Rightarrow>
               let v = (case val of None \<Rightarrow> ''true'' | Some v \<Rightarrow> v) in
               (case Set v opts of None \<Rightarrow> Inl (InvalidBoolean v name) | Some opts \<Rightarrow> parse_flags lib args opts)
           | Some (False, Set) \<Rightarrow>
               (case val of
                  Some v \<Rightarrow>
                    (case Set v opts of None \<Rightarrow> Inl (InvalidValue v name) | Some opts \<Rightarrow> parse_flags lib args opts)
                | None \<Rightarrow>
                    (case args of
                       [] \<Rightarrow> Inl (NeedsArgument name)
                     | v # args \<Rightarrow>
                         (case Set v opts of None \<Rightarrow> Inl (InvalidValue v name) | Some opts \<Rightarrow> parse_flags lib args opts)))))"

text \<open>\<^verbatim>\<open>flag.Parse\<close> ends the program on an error.\<close>

definition parse_exit :: "flag_error \<Rightarrow> int" where
  "parse_exit err = (if err = ErrHelp then 0 else 2)"

section \<open>Every setting has a command line\<close>

fun bool_string :: "bool \<Rightarrow> string" where
  "bool_string True = ''true''"
| "bool_string False = ''false''"

lemma ParseBool_bool_string [simp]: "ParseBool (bool_string b) = Some b"
  by (cases b) (simp_all add: ParseBool_def)

definition assign :: "string \<Rightarrow> string \<Rightarrow> string" where
  "assign name v = ''--'' @ name @ CHR ''='' # v"

definition render :: "flags \<Rightarrow> string list" where
  "render opts =
    [assign ''metrics-bind-address'' (metricsAddr opts),
     assign ''health-probe-bind-address'' (probeAddr opts),
     assign ''leader-elect'' (bool_string (enableLeaderElection opts)),
     assign ''metrics-secure'' (bool_string (secureMetrics opts)),
     assign ''webhook-cert-path'' (webhookCertPath opts),
     assign ''webhook-cert-name'' (webhookCertName opts),
     assign ''webhook-cert-key'' (webhookCertKey opts),
     assign ''metrics-cert-path'' (metricsCertPath opts),
     assign ''metrics-cert-name'' (metricsCertName opts),
     assign ''metrics-cert-key'' (metricsCertKey opts),
     assign ''enable-http2'' (bool_string (enableHTTP2 opts)),
     assign ''enable-gate-webhook'' (bool_string (enableGateWebhook opts)),
     assign ''gate-webhook-addr'' (webhookAddr opts),
     assign ''gate-webhook-service'' (webhookSvcName opts),
     assign ''namespace'' (operatorNamespace opts),
     assign ''watch-namespace'' (watchNamespace opts)]"

lemma split_assign:
  assumes "CHR ''='' \<notin> set cs"
  shows "split_value (c # cs @ CHR ''='' # v) = (c # cs, Some v)" and "split_value (c # cs) = (c # cs, None)"
proof -
  have d: "x \<in> set cs \<Longrightarrow> x \<noteq> CHR ''=''" for x using assms by blast
  have "dropWhile (\<lambda>d. d \<noteq> CHR ''='') (cs @ CHR ''='' # v) = CHR ''='' # v"
    "takeWhile (\<lambda>d. d \<noteq> CHR ''='') (cs @ CHR ''='' # v) = cs"
    "dropWhile (\<lambda>d. d \<noteq> CHR ''='') cs = []" "takeWhile (\<lambda>d. d \<noteq> CHR ''='') cs = cs"
    using d by (induction cs) auto
  then show "split_value (c # cs @ CHR ''='' # v) = (c # cs, Some v)" and "split_value (c # cs) = (c # cs, None)"
    by (simp_all only: split_value.simps list.case)
qed

text \<open>The names of the flags: none of them starts with a dash or contains an equals sign.\<close>

fun flag_name :: "string \<Rightarrow> bool" where
  "flag_name [] = False"
| "flag_name (c # cs) \<longleftrightarrow> c \<noteq> CHR ''-'' \<and> c \<noteq> CHR ''='' \<and> CHR ''='' \<notin> set cs"

lemma own_flags_named: "map_of own_flags name = Some var \<Longrightarrow> flag_name name"
proof -
  have "list_all flag_name (map fst own_flags)" by code_simp
  then show "map_of own_flags name = Some var \<Longrightarrow> flag_name name"
    by (force simp: list_all_iff dest: map_of_SomeD)
qed

text \<open>An assignment to one of the flags of \<^verbatim>\<open>main\<close> sets its variable and parsing goes on.\<close>

lemma parse_assign:
  assumes "map_of own_flags name = Some var" and "snd (own_flag var) v opts = Some opts'"
  shows "parse_flags lib (assign name v # args) opts = parse_flags lib args opts'"
proof -
  obtain c cs where n: "name = c # cs" "c \<noteq> CHR ''-''" "c \<noteq> CHR ''=''" "CHR ''='' \<notin> set cs"
    using own_flags_named [OF assms(1)] by (cases name) auto
  have "formal lib (c # cs) = Some (own_flag var)" using assms(1) by (simp add: formal_def n(1))
  with split_assign(1) [OF n(4)] assms(2) n(2,3) show ?thesis
    by (cases var) (auto simp: assign_def n(1) simp del: split_value.simps)
qed

lemma parse_assign_string:
  "map_of own_flags name = Some (StringVar f) \<Longrightarrow> parse_flags lib (assign name v # args) opts = parse_flags lib args (f v opts)"
  by (rule parse_assign, assumption, simp)

lemma parse_assign_bool:
  "map_of own_flags name = Some (BoolVar f) \<Longrightarrow>
     parse_flags lib (assign name (bool_string b) # args) opts = parse_flags lib args (f b opts)"
  by (rule parse_assign, assumption, simp)

lemma parse_render: "parse_flags lib (render opts) old = Inr opts"
proof -
  note step = parse_assign_string [where lib = lib] parse_assign_bool [where lib = lib]
  show ?thesis
    unfolding render_def
    by ((subst step, (simp add: own_flags_def; fail))+, simp)
qed

text \<open>
  A Boolean flag takes no separate argument: a word after it ends the parsing, and what follows is ignored.
\<close>

lemma parse_stops_at_word:
  assumes "map_of own_flags name = Some (BoolVar f)" and "word = [] \<or> hd word \<noteq> CHR ''-''"
  shows "parse_flags lib ((''--'' @ name) # word # args) opts = Inr (f True opts)"
proof -
  obtain c cs where n: "name = c # cs" "c \<noteq> CHR ''-''" "c \<noteq> CHR ''=''" "CHR ''='' \<notin> set cs"
    using own_flags_named [OF assms(1)] by (cases name) auto
  have "formal lib (c # cs) = Some (own_flag (BoolVar f))" using assms(1) by (simp add: formal_def n(1))
  moreover have "ParseBool ''true'' = Some True" by (simp add: ParseBool_def)
  ultimately show ?thesis
    using split_assign(2) [OF n(4)] assms(2) n(2,3) by (auto simp: n(1) simp del: split_value.simps)
qed

end
