(* ===== verification/Manager.thy ===== *)
theory Manager
  imports Server Watch Command_Line
begin

text \<open>
  \<^verbatim>\<open>cmd/main.go\<close> and the registration of the reconciler (\<^verbatim>\<open>SetupWithManager\<close>): from the command line
  to the options of the manager and the sequence of its set-up calls, whose
  results are parameters.  The lemmas show the order of the calls and what the HTTP/2 option
  means for the servers.
\<close>

section \<open>Options\<close>

record tls_Config =
  NextProtos :: "string list"

definition disableHTTP2 :: "tls_Config \<Rightarrow> tls_Config" where
  "disableHTTP2 c = c\<lparr>NextProtos := [''http/1.1'']\<rparr>"

definition tlsOpts :: "flags \<Rightarrow> (tls_Config \<Rightarrow> tls_Config) list" where
  "tlsOpts opts = (if \<not> enableHTTP2 opts then [disableHTTP2] else [])"

record cert_files =
  CertDir :: string
  CertName :: string
  KeyName :: string

definition no_cert_files :: cert_files where
  "no_cert_files = \<lparr>CertDir = '''', CertName = '''', KeyName = ''''\<rparr>"

record webhookServerOptions =
  wso_TLSOpts :: "(tls_Config \<Rightarrow> tls_Config) list"
  wso_Cert :: cert_files

definition webhook_options :: "flags \<Rightarrow> webhookServerOptions" where
  "webhook_options opts =
    \<lparr>wso_TLSOpts = tlsOpts opts,
     wso_Cert = (if webhookCertPath opts \<noteq> ''''
       then \<lparr>CertDir = webhookCertPath opts, CertName = webhookCertName opts, KeyName = webhookCertKey opts\<rparr>
       else no_cert_files)\<rparr>"

record metricsServerOptions =
  mso_BindAddress :: string
  mso_SecureServing :: bool
  mso_TLSOpts :: "(tls_Config \<Rightarrow> tls_Config) list"
  mso_Authenticated :: bool
  mso_Cert :: cert_files

text \<open>\<open>mso_Authenticated\<close>: the filter \<^verbatim>\<open>WithAuthenticationAndAuthorization\<close> is installed.\<close>

definition metrics_options :: "flags \<Rightarrow> metricsServerOptions" where
  "metrics_options opts =
    \<lparr>mso_BindAddress = metricsAddr opts,
     mso_SecureServing = secureMetrics opts,
     mso_TLSOpts = tlsOpts opts,
     mso_Authenticated = secureMetrics opts,
     mso_Cert = (if metricsCertPath opts \<noteq> ''''
       then \<lparr>CertDir = metricsCertPath opts, CertName = metricsCertName opts, KeyName = metricsCertKey opts\<rparr>
       else no_cert_files)\<rparr>"

text \<open>
  The namespaces the cache holds Secrets of, and those it holds all other objects of; an empty
  list of the latter stands for every namespace.
\<close>

record cacheOptions =
  co_SecretNamespaces :: "string list"
  co_DefaultNamespaces :: "string list"

definition cache_options :: "flags \<Rightarrow> cacheOptions" where
  "cache_options opts =
    \<lparr>co_SecretNamespaces = [operatorNamespace opts],
     co_DefaultNamespaces = (if watchNamespace opts \<noteq> '''' then [watchNamespace opts] else [])\<rparr>"

record managerOptions =
  mo_Metrics :: metricsServerOptions
  mo_WebhookServer :: webhookServerOptions
  mo_HealthProbeBindAddress :: string
  mo_LeaderElection :: bool
  mo_LeaderElectionID :: string
  mo_Cache :: cacheOptions

definition manager_options :: "flags \<Rightarrow> managerOptions" where
  "manager_options opts =
    \<lparr>mo_Metrics = metrics_options opts,
     mo_WebhookServer = webhook_options opts,
     mo_HealthProbeBindAddress = probeAddr opts,
     mo_LeaderElection = enableLeaderElection opts,
     mo_LeaderElectionID = ''34fd0290.klink.dev'',
     mo_Cache = cache_options opts\<rparr>"

section \<open>Registering the reconciler\<close>

datatype watched = WorkloadDependencies | Deployments | StatefulSets | CronJobs | Rollouts

text \<open>
  A registration call: an index under a name with its extractor, or the controller with the type it
  is for and the types it watches through \<open>findWDsForWorkload\<close>.
\<close>

datatype registration =
    IndexField string "WorkloadDependency \<Rightarrow> string list"
  | BuildController string watched "watched list"

text \<open>The results of the set-up calls: the error, if any.\<close>

record setup_results =
  r_NewManager :: "string option"
  r_IndexField :: "string \<Rightarrow> string option"
  r_Complete :: "string option"
  r_AddRunnable :: "string option"
  r_AddHealthz :: "string option"
  r_AddReadyz :: "string option"
  r_Start :: "string option"

definition SetupWithManager :: "setup_results \<Rightarrow> registration list \<times> string option" where
  "SetupWithManager res =
     (case r_IndexField res indexDependentName of
        Some err \<Rightarrow> ([IndexField indexDependentName dependent_index],
          Some (''register field index '' @ indexDependentName @ '': '' @ err))
      | None \<Rightarrow>
          (case r_IndexField res indexDependsOnName of
             Some err \<Rightarrow> ([IndexField indexDependentName dependent_index, IndexField indexDependsOnName dependsOn_index],
               Some (''register field index '' @ indexDependsOnName @ '': '' @ err))
           | None \<Rightarrow> ([IndexField indexDependentName dependent_index, IndexField indexDependsOnName dependsOn_index,
               BuildController ''workloaddependency'' WorkloadDependencies
                 [Deployments, StatefulSets, CronJobs, Rollouts]],
               r_Complete res)))"

section \<open>The program\<close>

datatype setup_call =
    NewManager managerOptions
  | Register registration
  | AddRunnable TLSManager string
  | AddHealthzCheck string
  | AddReadyzCheck string
  | StartManager

text \<open>The calls \<^verbatim>\<open>main\<close> makes, in order, and its exit status.\<close>

definition start_manager :: "setup_results \<Rightarrow> setup_call list \<times> int" where
  "start_manager res =
     (case r_AddHealthz res of
        Some err \<Rightarrow> ([AddHealthzCheck ''healthz''], 1)
      | None \<Rightarrow>
          (case r_AddReadyz res of
             Some err \<Rightarrow> ([AddHealthzCheck ''healthz'', AddReadyzCheck ''readyz''], 1)
           | None \<Rightarrow>
               ([AddHealthzCheck ''healthz'', AddReadyzCheck ''readyz'', StartManager],
                case r_Start res of Some err \<Rightarrow> 1 | None \<Rightarrow> 0)))"

definition add_webhooks :: "flags \<Rightarrow> setup_results \<Rightarrow> setup_call list \<times> int" where
  "add_webhooks opts res =
     (if enableGateWebhook opts then
        let call = AddRunnable \<lparr>tm_namespace = operatorNamespace opts, tm_svcName = webhookSvcName opts\<rparr> (webhookAddr opts) in
        case r_AddRunnable res of
          Some err \<Rightarrow> ([call], 1)
        | None \<Rightarrow> apfst (Cons call) (start_manager res)
      else start_manager res)"

definition run_manager :: "flags \<Rightarrow> setup_results \<Rightarrow> setup_call list \<times> int" where
  "run_manager opts res =
     (case r_NewManager res of
        Some err \<Rightarrow> ([NewManager (manager_options opts)], 1)
      | None \<Rightarrow>
          (case SetupWithManager res of (regs, err) \<Rightarrow>
             let calls = NewManager (manager_options opts) # map Register regs in
             case err of
               Some err \<Rightarrow> (calls, 1)
             | None \<Rightarrow> apfst ((@) calls) (add_webhooks opts res)))"

definition main :: "(string \<Rightarrow> lib_flag option) \<Rightarrow> string list \<Rightarrow> setup_results \<Rightarrow> setup_call list \<times> int" where
  "main lib args res =
     (case parse_flags lib args default_flags of
        Inl err \<Rightarrow> ([], parse_exit err)
      | Inr opts \<Rightarrow> run_manager opts res)"

section \<open>The order of the calls\<close>

definition all_calls :: "flags \<Rightarrow> setup_call list" where
  "all_calls opts =
     [NewManager (manager_options opts),
      Register (IndexField indexDependentName dependent_index),
      Register (IndexField indexDependsOnName dependsOn_index),
      Register (BuildController ''workloaddependency'' WorkloadDependencies [Deployments, StatefulSets, CronJobs, Rollouts])] @
     (if enableGateWebhook opts
      then [AddRunnable \<lparr>tm_namespace = operatorNamespace opts, tm_svcName = webhookSvcName opts\<rparr> (webhookAddr opts)] else []) @
     [AddHealthzCheck ''healthz'', AddReadyzCheck ''readyz'', StartManager]"

text \<open>The result of a call.\<close>

fun failed :: "setup_results \<Rightarrow> setup_call \<Rightarrow> bool" where
  "failed res (NewManager _) \<longleftrightarrow> r_NewManager res \<noteq> None"
| "failed res (Register (IndexField name _)) \<longleftrightarrow> r_IndexField res name \<noteq> None"
| "failed res (Register (BuildController _ _ _)) \<longleftrightarrow> r_Complete res \<noteq> None"
| "failed res (AddRunnable _ _) \<longleftrightarrow> r_AddRunnable res \<noteq> None"
| "failed res (AddHealthzCheck _) \<longleftrightarrow> r_AddHealthz res \<noteq> None"
| "failed res (AddReadyzCheck _) \<longleftrightarrow> r_AddReadyz res \<noteq> None"
| "failed res StartManager \<longleftrightarrow> r_Start res \<noteq> None"

text \<open>The calls up to and including the first that fails.\<close>

fun until_failure :: "('a \<Rightarrow> bool) \<Rightarrow> 'a list \<Rightarrow> 'a list" where
  "until_failure bad [] = []"
| "until_failure bad (x # xs) = (if bad x then [x] else x # until_failure bad xs)"

lemma run_manager_order:
  "run_manager opts res = (until_failure (failed res) (all_calls opts), if list_ex (failed res) (all_calls opts) then 1 else 0)"
  by (cases "r_NewManager res"; cases "r_IndexField res indexDependentName"; cases "r_IndexField res indexDependsOnName";
      cases "r_Complete res"; cases "r_AddRunnable res"; cases "r_AddHealthz res"; cases "r_AddReadyz res"; cases "r_Start res")
     (simp_all add: run_manager_def all_calls_def SetupWithManager_def add_webhooks_def start_manager_def)


section \<open>HTTP/2\<close>

text \<open>The TLS configuration of the webhook server of \<^verbatim>\<open>server.go\<close>, which sets no protocols.\<close>

definition webhook_server_tls :: tls_Config where
  "webhook_server_tls = \<lparr>NextProtos = []\<rparr>"

text \<open>
  The protocols \<^verbatim>\<open>http.Server.ListenAndServeTLS\<close> negotiates for a server without \<^verbatim>\<open>TLSNextProto\<close>: HTTP/2 is
  configured, and both protocols are added where they are missing.
\<close>

definition listenAndServeTLS_protos :: "tls_Config \<Rightarrow> string list" where
  "listenAndServeTLS_protos c =
     (let with_h2 = (if ''h2'' \<in> set (NextProtos c) then NextProtos c else NextProtos c @ [''h2'']) in
      if ''http/1.1'' \<in> set with_h2 then with_h2 else with_h2 @ [''http/1.1''])"

text \<open>
  Without the flag that enables HTTP/2 the options of the metrics server and of the manager's
  webhook server restrict the protocols to HTTP/1.1, but the webhook server that answers admission
  reviews is not built from these options: it offers HTTP/2 whatever the flag.
\<close>

theorem http2_flag_misses_webhook_server:
  assumes "\<not> enableHTTP2 opts"
  shows "NextProtos (fold (\<lambda>f. f) (mso_TLSOpts (mo_Metrics (manager_options opts))) c) = [''http/1.1''] \<and>
    NextProtos (fold (\<lambda>f. f) (wso_TLSOpts (mo_WebhookServer (manager_options opts))) c) = [''http/1.1''] \<and>
    ''h2'' \<in> set (listenAndServeTLS_protos webhook_server_tls)"
  using assms
  by (simp add: manager_options_def metrics_options_def webhook_options_def tlsOpts_def disableHTTP2_def
      listenAndServeTLS_protos_def webhook_server_tls_def)

theorem http2_flag_misses_webhook_server_witness:
  "\<not> enableHTTP2 default_flags \<and> ''h2'' \<in> set (listenAndServeTLS_protos webhook_server_tls)"
  using http2_flag_misses_webhook_server [of default_flags "\<lparr>NextProtos = []\<rparr>"]
  by (simp add: default_flags_def)

end
