(* ===== verification/Deep_Copy.thy ===== *)
theory Deep_Copy
  imports API_Types "HOL-Library.State_Monad" "HOL-Library.Monad_Syntax"
begin

text \<open>
  \<^verbatim>\<open>api/v1alpha1/zz_generated.deepcopy.go\<close> on an explicit store.  A Go object of the API is a struct whose
  pointers and slices are addresses; \<open>view_*\<close> reads the value it denotes, which is the record of
  \<^verbatim>\<open>API_Types\<close>.  The lemmas show that a copy denotes the same value and shares no address with
  anything that existed before, so that a write through one of the two is never seen through the other: this is
  what lets the other theories treat objects as values.  The type metadata and the metadata of a list are left out, as in
  \<^verbatim>\<open>API_Types\<close>.
\<close>

section \<open>The store\<close>

type_synonym addr = nat

text \<open>
  A nil pointer or slice is \<open>None\<close>.  A slice is the address of its elements.  \<open>'m\<close> is the struct of the metadata, which
  belongs to a library, and \<open>'x\<close> what it points to.
\<close>

record mem_notify =
  mn_Webhook :: string
  mn_WebhookSecretRef :: "addr option"
  mn_OnPhases :: "addr option"

record mem_spec =
  ms_Dependent :: WorkloadRef
  ms_DependsOn :: "addr option"
  ms_OnDegraded :: OnDegradedSpec
  ms_Mode :: EnforcementMode
  ms_Notify :: "addr option"

record mem_status =
  mt_Phase :: DependencyPhase
  mt_SavedReplicas :: "addr option"
  mt_DegradedSince :: "addr option"
  mt_SuspendedAt :: "addr option"
  mt_HealthySince :: "addr option"
  mt_Message :: string
  mt_Conditions :: "addr option"

record 'm mem_wd =
  mw_Meta :: 'm
  mw_Spec :: mem_spec
  mw_Status :: mem_status

record mem_list =
  ml_Items :: "addr option"

datatype ('m, 'x) cell =
    CInt32 int32
  | CTime gotime
  | CWorkloadRef WorkloadRef
  | CHealthCondition HealthCondition
  | CDependsOnEntry DependsOnEntry
  | COnDegradedSpec OnDegradedSpec
  | CSecretKeyRef SecretKeyRef
  | CNotifySpec mem_notify
  | CSpec mem_spec
  | CStatus mem_status
  | CWorkloadDependency "'m mem_wd"
  | CWorkloadDependencyList mem_list
  | CPhases "DependencyPhase list"
  | CDependsOn "DependsOnEntry list"
  | CConditions "Condition list"
  | CItems "'m mem_wd list"
  | COther 'x

record ('m, 'x) heap =
  next_addr :: addr
  cells :: "addr \<rightharpoonup> ('m, 'x) cell"

type_synonym ('m, 'x, 'a) mem = "(('m, 'x) heap, 'a) state"

definition wf_heap :: "('m, 'x) heap \<Rightarrow> bool" where
  "wf_heap h \<longleftrightarrow> (\<forall>a \<in> dom (cells h). a < next_addr h)"

definition alloc :: "('m, 'x) cell \<Rightarrow> ('m, 'x, addr) mem" where
  "alloc c = State (\<lambda>h. (next_addr h, h\<lparr>next_addr := Suc (next_addr h), cells := (cells h)(next_addr h \<mapsto> c)\<rparr>))"

definition load :: "addr \<Rightarrow> ('m, 'x, ('m, 'x) cell option) mem" where
  "load a = State (\<lambda>h. (cells h a, h))"

definition write_cell :: "addr \<Rightarrow> ('m, 'x) cell \<Rightarrow> ('m, 'x) heap \<Rightarrow> ('m, 'x) heap" where
  "write_cell a c h = h\<lparr>cells := (cells h)(a \<mapsto> c)\<rparr>"

section \<open>Copying through pointers\<close>

text \<open>
  The pattern the generator uses for a pointer or slice: nil stays nil, anything else is copied to a new
  address, here filled when it is allocated.  \<open>put\<close> and \<open>get\<close> say of which type the cell is; a cell of another type cannot occur in a
  typed program, and \<open>view_ptr\<close> gives a pointer to one no value.
\<close>

definition copy_ptr ::
  "('a \<Rightarrow> ('m, 'x) cell) \<Rightarrow> (('m, 'x) cell \<Rightarrow> 'a option) \<Rightarrow> ('a \<Rightarrow> ('m, 'x, 'a) mem) \<Rightarrow> addr option \<Rightarrow> ('m, 'x, addr option) mem" where
  "copy_ptr put get f p =
     (case p of
        None \<Rightarrow> return None
      | Some a \<Rightarrow> do {
          c \<leftarrow> load a;
          case Option.bind c get of
            None \<Rightarrow> return None
          | Some x \<Rightarrow> do {
              y \<leftarrow> f x;
              b \<leftarrow> alloc (put y);
              return (Some b) } })"

fun copy_list :: "('a \<Rightarrow> ('m, 'x, 'a) mem) \<Rightarrow> 'a list \<Rightarrow> ('m, 'x, 'a list) mem" where
  "copy_list f [] = return []"
| "copy_list f (x # xs) = do { y \<leftarrow> f x; ys \<leftarrow> copy_list f xs; return (y # ys) }"

section \<open>The generated functions\<close>

text \<open>Structs without pointers: the assignment \<^verbatim>\<open>*out = *in\<close> copies them.\<close>

definition WorkloadRef_DeepCopyInto :: "WorkloadRef \<Rightarrow> ('m, 'x, WorkloadRef) mem" where
  "WorkloadRef_DeepCopyInto x = return x"

definition HealthCondition_DeepCopyInto :: "HealthCondition \<Rightarrow> ('m, 'x, HealthCondition) mem" where
  "HealthCondition_DeepCopyInto x = return x"

definition DependsOnEntry_DeepCopyInto :: "DependsOnEntry \<Rightarrow> ('m, 'x, DependsOnEntry) mem" where
  "DependsOnEntry_DeepCopyInto x = return x"

definition OnDegradedSpec_DeepCopyInto :: "OnDegradedSpec \<Rightarrow> ('m, 'x, OnDegradedSpec) mem" where
  "OnDegradedSpec_DeepCopyInto x = return x"

definition SecretKeyRef_DeepCopyInto :: "SecretKeyRef \<Rightarrow> ('m, 'x, SecretKeyRef) mem" where
  "SecretKeyRef_DeepCopyInto x = return x"

text \<open>The contents of a cell of a given type.\<close>

fun get_Int32 where "get_Int32 (CInt32 x) = Some x" | "get_Int32 _ = None"
fun get_Time where "get_Time (CTime x) = Some x" | "get_Time _ = None"
fun get_WorkloadRef where "get_WorkloadRef (CWorkloadRef x) = Some x" | "get_WorkloadRef _ = None"
fun get_HealthCondition where "get_HealthCondition (CHealthCondition x) = Some x" | "get_HealthCondition _ = None"
fun get_DependsOnEntry where "get_DependsOnEntry (CDependsOnEntry x) = Some x" | "get_DependsOnEntry _ = None"
fun get_OnDegradedSpec where "get_OnDegradedSpec (COnDegradedSpec x) = Some x" | "get_OnDegradedSpec _ = None"
fun get_SecretKeyRef where "get_SecretKeyRef (CSecretKeyRef x) = Some x" | "get_SecretKeyRef _ = None"
fun get_NotifySpec where "get_NotifySpec (CNotifySpec x) = Some x" | "get_NotifySpec _ = None"
fun get_Spec where "get_Spec (CSpec x) = Some x" | "get_Spec _ = None"
fun get_Status where "get_Status (CStatus x) = Some x" | "get_Status _ = None"
fun get_WorkloadDependency where
  "get_WorkloadDependency (CWorkloadDependency x) = Some x" | "get_WorkloadDependency _ = None"
fun get_WorkloadDependencyList where
  "get_WorkloadDependencyList (CWorkloadDependencyList x) = Some x" | "get_WorkloadDependencyList _ = None"
fun get_Phases where "get_Phases (CPhases x) = Some x" | "get_Phases _ = None"
fun get_DependsOn where "get_DependsOn (CDependsOn x) = Some x" | "get_DependsOn _ = None"
fun get_Conditions where "get_Conditions (CConditions x) = Some x" | "get_Conditions _ = None"
fun get_Items where "get_Items (CItems x) = Some x" | "get_Items _ = None"

text \<open>
  Structs with pointers.  \<^verbatim>\<open>metav1.Time\<close> and \<^verbatim>\<open>metav1.Condition\<close> have none, so their own copy functions copy the value.
\<close>

definition NotifySpec_DeepCopyInto :: "mem_notify \<Rightarrow> ('m, 'x, mem_notify) mem" where
  "NotifySpec_DeepCopyInto n = do {
     ref \<leftarrow> copy_ptr CSecretKeyRef get_SecretKeyRef return (mn_WebhookSecretRef n);
     phases \<leftarrow> copy_ptr CPhases get_Phases return (mn_OnPhases n);
     return (n\<lparr>mn_WebhookSecretRef := ref, mn_OnPhases := phases\<rparr>) }"

definition WorkloadDependencySpec_DeepCopyInto :: "mem_spec \<Rightarrow> ('m, 'x, mem_spec) mem" where
  "WorkloadDependencySpec_DeepCopyInto sp = do {
     deps \<leftarrow> copy_ptr CDependsOn get_DependsOn return (ms_DependsOn sp);
     notify \<leftarrow> copy_ptr CNotifySpec get_NotifySpec NotifySpec_DeepCopyInto (ms_Notify sp);
     return (sp\<lparr>ms_DependsOn := deps, ms_Notify := notify\<rparr>) }"

definition WorkloadDependencyStatus_DeepCopyInto :: "mem_status \<Rightarrow> ('m, 'x, mem_status) mem" where
  "WorkloadDependencyStatus_DeepCopyInto st = do {
     saved \<leftarrow> copy_ptr CInt32 get_Int32 return (mt_SavedReplicas st);
     degraded \<leftarrow> copy_ptr CTime get_Time return (mt_DegradedSince st);
     suspended \<leftarrow> copy_ptr CTime get_Time return (mt_SuspendedAt st);
     healthy \<leftarrow> copy_ptr CTime get_Time return (mt_HealthySince st);
     conds \<leftarrow> copy_ptr CConditions get_Conditions (copy_list return) (mt_Conditions st);
     return (st\<lparr>mt_SavedReplicas := saved, mt_DegradedSince := degraded, mt_SuspendedAt := suspended,
       mt_HealthySince := healthy, mt_Conditions := conds\<rparr>) }"

definition WorkloadDependency_DeepCopyInto ::
  "('m \<Rightarrow> ('m, 'x, 'm) mem) \<Rightarrow> 'm mem_wd \<Rightarrow> ('m, 'x, 'm mem_wd) mem" where
  "WorkloadDependency_DeepCopyInto ObjectMeta_DeepCopyInto w = do {
     meta \<leftarrow> ObjectMeta_DeepCopyInto (mw_Meta w);
     spec \<leftarrow> WorkloadDependencySpec_DeepCopyInto (mw_Spec w);
     status \<leftarrow> WorkloadDependencyStatus_DeepCopyInto (mw_Status w);
     return (w\<lparr>mw_Meta := meta, mw_Spec := spec, mw_Status := status\<rparr>) }"

definition WorkloadDependencyList_DeepCopyInto ::
  "('m \<Rightarrow> ('m, 'x, 'm) mem) \<Rightarrow> mem_list \<Rightarrow> ('m, 'x, mem_list) mem" where
  "WorkloadDependencyList_DeepCopyInto ObjectMeta_DeepCopyInto l = do {
     items \<leftarrow> copy_ptr CItems get_Items (copy_list (WorkloadDependency_DeepCopyInto ObjectMeta_DeepCopyInto)) (ml_Items l);
     return (l\<lparr>ml_Items := items\<rparr>) }"

text \<open>The methods \<^verbatim>\<open>DeepCopy\<close>: nil for nil, otherwise a new object.\<close>

definition WorkloadRef_DeepCopy :: "addr option \<Rightarrow> ('m, 'x, addr option) mem" where
  "WorkloadRef_DeepCopy = copy_ptr CWorkloadRef get_WorkloadRef WorkloadRef_DeepCopyInto"

definition HealthCondition_DeepCopy :: "addr option \<Rightarrow> ('m, 'x, addr option) mem" where
  "HealthCondition_DeepCopy = copy_ptr CHealthCondition get_HealthCondition HealthCondition_DeepCopyInto"

definition DependsOnEntry_DeepCopy :: "addr option \<Rightarrow> ('m, 'x, addr option) mem" where
  "DependsOnEntry_DeepCopy = copy_ptr CDependsOnEntry get_DependsOnEntry DependsOnEntry_DeepCopyInto"

definition OnDegradedSpec_DeepCopy :: "addr option \<Rightarrow> ('m, 'x, addr option) mem" where
  "OnDegradedSpec_DeepCopy = copy_ptr COnDegradedSpec get_OnDegradedSpec OnDegradedSpec_DeepCopyInto"

definition SecretKeyRef_DeepCopy :: "addr option \<Rightarrow> ('m, 'x, addr option) mem" where
  "SecretKeyRef_DeepCopy = copy_ptr CSecretKeyRef get_SecretKeyRef SecretKeyRef_DeepCopyInto"

definition NotifySpec_DeepCopy :: "addr option \<Rightarrow> ('m, 'x, addr option) mem" where
  "NotifySpec_DeepCopy = copy_ptr CNotifySpec get_NotifySpec NotifySpec_DeepCopyInto"

definition WorkloadDependencySpec_DeepCopy :: "addr option \<Rightarrow> ('m, 'x, addr option) mem" where
  "WorkloadDependencySpec_DeepCopy = copy_ptr CSpec get_Spec WorkloadDependencySpec_DeepCopyInto"

definition WorkloadDependencyStatus_DeepCopy :: "addr option \<Rightarrow> ('m, 'x, addr option) mem" where
  "WorkloadDependencyStatus_DeepCopy = copy_ptr CStatus get_Status WorkloadDependencyStatus_DeepCopyInto"

definition WorkloadDependency_DeepCopy ::
  "('m \<Rightarrow> ('m, 'x, 'm) mem) \<Rightarrow> addr option \<Rightarrow> ('m, 'x, addr option) mem" where
  "WorkloadDependency_DeepCopy ObjectMeta_DeepCopyInto =
     copy_ptr CWorkloadDependency get_WorkloadDependency (WorkloadDependency_DeepCopyInto ObjectMeta_DeepCopyInto)"

definition WorkloadDependencyList_DeepCopy ::
  "('m \<Rightarrow> ('m, 'x, 'm) mem) \<Rightarrow> addr option \<Rightarrow> ('m, 'x, addr option) mem" where
  "WorkloadDependencyList_DeepCopy ObjectMeta_DeepCopyInto =
     copy_ptr CWorkloadDependencyList get_WorkloadDependencyList (WorkloadDependencyList_DeepCopyInto ObjectMeta_DeepCopyInto)"

text \<open>The methods of the interface \<^verbatim>\<open>runtime.Object\<close>, where nil becomes the nil interface.\<close>

definition WorkloadDependency_DeepCopyObject ::
  "('m \<Rightarrow> ('m, 'x, 'm) mem) \<Rightarrow> addr option \<Rightarrow> ('m, 'x, addr option) mem" where
  "WorkloadDependency_DeepCopyObject ObjectMeta_DeepCopyInto p = do {
     c \<leftarrow> WorkloadDependency_DeepCopy ObjectMeta_DeepCopyInto p;
     case c of Some a \<Rightarrow> return (Some a) | None \<Rightarrow> return None }"

definition WorkloadDependencyList_DeepCopyObject ::
  "('m \<Rightarrow> ('m, 'x, 'm) mem) \<Rightarrow> addr option \<Rightarrow> ('m, 'x, addr option) mem" where
  "WorkloadDependencyList_DeepCopyObject ObjectMeta_DeepCopyInto p = do {
     c \<leftarrow> WorkloadDependencyList_DeepCopy ObjectMeta_DeepCopyInto p;
     case c of Some a \<Rightarrow> return (Some a) | None \<Rightarrow> return None }"

section \<open>The contract of a deep copy\<close>

lemma map_le_dom: "m \<subseteq>\<^sub>m m' \<Longrightarrow> A \<subseteq> dom m \<Longrightarrow> a \<in> A \<Longrightarrow> m' a = m a"
  by (auto simp: map_le_def subset_iff)

text \<open>
  \<open>view\<close> is the value of an object, if it has one, and \<open>reach\<close> the addresses it depends on.
\<close>

locale deep_copier =
  fixes copy :: "'a \<Rightarrow> ('m, 'x, 'a) mem"
    and view :: "('m, 'x) heap \<Rightarrow> 'a \<Rightarrow> 'v option"
    and reach :: "('m, 'x) heap \<Rightarrow> 'a \<Rightarrow> addr set"
  assumes reach_dom: "view h x = Some v \<Longrightarrow> reach h x \<subseteq> dom (cells h)"
    and frame: "(\<And>a. a \<in> reach h x \<Longrightarrow> cells h' a = cells h a) \<Longrightarrow> view h' x = view h x \<and> reach h' x = reach h x"
    and copied: "wf_heap h \<Longrightarrow> view h x = Some v \<Longrightarrow> run_state (copy x) h = (y, h') \<Longrightarrow>
      wf_heap h' \<and> cells h \<subseteq>\<^sub>m cells h' \<and> view h' y = Some v \<and> reach h' y \<inter> dom (cells h) = {}"
begin

lemma still_there:
  assumes "view h x = Some v" and "cells h \<subseteq>\<^sub>m cells h'"
  shows "view h' x = Some v \<and> reach h' x = reach h x"
  using assms(1) frame [OF map_le_dom [OF assms(2) reach_dom [OF assms(1)]]] by simp

text \<open>Writing anywhere the copy reaches does not change the original, nor the other way round.\<close>

lemma copy_isolated:
  assumes "wf_heap h" and "view h x = Some v" and "run_state (copy x) h = (y, h')"
  shows "a \<in> reach h' y \<Longrightarrow> view (write_cell a c h') x = Some v"
    and "a \<in> reach h x \<Longrightarrow> view (write_cell a c h') y = Some v"
proof -
  have c: "cells h \<subseteq>\<^sub>m cells h'" "view h' y = Some v" "reach h' y \<inter> dom (cells h) = {}"
    using copied [OF assms] by simp_all
  note d = reach_dom [OF assms(2)]
  show "view (write_cell a c h') x = Some v" if "a \<in> reach h' y"
  proof -
    have "cells (write_cell a c h') b = cells h b" if "b \<in> reach h x" for b
      using that \<open>a \<in> reach h' y\<close> c(3) d map_le_dom [OF c(1) d] by (auto simp: write_cell_def)
    with assms(2) frame show ?thesis by metis
  qed
  show "view (write_cell a c h') y = Some v" if "a \<in> reach h x"
  proof -
    have "cells (write_cell a c h') b = cells h' b" if "b \<in> reach h' y" for b
      using that \<open>a \<in> reach h x\<close> c(3) d by (auto simp: write_cell_def)
    with c(2) frame show ?thesis by metis
  qed
qed

end

text \<open>How contracts compose: plain values, two fields, lists, structs, and what a pointer points to.\<close>

definition view_flat :: "('m, 'x) heap \<Rightarrow> 'a \<Rightarrow> 'a option" where
  "view_flat h x = Some x"

definition reach_flat :: "('m, 'x) heap \<Rightarrow> 'a \<Rightarrow> addr set" where
  "reach_flat h x = {}"

lemma deep_copier_flat: "deep_copier return view_flat reach_flat"
  by unfold_locales (auto simp: view_flat_def reach_flat_def)

definition both :: "'a option \<Rightarrow> 'b option \<Rightarrow> ('a \<times> 'b) option" where
  "both x y = (case (x, y) of (Some a, Some b) \<Rightarrow> Some (a, b) | _ \<Rightarrow> None)"

lemma both_Some [simp]: "both x y = Some (a, b) \<longleftrightarrow> x = Some a \<and> y = Some b"
  by (auto simp: both_def split: option.splits)

definition copy_pair :: "('a \<Rightarrow> ('m, 'x, 'a) mem) \<Rightarrow> ('b \<Rightarrow> ('m, 'x, 'b) mem) \<Rightarrow> 'a \<times> 'b \<Rightarrow> ('m, 'x, 'a \<times> 'b) mem" where
  "copy_pair f g p = do { x \<leftarrow> f (fst p); y \<leftarrow> g (snd p); return (x, y) }"

definition view_pair where "view_pair v w h p = both (v h (fst p)) (w h (snd p))"

definition reach_pair where "reach_pair r q h p = r h (fst p) \<union> q h (snd p)"

lemma deep_copier_pair:
  fixes f :: "'a \<Rightarrow> ('m, 'x, 'a) mem"
  assumes "deep_copier f v r" and "deep_copier g w q"
  shows "deep_copier (copy_pair f g) (view_pair v w) (reach_pair r q)"
proof
  fix h p u
  assume "view_pair v w h p = Some u"
  then show "reach_pair r q h p \<subseteq> dom (cells h)"
    using deep_copier.reach_dom [OF assms(1)] deep_copier.reach_dom [OF assms(2)]
    by (cases u) (force simp: view_pair_def reach_pair_def)
next
  fix h h' :: "('m, 'x) heap" and p
  assume "\<And>a. a \<in> reach_pair r q h p \<Longrightarrow> cells h' a = cells h a"
  then show "view_pair v w h' p = view_pair v w h p \<and> reach_pair r q h' p = reach_pair r q h p"
    using deep_copier.frame [OF assms(1), of h "fst p" h'] deep_copier.frame [OF assms(2), of h "snd p" h']
    by (auto simp: view_pair_def reach_pair_def)
next
  fix h p u z h''
  assume h: "wf_heap h" and "view_pair v w h p = Some u" and run: "run_state (copy_pair f g p) h = (z, h'')"
  then obtain a b where u: "u = (a, b)" "v h (fst p) = Some a" "w h (snd p) = Some b"
    by (cases u) (auto simp: view_pair_def)
  obtain x h' where x: "run_state (f (fst p)) h = (x, h')" by force
  obtain y where y: "run_state (g (snd p)) h' = (y, h'')" and z: "z = (x, y)"
    using run x by (auto simp: copy_pair_def split: prod.splits)
  note 1 = deep_copier.copied [OF assms(1) h u(2) x]
  have "w h' (snd p) = Some b" using deep_copier.still_there [OF assms(2) u(3)] 1 by blast
  with 1 have 2: "wf_heap h'' \<and> cells h' \<subseteq>\<^sub>m cells h'' \<and> w h'' y = Some b \<and> q h'' y \<inter> dom (cells h') = {}"
    using deep_copier.copied [OF assms(2) _ _ y] by blast
  have 3: "v h'' x = Some a \<and> r h'' x = r h' x" using deep_copier.still_there [OF assms(1)] 1 2 by blast
  have "dom (cells h) \<subseteq> dom (cells h')" using 1 map_le_implies_dom_le by blast
  then have "q h'' y \<inter> dom (cells h) = {}" using 2 by blast
  with 1 2 3 u z show "wf_heap h'' \<and> cells h \<subseteq>\<^sub>m cells h'' \<and> view_pair v w h'' z = Some u \<and>
      reach_pair r q h'' z \<inter> dom (cells h) = {}"
    by (simp add: view_pair_def reach_pair_def Int_Un_distrib2) (meson map_le_trans)
qed

lemma deep_copier_struct:
  fixes f :: "'a \<Rightarrow> ('m, 'x, 'a) mem"
  assumes "deep_copier f v r" and "\<And>p x. ptrs (set_ptrs p x) = p" and "\<And>p x. mk (set_ptrs p x) = mk x"
  shows "deep_copier (\<lambda>x. do { p \<leftarrow> f (ptrs x); return (set_ptrs p x) })
    (\<lambda>h x. map_option (mk x) (v h (ptrs x))) (\<lambda>h x. r h (ptrs x))"
proof
  fix h x u
  assume "map_option (mk x) (v h (ptrs x)) = Some u"
  then obtain z where "v h (ptrs x) = Some z" by auto
  then show "r h (ptrs x) \<subseteq> dom (cells h)" by (rule deep_copier.reach_dom [OF assms(1)])
next
  fix h h' :: "('m, 'x) heap" and x
  assume "\<And>a. a \<in> r h (ptrs x) \<Longrightarrow> cells h' a = cells h a"
  from deep_copier.frame [OF assms(1) this]
  show "map_option (mk x) (v h' (ptrs x)) = map_option (mk x) (v h (ptrs x)) \<and> r h' (ptrs x) = r h (ptrs x)" by simp
next
  fix h x u y h'
  assume "wf_heap h" and "map_option (mk x) (v h (ptrs x)) = Some u"
    and "run_state (do { p \<leftarrow> f (ptrs x); return (set_ptrs p x) }) h = (y, h')"
  then obtain z p where z: "wf_heap h" "v h (ptrs x) = Some z" "run_state (f (ptrs x)) h = (p, h')"
    and "u = mk x z" "y = set_ptrs p x"
    by (auto split: prod.splits)
  with deep_copier.copied [OF assms(1) z] assms(2,3)
  show "wf_heap h' \<and> cells h \<subseteq>\<^sub>m cells h' \<and> map_option (mk y) (v h' (ptrs y)) = Some u \<and>
      r h' (ptrs y) \<inter> dom (cells h) = {}"
    by simp
qed

definition view_ptr where
  "view_ptr get v h p =
     (case p of
        None \<Rightarrow> Some None
      | Some a \<Rightarrow> (case Option.bind (cells h a) get of None \<Rightarrow> None | Some x \<Rightarrow> map_option Some (v h x)))"

definition reach_ptr where
  "reach_ptr get r h p =
     (case p of
        None \<Rightarrow> {}
      | Some a \<Rightarrow> insert a (case Option.bind (cells h a) get of None \<Rightarrow> {} | Some x \<Rightarrow> r h x))"

lemma alloc_fresh:
  assumes "wf_heap h" and "run_state (alloc c) h = (b, h')"
  shows "wf_heap h' \<and> b \<notin> dom (cells h) \<and> cells h \<subseteq>\<^sub>m cells h' \<and> cells h' b = Some c"
  using assms by (auto simp: alloc_def wf_heap_def map_le_def less_Suc_eq)

lemma deep_copier_ptr:
  fixes f :: "'a \<Rightarrow> ('m, 'x, 'a) mem"
  assumes "deep_copier f v r" and "\<And>y. get (put y) = Some y"
  shows "deep_copier (copy_ptr put get f) (view_ptr get v) (reach_ptr get r)"
proof
  fix h p u
  assume "view_ptr get v h p = Some u"
  then show "reach_ptr get r h p \<subseteq> dom (cells h)"
    using deep_copier.reach_dom [OF assms(1)]
    by (fastforce simp: view_ptr_def reach_ptr_def bind_eq_Some_conv split: option.splits)
next
  fix h h' :: "('m, 'x) heap" and p
  assume s: "\<And>a. a \<in> reach_ptr get r h p \<Longrightarrow> cells h' a = cells h a"
  show "view_ptr get v h' p = view_ptr get v h p \<and> reach_ptr get r h' p = reach_ptr get r h p"
  proof (cases p)
    case (Some a)
    with s have a: "cells h' a = cells h a" by (simp add: reach_ptr_def)
    show ?thesis
    proof (cases "Option.bind (cells h a) get")
      case None
      with Some a show ?thesis by (simp add: view_ptr_def reach_ptr_def)
    next
      case (Some x)
      with s \<open>p = Some a\<close> have "\<And>b. b \<in> r h x \<Longrightarrow> cells h' b = cells h b" by (simp add: reach_ptr_def)
      from deep_copier.frame [OF assms(1) this] Some \<open>p = Some a\<close> a show ?thesis
        by (simp add: view_ptr_def reach_ptr_def)
    qed
  qed (simp add: view_ptr_def reach_ptr_def)
next
  fix h p u q h''
  assume h: "wf_heap h" and u: "view_ptr get v h p = Some u" and run: "run_state (copy_ptr put get f p) h = (q, h'')"
  show "wf_heap h'' \<and> cells h \<subseteq>\<^sub>m cells h'' \<and> view_ptr get v h'' q = Some u \<and> reach_ptr get r h'' q \<inter> dom (cells h) = {}"
  proof (cases p)
    case None
    with h u run show ?thesis by (auto simp: copy_ptr_def view_ptr_def reach_ptr_def)
  next
    case (Some a)
    with u obtain x w where x: "Option.bind (cells h a) get = Some x" "v h x = Some w" "u = Some w"
      by (auto simp: view_ptr_def split: option.splits)
    obtain y h' where y: "run_state (f x) h = (y, h')" by force
    obtain b where b: "run_state (alloc (put y)) h' = (b, h'')" and q: "q = Some b"
      using run Some x(1) y by (auto simp: copy_ptr_def load_def split: prod.splits)
    note 1 = deep_copier.copied [OF assms(1) h x(2) y]
    have 2: "wf_heap h'' \<and> b \<notin> dom (cells h') \<and> cells h' \<subseteq>\<^sub>m cells h'' \<and> cells h'' b = Some (put y)"
      using alloc_fresh [OF _ b] 1 by blast
    have 3: "v h'' y = Some w \<and> r h'' y = r h' y" using deep_copier.still_there [OF assms(1)] 1 2 by blast
    have "dom (cells h) \<subseteq> dom (cells h')" using 1 map_le_implies_dom_le by blast
    with 2 have "b \<notin> dom (cells h)" by blast
    with 1 2 3 x(3) q assms(2) show ?thesis
      by (simp add: view_ptr_def reach_ptr_def) (meson map_le_trans)
  qed
qed

fun view_list where
  "view_list v h [] = Some []"
| "view_list v h (x # xs) = map_option (\<lambda>(a, as). a # as) (both (v h x) (view_list v h xs))"

fun reach_list where
  "reach_list r h [] = {}"
| "reach_list r h (x # xs) = r h x \<union> reach_list r h xs"

lemma view_list_Cons_Some: "view_list v h (x # xs) = Some u \<longleftrightarrow>
    (\<exists>a as. u = a # as \<and> v h x = Some a \<and> view_list v h xs = Some as)"
  by (auto simp: both_def split: option.splits)

lemma deep_copier_list:
  fixes f :: "'a \<Rightarrow> ('m, 'x, 'a) mem"
  assumes "deep_copier f v r"
  shows "deep_copier (copy_list f) (view_list v) (reach_list r)"
proof
  show dom: "reach_list r h xs \<subseteq> dom (cells h)" if "view_list v h xs = Some u" for h xs u
    using that
  proof (induction xs arbitrary: u)
    case (Cons x xs)
    then obtain a as where "v h x = Some a" "view_list v h xs = Some as"
      unfolding view_list_Cons_Some by blast
    with Cons.IH deep_copier.reach_dom [OF assms] show ?case by simp
  qed simp
  show frame: "view_list v h' xs = view_list v h xs \<and> reach_list r h' xs = reach_list r h xs"
    if "\<And>a. a \<in> reach_list r h xs \<Longrightarrow> cells h' a = cells h a" for h h' :: "('m, 'x) heap" and xs
    using that
  proof (induction xs)
    case (Cons x xs)
    have "v h' x = v h x \<and> r h' x = r h x" by (rule deep_copier.frame [OF assms]) (simp add: Cons.prems)
    moreover have "view_list v h' xs = view_list v h xs \<and> reach_list r h' xs = reach_list r h xs"
      by (rule Cons.IH) (simp add: Cons.prems)
    ultimately show ?case by simp
  qed simp
  show "wf_heap h'' \<and> cells h \<subseteq>\<^sub>m cells h'' \<and> view_list v h'' ys = Some u \<and> reach_list r h'' ys \<inter> dom (cells h) = {}"
    if "wf_heap h" "view_list v h xs = Some u" "run_state (copy_list f xs) h = (ys, h'')" for h xs u ys h''
    using that
  proof (induction xs arbitrary: h u ys h'')
    case Nil
    then show ?case by auto
  next
    case (Cons x xs)
    then obtain a as where u: "u = a # as" "v h x = Some a" "view_list v h xs = Some as"
      unfolding view_list_Cons_Some by blast
    obtain y h' where y: "run_state (f x) h = (y, h')" by force
    obtain zs where zs: "run_state (copy_list f xs) h' = (zs, h'')" and ys: "ys = y # zs"
      using Cons.prems(3) y by (auto split: prod.splits)
    note 1 = deep_copier.copied [OF assms Cons.prems(1) u(2) y]
    have "view_list v h' xs = Some as"
      using frame [of h xs h'] map_le_dom [OF _ dom [OF u(3)], of "cells h'"] 1 u(3) by simp
    with 1 Cons.IH [OF _ _ zs] have 2: "wf_heap h'' \<and> cells h' \<subseteq>\<^sub>m cells h'' \<and> view_list v h'' zs = Some as \<and>
        reach_list r h'' zs \<inter> dom (cells h') = {}" by blast
    have 3: "v h'' y = Some a \<and> r h'' y = r h' y" using deep_copier.still_there [OF assms] 1 2 by blast
    have "dom (cells h) \<subseteq> dom (cells h')" using 1 map_le_implies_dom_le by blast
    then have "reach_list r h'' zs \<inter> dom (cells h) = {}" using 2 by blast
    moreover have "view_list v h'' ys = Some u" using 2 3 u(1) ys unfolding view_list_Cons_Some by simp
    ultimately show ?case using 1 2 3 ys by (simp add: Int_Un_distrib2 del: view_list.simps) (meson map_le_trans)
  qed
qed

section \<open>The values of the API objects\<close>

text \<open>A nil slice has the elements of an empty one.\<close>

definition elements :: "'a list option \<Rightarrow> 'a list" where
  "elements p = (case p of None \<Rightarrow> [] | Some xs \<Rightarrow> xs)"

definition notify_ptrs :: "mem_notify \<Rightarrow> addr option \<times> addr option" where
  "notify_ptrs n = (mn_WebhookSecretRef n, mn_OnPhases n)"

definition view_NotifySpec :: "('m, 'x) heap \<Rightarrow> mem_notify \<Rightarrow> NotifySpec option" where
  "view_NotifySpec h n =
     map_option (\<lambda>(ref, phases). \<lparr>Webhook = mn_Webhook n, WebhookSecretRef = ref, OnPhases = elements phases\<rparr>)
       (view_pair (view_ptr get_SecretKeyRef view_flat) (view_ptr get_Phases view_flat) h (notify_ptrs n))"

definition reach_NotifySpec :: "('m, 'x) heap \<Rightarrow> mem_notify \<Rightarrow> addr set" where
  "reach_NotifySpec h n =
     reach_pair (reach_ptr get_SecretKeyRef reach_flat) (reach_ptr get_Phases reach_flat) h (notify_ptrs n)"

definition spec_ptrs :: "mem_spec \<Rightarrow> addr option \<times> addr option" where
  "spec_ptrs sp = (ms_DependsOn sp, ms_Notify sp)"

definition view_Spec :: "('m, 'x) heap \<Rightarrow> mem_spec \<Rightarrow> WorkloadDependencySpec option" where
  "view_Spec h sp =
     map_option (\<lambda>(deps, notify). \<lparr>Dependent = ms_Dependent sp, DependsOn = elements deps, OnDegraded = ms_OnDegraded sp,
         Mode = ms_Mode sp, Notify = notify\<rparr>)
       (view_pair (view_ptr get_DependsOn view_flat) (view_ptr get_NotifySpec view_NotifySpec) h (spec_ptrs sp))"

definition reach_Spec :: "('m, 'x) heap \<Rightarrow> mem_spec \<Rightarrow> addr set" where
  "reach_Spec h sp =
     reach_pair (reach_ptr get_DependsOn reach_flat) (reach_ptr get_NotifySpec reach_NotifySpec) h (spec_ptrs sp)"

definition status_ptrs where
  "status_ptrs st = (mt_SavedReplicas st, mt_DegradedSince st, mt_SuspendedAt st, mt_HealthySince st, mt_Conditions st)"

definition view_Status :: "('m, 'x) heap \<Rightarrow> mem_status \<Rightarrow> WorkloadDependencyStatus option" where
  "view_Status h st =
     map_option (\<lambda>(saved, degraded, suspended, healthy, conds).
         \<lparr>Phase = mt_Phase st, SavedReplicas = saved, DegradedSince = degraded, SuspendedAt = suspended,
          HealthySince = healthy, st_Message = mt_Message st, Conditions = elements conds\<rparr>)
       (view_pair (view_ptr get_Int32 view_flat) (view_pair (view_ptr get_Time view_flat)
         (view_pair (view_ptr get_Time view_flat) (view_pair (view_ptr get_Time view_flat)
           (view_ptr get_Conditions (view_list view_flat))))) h (status_ptrs st))"

definition reach_Status :: "('m, 'x) heap \<Rightarrow> mem_status \<Rightarrow> addr set" where
  "reach_Status h st =
     reach_pair (reach_ptr get_Int32 reach_flat) (reach_pair (reach_ptr get_Time reach_flat)
       (reach_pair (reach_ptr get_Time reach_flat) (reach_pair (reach_ptr get_Time reach_flat)
         (reach_ptr get_Conditions (reach_list reach_flat))))) h (status_ptrs st)"

text \<open>The metadata's value and addresses are those its library defines.\<close>

definition wd_parts :: "'m mem_wd \<Rightarrow> 'm \<times> mem_spec \<times> mem_status" where
  "wd_parts w = (mw_Meta w, mw_Spec w, mw_Status w)"

definition view_WD :: "(('m, 'x) heap \<Rightarrow> 'm \<Rightarrow> ObjectMeta option) \<Rightarrow> ('m, 'x) heap \<Rightarrow> 'm mem_wd \<Rightarrow> WorkloadDependency option" where
  "view_WD view_meta h w =
     map_option (\<lambda>(meta, spec, status). \<lparr>wd_Meta = meta, wd_Spec = spec, wd_Status = status\<rparr>)
       (view_pair view_meta (view_pair view_Spec view_Status) h (wd_parts w))"

definition reach_WD :: "(('m, 'x) heap \<Rightarrow> 'm \<Rightarrow> addr set) \<Rightarrow> ('m, 'x) heap \<Rightarrow> 'm mem_wd \<Rightarrow> addr set" where
  "reach_WD reach_meta h w = reach_pair reach_meta (reach_pair reach_Spec reach_Status) h (wd_parts w)"

section \<open>The generated functions meet the contract\<close>

text \<open>Each is the copy of its pointers, put into the struct.\<close>

lemma NotifySpec_struct: "NotifySpec_DeepCopyInto = (\<lambda>n. do {
    p \<leftarrow> copy_pair (copy_ptr CSecretKeyRef get_SecretKeyRef return) (copy_ptr CPhases get_Phases return) (notify_ptrs n);
    return (n\<lparr>mn_WebhookSecretRef := fst p, mn_OnPhases := snd p\<rparr>) })"
  by (simp add: fun_eq_iff NotifySpec_DeepCopyInto_def copy_pair_def notify_ptrs_def)

lemma deep_copier_NotifySpec: "deep_copier NotifySpec_DeepCopyInto view_NotifySpec reach_NotifySpec"
  unfolding NotifySpec_struct view_NotifySpec_def [abs_def] reach_NotifySpec_def [abs_def]
  by (intro deep_copier_struct deep_copier_pair deep_copier_ptr deep_copier_flat) (simp_all add: notify_ptrs_def)

lemma Spec_struct: "WorkloadDependencySpec_DeepCopyInto = (\<lambda>sp. do {
    p \<leftarrow> copy_pair (copy_ptr CDependsOn get_DependsOn return) (copy_ptr CNotifySpec get_NotifySpec NotifySpec_DeepCopyInto) (spec_ptrs sp);
    return (sp\<lparr>ms_DependsOn := fst p, ms_Notify := snd p\<rparr>) })"
  by (simp add: fun_eq_iff WorkloadDependencySpec_DeepCopyInto_def copy_pair_def spec_ptrs_def)

lemma deep_copier_Spec: "deep_copier WorkloadDependencySpec_DeepCopyInto view_Spec reach_Spec"
  unfolding Spec_struct view_Spec_def [abs_def] reach_Spec_def [abs_def]
  by (intro deep_copier_struct deep_copier_pair deep_copier_ptr deep_copier_flat deep_copier_NotifySpec)
     (simp_all add: spec_ptrs_def)

lemma Status_struct: "WorkloadDependencyStatus_DeepCopyInto = (\<lambda>st. do {
    p \<leftarrow> copy_pair (copy_ptr CInt32 get_Int32 return) (copy_pair (copy_ptr CTime get_Time return)
      (copy_pair (copy_ptr CTime get_Time return) (copy_pair (copy_ptr CTime get_Time return)
        (copy_ptr CConditions get_Conditions (copy_list return))))) (status_ptrs st);
    return (st\<lparr>mt_SavedReplicas := fst p, mt_DegradedSince := fst (snd p), mt_SuspendedAt := fst (snd (snd p)),
      mt_HealthySince := fst (snd (snd (snd p))), mt_Conditions := snd (snd (snd (snd p)))\<rparr>) })"
  by (simp add: fun_eq_iff WorkloadDependencyStatus_DeepCopyInto_def copy_pair_def status_ptrs_def)

lemma deep_copier_Status: "deep_copier WorkloadDependencyStatus_DeepCopyInto view_Status reach_Status"
  unfolding Status_struct view_Status_def [abs_def] reach_Status_def [abs_def]
  by (intro deep_copier_struct deep_copier_pair deep_copier_ptr deep_copier_list deep_copier_flat)
     (simp_all add: status_ptrs_def)

lemma WD_struct: "WorkloadDependency_DeepCopyInto copyMeta = (\<lambda>w. do {
    p \<leftarrow> copy_pair copyMeta (copy_pair WorkloadDependencySpec_DeepCopyInto WorkloadDependencyStatus_DeepCopyInto) (wd_parts w);
    return (w\<lparr>mw_Meta := fst p, mw_Spec := fst (snd p), mw_Status := snd (snd p)\<rparr>) })"
  by (simp add: fun_eq_iff WorkloadDependency_DeepCopyInto_def copy_pair_def wd_parts_def)

lemma deep_copier_WD:
  "deep_copier copyMeta view_meta reach_meta \<Longrightarrow>
    deep_copier (WorkloadDependency_DeepCopyInto copyMeta) (view_WD view_meta) (reach_WD reach_meta)"
  unfolding WD_struct view_WD_def [abs_def] reach_WD_def [abs_def]
  by (intro deep_copier_struct deep_copier_pair deep_copier_Spec deep_copier_Status) (simp_all add: wd_parts_def)

interpretation spec_copy: deep_copier WorkloadDependencySpec_DeepCopyInto view_Spec reach_Spec
  by (rule deep_copier_Spec)

interpretation status_copy: deep_copier WorkloadDependencyStatus_DeepCopyInto view_Status reach_Status
  by (rule deep_copier_Status)

text \<open>The same through a pointer, and for lists of objects.\<close>

definition view_List where
  "view_List view_meta h l = map_option elements (view_ptr get_Items (view_list (view_WD view_meta)) h (ml_Items l))"

definition reach_List where
  "reach_List reach_meta h l = reach_ptr get_Items (reach_list (reach_WD reach_meta)) h (ml_Items l)"

lemma deep_copier_List:
  "deep_copier copyMeta view_meta reach_meta \<Longrightarrow>
    deep_copier (WorkloadDependencyList_DeepCopyInto copyMeta) (view_List view_meta) (reach_List reach_meta)"
  unfolding WorkloadDependencyList_DeepCopyInto_def [abs_def] view_List_def [abs_def] reach_List_def [abs_def]
  by (intro deep_copier_struct deep_copier_ptr deep_copier_list deep_copier_WD) simp_all

abbreviation view_WD_ptr where "view_WD_ptr view_meta \<equiv> view_ptr get_WorkloadDependency (view_WD view_meta)"

abbreviation reach_WD_ptr where "reach_WD_ptr reach_meta \<equiv> reach_ptr get_WorkloadDependency (reach_WD reach_meta)"

lemma deep_copier_WD_ptr:
  "deep_copier copyMeta view_meta reach_meta \<Longrightarrow>
    deep_copier (WorkloadDependency_DeepCopy copyMeta) (view_WD_ptr view_meta) (reach_WD_ptr reach_meta)"
  unfolding WorkloadDependency_DeepCopy_def by (intro deep_copier_ptr deep_copier_WD) simp_all

lemma case_return: "(\<lambda>c. case c of Some a \<Rightarrow> return (Some a) | None \<Rightarrow> return None) = return"
  by (simp add: fun_eq_iff split: option.split)

lemma DeepCopyObject_eq: "WorkloadDependency_DeepCopyObject copyMeta = WorkloadDependency_DeepCopy copyMeta"
  by (intro ext) (simp only: WorkloadDependency_DeepCopyObject_def case_return bind_right_identity)

lemma deep_copier_List_ptr:
  "deep_copier copyMeta view_meta reach_meta \<Longrightarrow>
    deep_copier (WorkloadDependencyList_DeepCopy copyMeta)
      (view_ptr get_WorkloadDependencyList (view_List view_meta)) (reach_ptr get_WorkloadDependencyList (reach_List reach_meta))"
  unfolding WorkloadDependencyList_DeepCopy_def by (intro deep_copier_ptr deep_copier_List) simp_all

text \<open>
  C39.  If the library copies metadata deeply, then \<open>DeepCopyObject\<close> of an object (or of nil) denotes the same value as the
  original, and no later write to anything the copy reaches changes the original, nor a write to anything the original
  reaches the copy.
\<close>

theorem DeepCopy_isolated:
  assumes "deep_copier copyMeta view_meta reach_meta" and "wf_heap h" and "view_WD_ptr view_meta h p = Some v"
    and "run_state (WorkloadDependency_DeepCopyObject copyMeta p) h = (q, h')"
  shows "view_WD_ptr view_meta h' q = Some v \<and>
    (\<forall>a c. a \<in> reach_WD_ptr reach_meta h' q \<longrightarrow> view_WD_ptr view_meta (write_cell a c h') p = Some v) \<and>
    (\<forall>a c. a \<in> reach_WD_ptr reach_meta h p \<longrightarrow> view_WD_ptr view_meta (write_cell a c h') q = Some v)"
proof -
  note copier = deep_copier_WD_ptr [OF assms(1), folded DeepCopyObject_eq]
  show ?thesis
    using deep_copier.copied [OF copier assms(2-4)] deep_copier.copy_isolated [OF copier assms(2-4)] by blast
qed

text \<open>
  The same holds for a list of objects, which is what the cache hands to the webhook and to the index
  lookups: every element of the copy is independent of the original.
\<close>

lemma List_DeepCopy_isolated:
  assumes "deep_copier copyMeta view_meta reach_meta" and "wf_heap h"
    and "view_ptr get_WorkloadDependencyList (view_List view_meta) h p = Some wds"
    and "run_state (WorkloadDependencyList_DeepCopy copyMeta p) h = (q, h')"
  shows "view_ptr get_WorkloadDependencyList (view_List view_meta) h' q = Some wds \<and>
    (\<forall>a c. a \<in> reach_ptr get_WorkloadDependencyList (reach_List reach_meta) h' q \<longrightarrow>
       view_ptr get_WorkloadDependencyList (view_List view_meta) (write_cell a c h') p = Some wds)"
proof -
  note copier = deep_copier_List_ptr [OF assms(1)]
  show ?thesis
    using deep_copier.copied [OF copier assms(2-4)] deep_copier.copy_isolated(1) [OF copier assms(2-4)] by blast
qed

section \<open>Witnesses\<close>

text \<open>Metadata with a name, a namespace, and a slice of finalizers.\<close>

record sample_metadata =
  sm_Name :: string
  sm_Namespace :: string
  sm_Finalizers :: "addr option"

fun get_Other where "get_Other (COther x) = Some x" | "get_Other _ = None"

definition copy_metadata :: "sample_metadata \<Rightarrow> (sample_metadata, string list, sample_metadata) mem" where
  "copy_metadata m = do {
     p \<leftarrow> copy_ptr COther get_Other return (sm_Finalizers m);
     return (m\<lparr>sm_Finalizers := p\<rparr>) }"

definition view_metadata :: "(sample_metadata, string list) heap \<Rightarrow> sample_metadata \<Rightarrow> ObjectMeta option" where
  "view_metadata h m =
     map_option (\<lambda>fins. \<lparr>meta_Name = sm_Name m, meta_Namespace = sm_Namespace m, meta_Annotations = Map.empty,
         meta_Finalizers = elements fins, meta_DeletionTimestamp = None, meta_Generation = 0, meta_ResourceVersion = ''''\<rparr>)
       (view_ptr get_Other view_flat h (sm_Finalizers m))"

definition reach_metadata :: "(sample_metadata, string list) heap \<Rightarrow> sample_metadata \<Rightarrow> addr set" where
  "reach_metadata h m = reach_ptr get_Other reach_flat h (sm_Finalizers m)"

interpretation metadata_copy: deep_copier copy_metadata view_metadata reach_metadata
  unfolding copy_metadata_def [abs_def] view_metadata_def [abs_def] reach_metadata_def [abs_def]
  by (intro deep_copier_struct deep_copier_ptr deep_copier_flat) simp_all

text \<open>A suspended object at address 2, with its finalizers at 0 and its saved replicas at 1.\<close>

definition sample_mem_wd :: "sample_metadata mem_wd" where
  "sample_mem_wd =
    \<lparr>mw_Meta = \<lparr>sm_Name = ''w'', sm_Namespace = ''ns'', sm_Finalizers = Some 0\<rparr>,
     mw_Spec = \<lparr>ms_Dependent = \<lparr>ref_Kind = ''Deployment'', ref_Name = ''a'', ref_Namespace = ''''\<rparr>, ms_DependsOn = None,
       ms_OnDegraded = \<lparr>od_Action = ActionScaleToZero, MaxSuspendDuration = 0\<rparr>, ms_Mode = ModeStrict, ms_Notify = None\<rparr>,
     mw_Status = \<lparr>mt_Phase = PhaseSuspended, mt_SavedReplicas = Some 1, mt_DegradedSince = None, mt_SuspendedAt = None,
       mt_HealthySince = None, mt_Message = '''', mt_Conditions = None\<rparr>\<rparr>"

definition sample_heap :: "(sample_metadata, string list) heap" where
  "sample_heap = \<lparr>next_addr = 3, cells = [0 \<mapsto> COther [FinalizerName], 1 \<mapsto> CInt32 3, 2 \<mapsto> CWorkloadDependency sample_mem_wd]\<rparr>"

definition saved_of :: "WorkloadDependency option option \<Rightarrow> int32 option" where
  "saved_of v = Option.bind (Option.bind v id) (\<lambda>wd. SavedReplicas (wd_Status wd))"

theorem DeepCopy_isolated_witness:
  "\<exists>q h'. run_state (WorkloadDependency_DeepCopyObject copy_metadata (Some 2)) sample_heap = (q, h') \<and>
     saved_of (view_WD_ptr view_metadata h' q) = Some 3 \<and>
     (\<forall>a c. a \<in> reach_WD_ptr reach_metadata h' q \<longrightarrow>
        saved_of (view_WD_ptr view_metadata (write_cell a c h') (Some 2)) = Some 3)"
proof -
  obtain q h' where r: "run_state (WorkloadDependency_DeepCopyObject copy_metadata (Some 2)) sample_heap = (q, h')" by force
  have w: "wf_heap sample_heap" by (simp add: wf_heap_def sample_heap_def)
  obtain v where v: "view_WD_ptr view_metadata sample_heap (Some 2) = Some v" and s: "saved_of (Some v) = Some 3"
    by (simp add: view_ptr_def view_WD_def view_pair_def wd_parts_def view_metadata_def view_Spec_def view_Status_def
        spec_ptrs_def status_ptrs_def view_flat_def both_def sample_heap_def sample_mem_wd_def saved_of_def)
  from DeepCopy_isolated [OF metadata_copy.deep_copier_axioms w v r] r s show ?thesis by auto
qed

definition list_heap :: "(sample_metadata, string list) heap" where
  "list_heap = \<lparr>next_addr = 5, cells = (cells sample_heap)(3 \<mapsto> CItems [sample_mem_wd], 4 \<mapsto> CWorkloadDependencyList \<lparr>ml_Items = Some 3\<rparr>)\<rparr>"

lemma List_DeepCopy_isolated_witness:
  "\<exists>q h' wd. run_state (WorkloadDependencyList_DeepCopy copy_metadata (Some 4)) list_heap = (q, h') \<and> wd_Name wd = ''w'' \<and>
     (\<forall>a c. a \<in> reach_ptr get_WorkloadDependencyList (reach_List reach_metadata) h' q \<longrightarrow>
        view_ptr get_WorkloadDependencyList (view_List view_metadata) (write_cell a c h') (Some 4) = Some (Some [wd]))"
proof -
  obtain q h' where r: "run_state (WorkloadDependencyList_DeepCopy copy_metadata (Some 4)) list_heap = (q, h')" by force
  have w: "wf_heap list_heap" by (simp add: wf_heap_def list_heap_def sample_heap_def)
  obtain wd where v: "view_ptr get_WorkloadDependencyList (view_List view_metadata) list_heap (Some 4) = Some (Some [wd])"
    and n: "wd_Name wd = ''w''"
    by (simp add: view_ptr_def view_List_def view_WD_def view_pair_def wd_parts_def view_metadata_def view_Spec_def view_Status_def
        spec_ptrs_def status_ptrs_def view_flat_def both_def elements_def list_heap_def sample_heap_def sample_mem_wd_def)
  from List_DeepCopy_isolated [OF metadata_copy.deep_copier_axioms w v r] r n show ?thesis by auto
qed

end
