(* ===== verification/Spec2Isabelle.thy ===== *)
theory Spec2Isabelle
  imports Operation Manager Deep_Copy
begin

text \<open>
  A verification of klink, a Kubernetes operator that suspends a workload while the workloads it depends on are
  unhealthy and restores it afterwards.  The sources are the Go packages \<^verbatim>\<open>api/v1alpha1\<close>,
  \<^verbatim>\<open>internal/controller\<close>, \<^verbatim>\<open>internal/webhook\<close> and \<^verbatim>\<open>cmd\<close> under \<^verbatim>\<open>src/\<close>.

  \<^bold>\<open>The program.\<close>  A \<^verbatim>\<open>WorkloadDependency\<close> names a dependent workload, the workloads it depends on, and how to
  react.  The reconciler (\<^verbatim>\<open>internal/controller\<close>) reads such an object and the workloads, scales the dependent to zero
  after its dependencies were unhealthy for a window, saves the replica count in the object's status, and scales it
  back after they were healthy for another window.  Changes of workloads are mapped to the objects that mention them
  through two field indexes.  A new object is checked for dependency cycles.  Phase changes update metrics and may be
  announced to an HTTP endpoint.  Two admission webhooks (\<^verbatim>\<open>internal/webhook\<close>) run beside the reconciler: the gate refuses to
  scale up a workload while a dependency is unhealthy, the validator refuses malformed objects.  They are served over TLS with a
  self-signed certificate the program generates, stores in a Secret, publishes to the API server, and rotates.
  \<^verbatim>\<open>cmd/main.go\<close> turns flags into the options of the library that runs all of this.

  \<^bold>\<open>The model.\<close>  Code that the sources call but do not contain (the API server, the clock, HTTP,
  cryptography and codecs, helpers of the Kubernetes libraries) is a record of functions over an arbitrary environment,
  \<^verbatim>\<open>kube\<close> in \<^verbatim>\<open>Kube\<close> and \<^verbatim>\<open>pki\<close> in \<^verbatim>\<open>TLS\<close>; a theorem that holds for every such record holds whatever the
  API server answers, whoever else writes meanwhile, and however the clock moves.  Where a theorem needs more, it is a named
  hypothesis (\<^verbatim>\<open>quiet\<close>, \<^verbatim>\<open>accepting\<close>, \<^verbatim>\<open>api_store\<close>, \<^verbatim>\<open>responsive\<close>, \<^verbatim>\<open>x509_laws\<close>, \<^verbatim>\<open>runs_forward\<close>, \<^verbatim>\<open>serves_from_cache\<close>), and its witness instantiates the record
  with the cluster of \<^verbatim>\<open>Memory_Cluster\<close> or the interface \<^verbatim>\<open>mem_pki\<close>.  A Go function with effects is a computation of
  type \<^verbatim>\<open>go\<close>, a state monad over the environment, the trace of visible actions, and the metrics; its
  errors are values.  Machine integers are words (\<^verbatim>\<open>int32\<close>, \<^verbatim>\<open>int64\<close>, durations), points in time are integers in
  nanoseconds whose difference saturates as in Go, and a double is a dyadic fraction rounded to 53 bits.

  \<^descr> \<^verbatim>\<open>Prelude\<close>: machine integers, time, strings, the weakest-precondition rules of the state monad.
  \<^descr> \<^verbatim>\<open>Float64\<close>: the double arithmetic of \<^verbatim>\<open>depStatus\<close> and \<^verbatim>\<open>checkReplicaHealth\<close>; the percentage of ready replicas is
    within one of the exact quotient, and exact at 100.
  \<^descr> \<^verbatim>\<open>API_Types\<close>: \<^verbatim>\<open>api/v1alpha1/workloaddependency_types.go\<close>, a record or datatype per Go type.
  \<^descr> \<^verbatim>\<open>Deep_Copy\<close>: \<^verbatim>\<open>api/v1alpha1/zz_generated.deepcopy.go\<close> on an explicit store; copies are equal and share nothing with the
    original, which justifies treating objects as values elsewhere.
  \<^descr> \<^verbatim>\<open>Workload\<close>: the accessors of \<^verbatim>\<open>workloaddependency_controller.go\<close> and \<^verbatim>\<open>rollout.go\<close> for the four kinds of workload, behind one
    interface whose laws are a locale.
  \<^descr> \<^verbatim>\<open>Kube\<close>: the interface to the outside, the visible actions, and three calculi: \<^verbatim>\<open>emits\<close> (which actions a computation can
    take), \<^verbatim>\<open>yields\<close> (which results it can have), \<^verbatim>\<open>quiet\<close> reads.
  \<^descr> \<^verbatim>\<open>Memory_Cluster\<close>: an instance of the interface with optimistic concurrency, for the witnesses.
  \<^descr> \<^verbatim>\<open>Index\<close> and \<^verbatim>\<open>Watch\<close>: the index extractors of \<^verbatim>\<open>SetupWithManager\<close> and \<^verbatim>\<open>findWDsForWorkload\<close>; an event enqueues
    exactly the objects that mention the workload, each once.
  \<^descr> \<^verbatim>\<open>Cycles\<close>: \<^verbatim>\<open>cycles.go\<close>; the depth-first search terminates and is correct and complete for cycles of three or more workloads.
  \<^descr> \<^verbatim>\<open>Metrics\<close>, \<^verbatim>\<open>Notify\<close>: \<^verbatim>\<open>metrics.go\<close> and \<^verbatim>\<open>notify.go\<close>; the gauges, the decision to notify, the bounded retries.
  \<^descr> \<^verbatim>\<open>Status\<close>: \<^verbatim>\<open>setStatus\<close> with its retries on conflict, \<^verbatim>\<open>setCondition\<close>, and the two windows, whose waiting is a locale.
  \<^descr> \<^verbatim>\<open>Controller\<close>: \<^verbatim>\<open>Reconcile\<close> and everything it calls; when a workload may be patched and to what, what deletion
    does, what a suspension saves.
  \<^descr> \<^verbatim>\<open>Policy\<close>: the decision table of the documentation as a function from an observation to a verdict; the
    reconciler's decision part refines it.
  \<^descr> \<^verbatim>\<open>Outcome\<close>: with writes accepted, the decision part leaves exactly the status and the workload its verdict prescribes;
    a requeue after the requested delay finds the window over and acts.
  \<^descr> \<^verbatim>\<open>Closed_Loop\<close>: the reconciler and the API server as one system.  \<^verbatim>\<open>api_store\<close> is the contract of a server that stores an
    object and its dependent (reads tell what is stored, accepted writes are stored, refused ones change nothing); any call
    may fail, and \<^verbatim>\<open>runs\<close> interleaves whole calls of \<^verbatim>\<open>Reconcile\<close> with the changes of anybody else.  The stored status stays
    well formed and the replica count survives, except for one failure, after which it is lost for good.
  \<^descr> \<^verbatim>\<open>Liveness\<close>: what one report about the dependencies makes the server store when it accepts the writes (\<^verbatim>\<open>responsive\<close>).
  \<^descr> \<^verbatim>\<open>Stranding\<close>: objects that are not suspended; without an unhealthy report their dependents are left alone.
  \<^descr> \<^verbatim>\<open>Memory_Store\<close>: the cluster of \<^verbatim>\<open>Memory_Cluster\<close> keeps both contracts, also when it refuses status updates.
  \<^descr> \<^verbatim>\<open>Operation\<close>: the properties of the closed system: what is kept, what is lost, when a dependent is suspended and restored.
  \<^descr> \<^verbatim>\<open>Admission\<close>, \<^verbatim>\<open>Gate\<close>, \<^verbatim>\<open>WD_Validator\<close>: \<^verbatim>\<open>gate.go\<close> and \<^verbatim>\<open>wd_validator.go\<close> behind the contract of an
    admission handler; exactly which requests are denied.
  \<^descr> \<^verbatim>\<open>TLS\<close>, \<^verbatim>\<open>Server\<close>: \<^verbatim>\<open>tls.go\<close> and \<^verbatim>\<open>server.go\<close>; the certificate in use never comes within thirty days of its end unless renewal fails
    that long, and the stored, the served and the trusted certificate agree.
  \<^descr> \<^verbatim>\<open>Command_Line\<close>: the flags of \<^verbatim>\<open>main.go\<close> and \<^verbatim>\<open>flag.Parse\<close> on them; every setting has a command line.
  \<^descr> \<^verbatim>\<open>Manager\<close>: \<^verbatim>\<open>main.go\<close> and \<^verbatim>\<open>SetupWithManager\<close>; the options and the order of the set-up calls.
  \<^descr> This theory: the properties that relate the webhooks, the cache options and the reconciler.

  \<^bold>\<open>Bounds.\<close>  All functions are total.  The retry loops of \<^verbatim>\<open>setStatus\<close> and \<^verbatim>\<open>sendNotification\<close> count down from the
  constants of the sources (three attempts each).  The depth-first search is defined by well-founded recursion on the
  unvisited vertices.  The rotation loops and the server, which run until they are stopped, take the list of events (or the number of ticks) they
  see as an argument; the theorems hold for every list.

  \<^bold>\<open>Not modelled.\<close>  Logging; the registration of the metrics and of the type scheme, and the builder of the controller,
  which are library calls; the network and the shutdown timeout of the
  server; JSON and admission review decoding, of which the handlers receive the result; type and list metadata.  Concurrency is modelled
  where the sources meet it: any read may see another writer's changes and any write may conflict, and the server's
  events interleave in any order; two reconciliations of one object do not overlap, as the library guarantees.
\<close>

section \<open>The gate and the reconciler\<close>

text \<open>
  C24.  For a deployment or a stateful set with a non-zero desired count, and for every
  rollout, the gate and the reconciler agree on health, although each has its own code for it.
\<close>

theorem gate_agrees_with_reconciler:
  assumes "n \<noteq> 0"
  shows "depStatus k (DeploymentAccessor (d\<lparr>d_Replicas := Some n\<rparr>)) cond ns =
      return (Inr (if fst (checkReplicaHealth k (Some n) (d_ReadyReplicas d) cond name) then depHealthy else depUnhealthy)) \<and>
    depStatus k (StatefulSetAccessor (st\<lparr>s_Replicas := Some n\<rparr>)) cond ns =
      return (Inr (if fst (checkReplicaHealth k (Some n) (s_ReadyReplicas st) cond name) then depHealthy else depUnhealthy)) \<and>
    fst (rollout_health k u) = rollout_isHealthyAsDependency k u"
  using assms
  by (auto simp: depStatus_def checkReplicaHealth_def deployment_getReplicas_def statefulSet_getReplicas_def
      min_percent_def Let_def signed.not_less rollout_health_def rollout_isHealthyAsDependency_def
      rollout_phase_def api_consts split: prod.splits)

theorem gate_agrees_with_reconciler_witness:
  "depStatus mem_kube (DeploymentAccessor (sample_deployment ''b'' 4 4)) \<lparr>MinReadyPercent = 0, Window = 0, RecoveryWindow = 0\<rparr> ''ns'' =
     return (Inr depHealthy) \<and> fst (checkReplicaHealth mem_kube (Some 4) 4 \<lparr>MinReadyPercent = 0, Window = 0, RecoveryWindow = 0\<rparr> ''b'')"
proof -
  have c: "fst (checkReplicaHealth mem_kube (Some 4) 4 \<lparr>MinReadyPercent = 0, Window = 0, RecoveryWindow = 0\<rparr> ''b'')" by code_simp
  with gate_agrees_with_reconciler [of 4 mem_kube "sample_deployment ''b'' 4 4"
      "\<lparr>MinReadyPercent = 0, Window = 0, RecoveryWindow = 0\<rparr>" "''ns''" "''b''"]
  show ?thesis by (simp add: sample_deployment_def)
qed

section \<open>The webhooks and what the reconciler writes\<close>

fun keeps_spec :: "WorkloadDependency \<Rightarrow> effect \<Rightarrow> bool" where
  "keeps_spec wd (UpdateWD wd' r) \<longleftrightarrow> wd_Spec wd' = wd_Spec wd"
| "keeps_spec wd _ = True"

lemma emits_keeps_spec: "emits (keeps_spec wd) (reconcileObject k wd)"
  unfolding reconcileObject_def reconcileWorkloads_def handleDeletion_def restore_on_deletion_def
    ensureFinalizer_def act_def stillSuspended_def handleSuspended_def handleDegraded_def handleHealthy_def Let_def
  by (intro emits_intros emits_suspendWorkload emits_restoreWorkload) simp_all

fun update_of :: "effect \<Rightarrow> WorkloadDependency list" where
  "update_of (UpdateWD wd r) = [wd]"
| "update_of _ = []"

definition updates :: "effect list \<Rightarrow> WorkloadDependency list" where
  "updates xs = concat (map update_of xs)"

text \<open>
  The admission request of a patch that replaces the workload \<open>b\<close> by \<open>w\<close>: the API server sends both as JSON,
  in which a field without a value is absent.  \<open>served\<close> are the typed workloads that its own validation lets
  exist, which have no negative replica count.
\<close>

definition optional_field :: "string \<Rightarrow> json option \<Rightarrow> (string \<times> json) list" where
  "optional_field name v = (case v of None \<Rightarrow> [] | Some x \<Rightarrow> [(name, x)])"

definition replicas_field :: "int32 option \<Rightarrow> (string \<times> json) list" where
  "replicas_field n = optional_field ''replicas'' (map_option (\<lambda>n. JFloat (float_of_int (sint n))) n)"

fun workload_raw :: "workloadAccessor \<Rightarrow> raw" where
  "workload_raw (DeploymentAccessor d) = RawJSON (JObject [(''spec'', JObject (replicas_field (d_Replicas d)))])"
| "workload_raw (StatefulSetAccessor s) = RawJSON (JObject [(''spec'', JObject (replicas_field (s_Replicas s)))])"
| "workload_raw (CronJobAccessor c) =
     RawJSON (JObject [(''spec'', JObject (optional_field ''suspend'' (map_option JBool (cj_Suspend c))))])"
| "workload_raw (RolloutAccessor u) = RawJSON (u_Object u)"

definition patch_request :: "workloadAccessor \<Rightarrow> workloadAccessor \<Rightarrow> raw AdmissionRequest" where
  "patch_request b w =
    \<lparr>ar_UID = ''u'', ar_Operation = Update, ar_Kind = kind_label b, ar_Name = getName b, ar_Namespace = getNamespace b,
     ar_Object = workload_raw w, ar_OldObject = workload_raw b\<rparr>"

fun served :: "workloadAccessor \<Rightarrow> bool" where
  "served (DeploymentAccessor d) = (case d_Replicas d of None \<Rightarrow> True | Some n \<Rightarrow> 0 \<le>s n)"
| "served (StatefulSetAccessor s) = (case s_Replicas s of None \<Rightarrow> True | Some n \<Rightarrow> 0 \<le>s n)"
| "served (CronJobAccessor c) = True"
| "served (RolloutAccessor u) = False"

lemma int32_of_int [simp]: "int32_of_float oor (float_of_int (sint (n :: int32))) = n"
  using sint_range_32 [of n] by (simp add: int32_of_float_def float_of_int_def ftrunc_def)

lemma extract_replicas_field:
  "kind \<noteq> ''CronJob'' \<Longrightarrow> extractReplicas lib (RawJSON (JObject [(''spec'', JObject (replicas_field n))])) kind =
     (case n of None \<Rightarrow> 1 | Some n \<Rightarrow> n, False)"
  by (simp add: extractReplicas_def replicas_field_def optional_field_def split: option.split)

lemma suspension_admitted:
  assumes "suspending k b w" and "served b"
  shows "gate_validate k' (patch_request b w) = return allow"
proof -
  have "(0 :: int32) \<le>s 1" by code_simp
  with assms show ?thesis
    by (cases b)
       (auto simp: gate_validate_def patch_request_def extract_replicas_field deployment_setReplicas_def statefulSet_setReplicas_def
          extractReplicas_def [of _ "RawJSON _" "''CronJob''"] optional_field_def cronJob_setSuspend_def Let_def split: option.splits)
qed

text \<open>
  C22.  What the operator writes and its own webhooks.  Every update a reconciliation sends for an object that
  passes validation (adding or removing the finalizer) passes validation, too.  And the gate, whatever it
  reads, denies no patch of a deployment, stateful set or cron job but a restoration that the object justifies: a
  suspension is never held up.
\<close>

theorem own_updates_accepted:
  fixes t :: "'f world"
  assumes "k_GetWD k req (env s) = (Inr wd, e)"
  shows "(validateWD wd = [] \<longrightarrow> (\<forall>wd' \<in> set (updates (new_effects (Reconcile k req) s)). validateWD wd' = [])) \<and>
    (\<forall>(b, w) \<in> set (patches (new_effects (Reconcile k req) s)). served b \<longrightarrow>
       \<not> Allowed (fst (run_state (gate_validate k' (patch_request b w)) t)) \<longrightarrow>
       may_restore k wd \<and> restoring k (SavedReplicas (wd_Status wd)) b w)"
proof (intro conjI impI ballI)
  fix wd'
  assume v: "validateWD wd = []" and "wd' \<in> set (updates (new_effects (Reconcile k req) s))"
  then obtain x where x: "x \<in> set (new_effects (Reconcile k req) s)" "wd' \<in> set (update_of x)"
    by (auto simp: updates_def)
  with Reconcile_effects [OF assms emits_keeps_spec] have "keeps_spec wd x"
    by (simp add: list_all_iff)
  with x(2) have "wd_Spec wd' = wd_Spec wd" by (cases x) simp_all
  with v show "validateWD wd' = []" by (simp add: validateWD_Nil)
next
  fix p
  assume "p \<in> set (patches (new_effects (Reconcile k req) s))"
  then obtain x where x: "x \<in> set (new_effects (Reconcile k req) s)" "p \<in> set (patch_of x)"
    by (auto simp: patches_def)
  with Reconcile_effects [OF assms emits_reconcileObject] have "justified k wd x"
    by (simp add: list_all_iff)
  with x(2) show "case p of (b, w) \<Rightarrow> served b \<longrightarrow>
       \<not> Allowed (fst (run_state (gate_validate k' (patch_request b w)) t)) \<longrightarrow>
       may_restore k wd \<and> restoring k (SavedReplicas (wd_Status wd)) b w"
    by (cases x) (auto simp: suspension_admitted allow_def)
qed

definition unfinalized_wd :: WorkloadDependency where
  "unfinalized_wd = (sample_wd ''w'' ''a'' [''b''] ModeStrict)\<lparr>
     wd_Meta := (wd_Meta (sample_wd ''w'' ''a'' [''b''] ModeStrict))\<lparr>meta_Finalizers := []\<rparr>\<rparr>"

theorem own_updates_accepted_witness:
  "map (\<lambda>wd. meta_Finalizers (wd_Meta wd)) (updates (new_effects (Reconcile mem_kube (wd_key unfinalized_wd))
       (start (pair_cluster unfinalized_wd 3 3)))) = [[FinalizerName]] \<and>
   list_all (\<lambda>wd. validateWD wd = []) (updates (new_effects (Reconcile mem_kube (wd_key unfinalized_wd))
       (start (pair_cluster unfinalized_wd 3 3)))) \<and>
   (\<exists>b w. patches (new_effects (Reconcile mem_kube (wd_key degraded_wd)) (start (pair_cluster degraded_wd 3 1))) = [(b, w)] \<and>
      Allowed (fst (run_state (gate_validate mem_kube (patch_request b w)) (start (pair_cluster gate_wd 3 1)))))"
proof (intro conjI)
  have v: "validateWD unfinalized_wd = []" by code_simp
  have r: "k_GetWD mem_kube (wd_key unfinalized_wd) (env (start (pair_cluster unfinalized_wd 3 3))) =
      (Inr unfinalized_wd, pair_cluster unfinalized_wd 3 3)" by (rule mem_read)
  show "list_all (\<lambda>wd. validateWD wd = []) (updates (new_effects (Reconcile mem_kube (wd_key unfinalized_wd))
       (start (pair_cluster unfinalized_wd 3 3))))"
    unfolding list_all_iff using own_updates_accepted [OF r] v by blast
  let ?b = "DeploymentAccessor (sample_deployment ''a'' 3 3)"
  have p: "patches (new_effects (Reconcile mem_kube (wd_key degraded_wd)) (start (pair_cluster degraded_wd 3 1))) =
      [(?b, DeploymentAccessor ((sample_deployment ''a'' 3 3)\<lparr>d_Replicas := Some 0\<rparr>))]" by code_simp
  have "served ?b" by code_simp
  moreover have "\<not> may_restore mem_kube degraded_wd" by (simp add: may_restore_def sample_defs)
  ultimately show "\<exists>b w. patches (new_effects (Reconcile mem_kube (wd_key degraded_wd)) (start (pair_cluster degraded_wd 3 1))) = [(b, w)] \<and>
      Allowed (fst (run_state (gate_validate mem_kube (patch_request b w)) (start (pair_cluster gate_wd 3 1))))"
    using own_updates_accepted [OF mem_read, of degraded_wd 3 1 mem_kube "start (pair_cluster gate_wd 3 1)"] p by auto
qed code_simp


definition admitting_kube :: "cluster kube" where
  "admitting_kube = mem_kube\<lparr>k_UpdateWD := (\<lambda>wd c.
     if validateWD wd \<noteq> [] then (Inl (OtherError ''Invalid''), c) else k_UpdateWD mem_kube wd c)\<rparr>"

definition deleted_invalid_wd :: WorkloadDependency where
  "deleted_invalid_wd = (let wd = sample_wd ''w'' ''a'' [] ModeStrict in
     wd\<lparr>wd_Meta := (wd_Meta wd)\<lparr>meta_DeletionTimestamp := Some 0\<rparr>\<rparr>)"


section \<open>What the cache leaves out\<close>

text \<open>
  The documented behaviour of a cache that is restricted to some namespaces: reading an object of
  another one is an error, and not a \<^verbatim>\<open>NotFound\<close>.
\<close>

definition denied :: "api_error + 'a \<Rightarrow> bool" where
  "denied r \<longleftrightarrow> (\<exists>msg. r = Inl (OtherError msg))"

definition serves_from_cache :: "'e kube \<Rightarrow> cacheOptions \<Rightarrow> bool" where
  "serves_from_cache k co \<longleftrightarrow>
     (\<forall>nn e. nn_Namespace nn \<notin> set (co_SecretNamespaces co) \<longrightarrow> denied (fst (k_GetSecret k nn e))) \<and>
     (co_DefaultNamespaces co \<noteq> [] \<longrightarrow>
       (\<forall>nn e. nn_Namespace nn \<notin> set (co_DefaultNamespaces co) \<longrightarrow>
          denied (fst (k_GetDeployment k nn e)) \<and> denied (fst (k_GetStatefulSet k nn e)) \<and>
          denied (fst (k_GetCronJob k nn e)) \<and> denied (fst (k_GetRollout k nn e))))"

text \<open>
  C35.  The cache holds Secrets of the operator's namespace only, but the webhook URL of a
  notification is read from a Secret in the object's namespace: an object elsewhere that names
  its webhook by a Secret never sends a notification.
\<close>

theorem secret_ref_never_notifies:
  assumes "serves_from_cache k (mo_Cache (manager_options opts))"
    and "wd_Namespace wd \<noteq> operatorNamespace opts"
    and "Notify (wd_Spec wd) = Some n" and "WebhookSecretRef n = Some ref"
  shows "emits (\<lambda>_. False) (maybeNotify k wd prevPhase newPhase)"
proof -
  have "yields (resolveWebhookURL k wd n) (\<lambda>r. \<exists>err. r = Inl err)"
    unfolding resolveWebhookURL_def using assms
    by (auto intro!: yields_read [where R = denied] yields_return
        simp: serves_from_cache_def manager_options_def cache_options_def denied_def split: sum.splits)
  moreover have "emits (\<lambda>_. False) (resolveWebhookURL k wd n)"
    unfolding resolveWebhookURL_def Let_def by (intro emits_intros)
  ultimately show ?thesis
    unfolding maybeNotify_def using assms(3)
    by (auto intro!: emits_return emits_bind_yields [of _ "resolveWebhookURL k wd n"])
qed

text \<open>
  C37.  An operator restricted to one namespace never considers the dependencies of
  an object healthy when one of them is in another namespace: the evaluation ends in an error,
  or at a missing dependency before it, so a suspended dependent is not restored when its dependencies recover.
\<close>

theorem single_namespace_never_healthy:
  fixes k :: "'e kube"
  assumes "serves_from_cache k (mo_Cache (manager_options opts))" and "watchNamespace opts \<noteq> ''''"
    and "dep \<in> set deps" and "dependencyNS wd dep \<noteq> watchNamespace opts"
  shows "yields (evalDependencies k wd deps allOk msg) (\<lambda>r. \<forall>ok m. r = Inr (ok, m) \<longrightarrow> \<not> ok)"
  using assms(3)
proof (induction deps arbitrary: allOk msg)
  case (Cons d deps)
  have get: "yields (getWorkload k (dep_Kind dep) (dep_Name dep) (dependencyNS wd dep)) denied"
    unfolding getWorkload_def getRollout_def Let_def using assms
    by (auto intro!: yields_read [where R = denied] yields_return
        simp: serves_from_cache_def manager_options_def cache_options_def denied_def split: sum.splits)
  show ?case
  proof (cases "d = dep")
    case True
    then show ?thesis
      by (simp add: Let_def) (auto intro!: yields_bind [OF get [unfolded dependencyNS_def]] yields_return simp: denied_def)
  next
    case False
    with Cons show ?thesis
      by (auto simp: Let_def intro!: yields_bind [OF yields_any] yields_return split: sum.splits)
  qed
qed simp

text \<open>The cluster in memory behind the cache of an operator restricted to the namespace \<open>ns\<close>.\<close>

definition single_opts :: flags where
  "single_opts = default_flags\<lparr>watchNamespace := ''ns''\<rparr>"

definition only_in :: "string \<Rightarrow> (NamespacedName \<Rightarrow> 'e \<Rightarrow> (api_error + 'a) \<times> 'e) \<Rightarrow> NamespacedName \<Rightarrow> 'e \<Rightarrow> (api_error + 'a) \<times> 'e" where
  "only_in ns get nn e = (if nn_Namespace nn = ns then get nn e else (Inl (OtherError ''unknown namespace for the cache''), e))"

definition cached_kube :: "cluster kube" where
  "cached_kube = mem_kube\<lparr>
     k_GetSecret := only_in ''klink-system'' (k_GetSecret mem_kube),
     k_GetDeployment := only_in ''ns'' (k_GetDeployment mem_kube),
     k_GetStatefulSet := only_in ''ns'' (k_GetStatefulSet mem_kube),
     k_GetCronJob := only_in ''ns'' (k_GetCronJob mem_kube),
     k_GetRollout := only_in ''ns'' (k_GetRollout mem_kube)\<rparr>"

lemma cached_kube_serves: "serves_from_cache cached_kube (mo_Cache (manager_options single_opts))"
  by (simp add: serves_from_cache_def cached_kube_def only_in_def denied_def manager_options_def cache_options_def
      single_opts_def default_flags_def)

definition notifying_wd :: WorkloadDependency where
  "notifying_wd = (let wd = sample_wd ''w'' ''a'' [''b''] ModeStrict in
     wd\<lparr>wd_Spec := (wd_Spec wd)\<lparr>Notify := Some \<lparr>Webhook = '''', WebhookSecretRef = Some \<lparr>skr_Name = ''hook'', skr_Key = ''''\<rparr>,
       OnPhases = []\<rparr>\<rparr>\<rparr>)"

theorem secret_ref_never_notifies_witness:
  "shouldNotify [] PhaseSuspended \<and>
   new_effects (maybeNotify cached_kube notifying_wd PhaseDegraded PhaseSuspended) (start (pair_cluster notifying_wd 3 3)) = []"
proof -
  have "emits (\<lambda>_. False) (maybeNotify cached_kube notifying_wd PhaseDegraded PhaseSuspended)"
    by (rule secret_ref_never_notifies [OF cached_kube_serves, where ref = "\<lparr>skr_Name = ''hook'', skr_Key = ''''\<rparr>"
          and n = "\<lparr>Webhook = '''', WebhookSecretRef = Some \<lparr>skr_Name = ''hook'', skr_Key = ''''\<rparr>, OnPhases = []\<rparr>"])
       (simp_all add: notifying_wd_def single_opts_def default_flags_def sample_defs)
  from emits_new_effects [OF this] show ?thesis
    by (simp add: shouldNotify_def list_all_iff)
qed

theorem single_namespace_never_healthy_witness:
  "\<nexists>m. fst (run_state (evalDependencies cached_kube notifying_wd [(sample_dep ''b'')\<lparr>dep_Namespace := ''other''\<rparr>] True [])
     (start (pair_cluster notifying_wd 3 3))) = Inr (True, m)"
  using single_namespace_never_healthy [OF cached_kube_serves, of "(sample_dep ''b'')\<lparr>dep_Namespace := ''other''\<rparr>"
      "[(sample_dep ''b'')\<lparr>dep_Namespace := ''other''\<rparr>]" notifying_wd True "[]"]
  by (auto simp: yields_def dependencyNS_def namespace_or_def single_opts_def default_flags_def simp del: evalDependencies.simps)

end
